(* ===== verification/Prelude.thy ===== *)
theory Prelude
  imports Main
begin

text \<open>
  Shared vocabulary of the development.  It holds the exceptions of the modelled Python code, the
  state-and-exception computations every handler is written in, the two shapes of statement the
  component theories prove about them (\<open>steps\<close>: how a computation may change the state,
  whether it returns or raises; \<open>returns\<close>: what it returns), and the named collections
  the proofs use.
\<close>

section \<open>Exceptions and computations\<close>

text \<open>
  The exceptions the modelled code can raise.  A Python exception leaves the state as it is at
  the raise, so a computation returns its state next to the outcome.
\<close>

datatype exn =
    AttributeError
  | TypeError
  | KeyError
  | IndexError
  | ValueError string
  | ValidationError
  | RuntimeError string
  | WorkspacePolicyError string
  | ProviderError string
  | FileNotFoundError
  | TimeoutExpired
  | OSError string

text \<open>The text of an exception; what the interpreter itself would say is not modelled.\<close>

fun exn_text :: "exn \<Rightarrow> string" where
  "exn_text (ValueError s) = s"
| "exn_text (RuntimeError s) = s"
| "exn_text (WorkspacePolicyError s) = s"
| "exn_text (ProviderError s) = s"
| "exn_text (OSError s) = s"
| "exn_text _ = []"

type_synonym 'a res = "exn + 'a"
type_synonym ('s, 'a) comp = "'s \<Rightarrow> 'a res \<times> 's"

definition ret :: "'a \<Rightarrow> ('s, 'a) comp" where
  "ret x = (\<lambda>s. (Inr x, s))"

definition throw :: "exn \<Rightarrow> ('s, 'a) comp" where
  "throw e = (\<lambda>s. (Inl e, s))"

definition bindC :: "('s, 'a) comp \<Rightarrow> ('a \<Rightarrow> ('s, 'b) comp) \<Rightarrow> ('s, 'b) comp" where
  "bindC m f = (\<lambda>s. case m s of (Inl e, s') \<Rightarrow> (Inl e, s') | (Inr x, s') \<Rightarrow> f x s')"

definition getC :: "('s \<Rightarrow> 'a) \<Rightarrow> ('s, 'a) comp" where
  "getC f = (\<lambda>s. (Inr (f s), s))"

definition modC :: "('s \<Rightarrow> 's) \<Rightarrow> ('s, unit) comp" where
  "modC f = (\<lambda>s. (Inr (), f s))"

definition liftC :: "'a res \<Rightarrow> ('s, 'a) comp" where
  "liftC r = (\<lambda>s. (r, s))"

text \<open>\<open>try\<close>/\<open>except\<close>: the handler sees the exception in the state the raise left.\<close>

definition catchC :: "('s, 'a) comp \<Rightarrow> (exn \<Rightarrow> ('s, 'a) comp) \<Rightarrow> ('s, 'a) comp" where
  "catchC m h = (\<lambda>s. case m s of (Inl e, s') \<Rightarrow> h e s' | (Inr x, s') \<Rightarrow> (Inr x, s'))"

text \<open>A computation on a part of the state, seen through the selector and the update.\<close>

definition zoomC :: "('t \<Rightarrow> 's) \<Rightarrow> ('s \<Rightarrow> 't \<Rightarrow> 't) \<Rightarrow> ('s, 'a) comp \<Rightarrow> ('t, 'a) comp" where
  "zoomC sel upd m = (\<lambda>t. case m (sel t) of (r, s) \<Rightarrow> (r, upd s t))"

text \<open>A loop that runs a computation on every element, in order, and stops at a raise.\<close>

primrec mapC :: "('a \<Rightarrow> ('s, 'b) comp) \<Rightarrow> 'a list \<Rightarrow> ('s, 'b list) comp" where
  "mapC f [] = ret []"
| "mapC f (x # xs) = bindC (f x) (\<lambda>y. bindC (mapC f xs) (\<lambda>ys. ret (y # ys)))"

named_theorems comp_defs \<open>the computation combinators, unfolded\<close>
named_theorems returns_rules \<open>what a computation returns\<close>
named_theorems steps_rules \<open>a computation stays within a preorder on states\<close>

declare ret_def [comp_defs] throw_def [comp_defs] bindC_def [comp_defs] getC_def [comp_defs]
  modC_def [comp_defs] liftC_def [comp_defs] catchC_def [comp_defs] zoomC_def [comp_defs]

lemma bindC_ret [simp]: "bindC (ret x) f = f x"
  by (simp add: comp_defs)

lemma bindC_throw [simp]: "bindC (throw e) f = throw e"
  by (simp add: comp_defs)

lemma bindC_assoc: "bindC (bindC m f) g = bindC m (\<lambda>x. bindC (f x) g)"
  by (auto simp: comp_defs split: prod.splits sum.splits)

lemma bindC_Inr_E:
  assumes "bindC m f s = (Inr y, s'')"
  obtains x s' where "m s = (Inr x, s')" and "f x s' = (Inr y, s'')"
  using assms by (auto simp: bindC_def split: prod.splits sum.splits)

lemma ret_eq [simp]: "ret x s = (r, s') \<longleftrightarrow> r = Inr x \<and> s' = s"
  by (auto simp: ret_def)

lemma throw_eq [simp]: "throw e s = (r, s') \<longleftrightarrow> r = Inl e \<and> s' = s"
  by (auto simp: throw_def)

lemma getC_eq [simp]: "getC f s = (r, s') \<longleftrightarrow> r = Inr (f s) \<and> s' = s"
  by (auto simp: getC_def)

lemma modC_eq [simp]: "modC f s = (r, s') \<longleftrightarrow> r = Inr () \<and> s' = f s"
  by (auto simp: modC_def)

lemma liftC_eq [simp]: "liftC x s = (r, s') \<longleftrightarrow> x = r \<and> s' = s"
  by (auto simp: liftC_def)

section \<open>What a computation returns\<close>

definition returns :: "('a \<Rightarrow> bool) \<Rightarrow> ('s, 'a) comp \<Rightarrow> bool" where
  "returns Q m \<longleftrightarrow> (\<forall>s r s'. m s = (Inr r, s') \<longrightarrow> Q r)"

lemma returnsD: "returns Q m \<Longrightarrow> m s = (Inr r, s') \<Longrightarrow> Q r"
  by (auto simp: returns_def)

lemma returns_ret [simp]: "returns Q (ret x) \<longleftrightarrow> Q x"
  by (auto simp: returns_def)

lemma returns_throw [simp]: "returns Q (throw e)"
  by (auto simp: returns_def)

lemma returns_bind [returns_rules]: "(\<And>x. returns Q (f x)) \<Longrightarrow> returns Q (bindC m f)"
  by (auto simp: returns_def elim!: bindC_Inr_E)

lemma returns_bind_strong:
  "returns P m \<Longrightarrow> (\<And>x. P x \<Longrightarrow> returns Q (f x)) \<Longrightarrow> returns Q (bindC m f)"
  by (fastforce simp: returns_def elim!: bindC_Inr_E)

lemma returns_if [returns_rules]: "(b \<Longrightarrow> returns Q m) \<Longrightarrow> (\<not> b \<Longrightarrow> returns Q n) \<Longrightarrow> returns Q (if b then m else n)"
  by simp

lemma returns_option [returns_rules]:
  "(x = None \<Longrightarrow> returns Q m) \<Longrightarrow> (\<And>y. x = Some y \<Longrightarrow> returns Q (f y)) \<Longrightarrow>
   returns Q (case x of None \<Rightarrow> m | Some y \<Rightarrow> f y)"
  by (simp split: option.split)

lemma returns_prod [returns_rules]:
  "(\<And>a b. x = (a, b) \<Longrightarrow> returns Q (f a b)) \<Longrightarrow> returns Q (case x of (a, b) \<Rightarrow> f a b)"
  by (simp split: prod.split)

lemma returns_Let [returns_rules]: "returns Q (f x) \<Longrightarrow> returns Q (Let x f)"
  by simp

lemma returns_True [simp]: "returns (\<lambda>_. True) m"
  by (simp add: returns_def)

section \<open>How a computation may change the state\<close>

definition steps :: "('s \<Rightarrow> 's \<Rightarrow> bool) \<Rightarrow> ('s, 'a) comp \<Rightarrow> bool" where
  "steps R m \<longleftrightarrow> (\<forall>s. R s (snd (m s)))"

lemma stepsD: "steps R m \<Longrightarrow> m s = (r, s') \<Longrightarrow> R s s'"
  by (auto simp: steps_def dest: spec [of _ s])

lemma stepsI: "(\<And>s r s'. m s = (r, s') \<Longrightarrow> R s s') \<Longrightarrow> steps R m"
  unfolding steps_def by (metis prod.collapse)

text \<open>
  A preorder on states lifts through every combinator.  The theories below instantiate it with
  the relations that say what a chain run keeps: the ledger only grows, the decision does not
  move, the working tree is untouched.
\<close>

locale state_preorder =
  fixes R :: "'s \<Rightarrow> 's \<Rightarrow> bool"
  assumes R_refl: "R s s"
    and R_trans: "R s t \<Longrightarrow> R t u \<Longrightarrow> R s u"
begin

lemma steps_ret [steps_rules]: "steps R (ret x)"
  by (rule stepsI) (simp add: R_refl)

lemma steps_throw [steps_rules]: "steps R (throw e)"
  by (rule stepsI) (simp add: R_refl)

lemma steps_getC [steps_rules]: "steps R (getC f)"
  by (rule stepsI) (simp add: R_refl)

lemma steps_liftC [steps_rules]: "steps R (liftC r)"
  by (rule stepsI) (simp add: R_refl)

lemma steps_modC: "(\<And>s. R s (f s)) \<Longrightarrow> steps R (modC f)"
  by (auto intro: stepsI)

lemma steps_bindC [steps_rules]:
  assumes "steps R m" and "\<And>x. steps R (f x)"
  shows "steps R (bindC m f)"
proof (rule stepsI)
  fix s r s'
  assume run: "bindC m f s = (r, s')"
  obtain a t where at: "m s = (a, t)" by fastforce
  then have st: "R s t" using assms(1) by (rule stepsD [rotated])
  show "R s s'"
  proof (cases a)
    case (Inl e)
    with run at st show ?thesis by (simp add: bindC_def)
  next
    case (Inr x)
    with run at have "f x t = (r, s')" by (simp add: bindC_def)
    then have "R t s'" using assms(2) by (rule stepsD [rotated])
    with st show ?thesis by (rule R_trans)
  qed
qed

lemma steps_catchC [steps_rules]:
  assumes "steps R m" and "\<And>e. steps R (h e)"
  shows "steps R (catchC m h)"
proof (rule stepsI)
  fix s r s'
  assume run: "catchC m h s = (r, s')"
  obtain a t where at: "m s = (a, t)" by fastforce
  then have st: "R s t" using assms(1) by (rule stepsD [rotated])
  show "R s s'"
  proof (cases a)
    case (Inl e)
    with run at have "h e t = (r, s')" by (simp add: catchC_def)
    then have "R t s'" using assms(2) by (rule stepsD [rotated])
    with st show ?thesis by (rule R_trans)
  next
    case (Inr x)
    with run at st show ?thesis by (simp add: catchC_def)
  qed
qed

lemma steps_if [steps_rules]:
  "(b \<Longrightarrow> steps R m) \<Longrightarrow> (\<not> b \<Longrightarrow> steps R n) \<Longrightarrow> steps R (if b then m else n)"
  by simp

lemma steps_option [steps_rules]:
  "(x = None \<Longrightarrow> steps R m) \<Longrightarrow> (\<And>y. x = Some y \<Longrightarrow> steps R (f y)) \<Longrightarrow>
   steps R (case x of None \<Rightarrow> m | Some y \<Rightarrow> f y)"
  by (simp split: option.split)

lemma steps_prod [steps_rules]:
  "(\<And>a b. x = (a, b) \<Longrightarrow> steps R (f a b)) \<Longrightarrow> steps R (case x of (a, b) \<Rightarrow> f a b)"
  by (simp split: prod.split)

lemma steps_Let [steps_rules]: "steps R (f x) \<Longrightarrow> steps R (Let x f)"
  by simp

lemma steps_mapC [steps_rules]: "(\<And>x. steps R (f x)) \<Longrightarrow> steps R (mapC f xs)"
  by (induction xs) (auto intro!: steps_rules)

end

section \<open>Dictionaries with insertion order\<close>

text \<open>
  A Python dict that is printed or iterated keeps its insertion order: it is an association
  list with distinct keys.  Assigning to a key that exists keeps its place, a new key goes
  last.
\<close>

type_synonym ('k, 'v) dict = "('k \<times> 'v) list"

fun dict_set :: "'k \<Rightarrow> 'v \<Rightarrow> ('k, 'v) dict \<Rightarrow> ('k, 'v) dict" where
  "dict_set k v [] = [(k, v)]"
| "dict_set k v ((k', v') # d) = (if k' = k then (k, v) # d else (k', v') # dict_set k v d)"

lemma map_of_dict_set [simp]: "map_of (dict_set k v d) = (map_of d)(k \<mapsto> v)"
  by (induction d) auto

lemma fst_dict_set: "fst ` set (dict_set k v d) = insert k (fst ` set d)"
  by (induction k v d rule: dict_set.induct) (simp_all add: insert_commute)

lemma distinct_dict_set: "distinct (map fst d) \<Longrightarrow> distinct (map fst (dict_set k v d))"
  by (induction d) (auto simp: fst_dict_set simp flip: image_set)

lemma map_fst_dict_set_old:
  "k \<in> fst ` set d \<Longrightarrow> map fst (dict_set k v d) = map fst d"
  by (induction k v d rule: dict_set.induct) (auto split: if_splits)

lemma dict_set_new: "k \<notin> fst ` set d \<Longrightarrow> dict_set k v d = d @ [(k, v)]"
  by (induction d) auto

lemma list_all_update: "list_all P xs \<Longrightarrow> P x \<Longrightarrow> list_all P (xs[i := x])"
  using set_update_subset_insert [of xs i x] by (auto simp: list_all_iff)

end
