(* ===== verification/PyStrings.thy ===== *)
theory PyStrings
  imports Prelude "HOL-Library.Char_ord" "HOL-Library.List_Lexorder" "HOL-Library.Sublist"
begin

text \<open>
  The operations on Python strings the source uses, over HOL's \<^typ>\<open>string\<close>: a character is a
  code point below 256 (ASCII and Latin-1), on which \<open>lower\<close>, \<open>strip\<close> and
  \<open>splitlines\<close> are the functions Python's \<open>str\<close> has.  Code points above 255 are outside the
  model.  The second half is the standard library's \<open>fnmatch\<close>, which the scope gate
  and the sandbox policy match paths and commands with.
\<close>

section \<open>Searching and slicing\<close>

definition starts_with :: "string \<Rightarrow> string \<Rightarrow> bool" where
  "starts_with p s \<longleftrightarrow> take (length p) s = p"

definition ends_with :: "string \<Rightarrow> string \<Rightarrow> bool" where
  "ends_with p s \<longleftrightarrow> starts_with (rev p) (rev s)"

fun contains :: "string \<Rightarrow> string \<Rightarrow> bool" where
  "contains p [] \<longleftrightarrow> p = []"
| "contains p (c # s) \<longleftrightarrow> starts_with p (c # s) \<or> contains p s"

definition replace_char :: "char \<Rightarrow> char \<Rightarrow> string \<Rightarrow> string" where
  "replace_char a b s = map (\<lambda>c. if c = a then b else c) s"

abbreviation backslash :: char where
  "backslash \<equiv> CHR 0x5C"

definition norm_slashes :: "string \<Rightarrow> string" where
  "norm_slashes s = replace_char backslash CHR ''/'' s"

text \<open>\<open>s.rsplit(d, 1)[-1]\<close>: what follows the last \<open>d\<close>, or all of \<open>s\<close>.\<close>

definition after_last :: "char \<Rightarrow> string \<Rightarrow> string" where
  "after_last d s = rev (takeWhile (\<lambda>c. c \<noteq> d) (rev s))"

definition basename :: "string \<Rightarrow> string" where
  "basename path = after_last CHR ''/'' (norm_slashes path)"

text \<open>\<open>s.split(d)\<close> for a one-character separator.\<close>

fun split_on :: "char \<Rightarrow> string \<Rightarrow> string list" where
  "split_on d [] = [[]]"
| "split_on d (c # s) =
     (if c = d then [] # split_on d s
      else case split_on d s of [] \<Rightarrow> [[c]] | w # ws \<Rightarrow> (c # w) # ws)"

fun py_join :: "string \<Rightarrow> string list \<Rightarrow> string" where
  "py_join sep [] = []"
| "py_join sep [x] = x"
| "py_join sep (x # y # ys) = x @ sep @ py_join sep (y # ys)"

section \<open>Case and white space\<close>

definition is_space :: "char \<Rightarrow> bool" where
  "is_space c \<longleftrightarrow> (let n = (of_char c :: nat) in
     (9 \<le> n \<and> n \<le> 13) \<or> (28 \<le> n \<and> n \<le> 32) \<or> n = 133 \<or> n = 160)"

definition lstrip :: "string \<Rightarrow> string" where
  "lstrip s = dropWhile is_space s"

definition strip :: "string \<Rightarrow> string" where
  "strip s = rev (lstrip (rev (lstrip s)))"

definition lower_char :: "char \<Rightarrow> char" where
  "lower_char c = (let n = (of_char c :: nat) in
     if (65 \<le> n \<and> n \<le> 90) \<or> (192 \<le> n \<and> n \<le> 222 \<and> n \<noteq> 215) then char_of (n + 32) else c)"

definition lower :: "string \<Rightarrow> string" where
  "lower s = map lower_char s"

text \<open>
  \<open>upper\<close> leaves the two characters whose upper case is above code point 255 as they
  are; the source compares its result with ASCII words only, which contain neither.
\<close>

definition upper_char :: "char \<Rightarrow> string" where
  "upper_char c = (let n = (of_char c :: nat) in
     if n = 223 then ''SS''
     else if (97 \<le> n \<and> n \<le> 122) \<or> (224 \<le> n \<and> n \<le> 254 \<and> n \<noteq> 247) then [char_of (n - 32)]
     else [c])"

definition upper :: "string \<Rightarrow> string" where
  "upper s = concat (map upper_char s)"

text \<open>\<open>s.split()\<close>: the maximal runs without white space.\<close>

fun words_acc :: "string \<Rightarrow> string \<Rightarrow> string list" where
  "words_acc w [] = (if w = [] then [] else [rev w])"
| "words_acc w (c # s) =
     (if is_space c then (if w = [] then words_acc [] s else rev w # words_acc [] s)
      else words_acc (c # w) s)"

definition split_ws :: "string \<Rightarrow> string list" where
  "split_ws s = words_acc [] s"

text \<open>\<open>s.splitlines()\<close>: a carriage return before a line feed ends one line with it.\<close>

definition is_linebreak :: "char \<Rightarrow> bool" where
  "is_linebreak c \<longleftrightarrow> (let n = (of_char c :: nat) in
     (10 \<le> n \<and> n \<le> 13) \<or> (28 \<le> n \<and> n \<le> 30) \<or> n = 133)"

fun lines_acc :: "string \<Rightarrow> string \<Rightarrow> string list" where
  "lines_acc l [] = (if l = [] then [] else [rev l])"
| "lines_acc l (c # s) =
     (if c = CHR 0x0D then
        (case s of d # t \<Rightarrow> rev l # lines_acc [] (if d = CHR 0x0A then t else s) | [] \<Rightarrow> [rev l])
      else if is_linebreak c then rev l # lines_acc [] s
      else lines_acc (c # l) s)"

definition splitlines :: "string \<Rightarrow> string list" where
  "splitlines s = lines_acc [] s"

section \<open>Decimal numbers\<close>

definition digit :: "nat \<Rightarrow> char" where
  "digit n = char_of (48 + n)"

fun dec :: "nat \<Rightarrow> string" where
  "dec n = (if n < 10 then [digit n] else dec (n div 10) @ [digit (n mod 10)])"

declare dec.simps [simp del]

definition dec_int :: "int \<Rightarrow> string" where
  "dec_int i = (if i < 0 then CHR ''-'' # dec (nat (- i)) else dec (nat i))"

text \<open>\<open>f"{n:04d}"\<close> and \<open>f"{n:02d}"\<close>: zeros on the left up to a width.\<close>

definition zero_pad :: "nat \<Rightarrow> nat \<Rightarrow> string" where
  "zero_pad w n = replicate (w - length (dec n)) CHR ''0'' @ dec n"

definition undec :: "string \<Rightarrow> nat" where
  "undec s = foldl (\<lambda>a c. 10 * a + (of_char c - 48)) 0 s"

lemma of_char_digit: "n < 10 \<Longrightarrow> of_char (digit n) = (48 + n :: nat)"
  by (simp add: digit_def)

lemma undec_snoc: "undec (s @ [c]) = 10 * undec s + (of_char c - 48)"
  by (simp add: undec_def)

lemma undec_dec: "undec (dec n) = n"
proof (induction n rule: dec.induct)
  case (1 n)
  show ?case
  proof (cases "n < 10")
    case True
    then show ?thesis by (subst dec.simps) (simp add: undec_def of_char_digit)
  next
    case False
    then have "undec (dec n) = 10 * undec (dec (n div 10)) + n mod 10"
      by (subst dec.simps) (simp add: undec_snoc of_char_digit)
    with False 1 show ?thesis by simp
  qed
qed

lemma undec_zero: "undec (replicate k CHR ''0'' @ s) = undec s"
  by (induction k) (simp_all add: undec_def)

lemma undec_zero_pad [simp]: "undec (zero_pad w n) = n"
  by (simp add: zero_pad_def undec_zero undec_dec)

lemma zero_pad_inject [simp]: "zero_pad w m = zero_pad w n \<longleftrightarrow> m = n"
  by (metis undec_zero_pad)

lemma dec_inject [simp]: "dec m = dec n \<longleftrightarrow> m = n"
  by (metis undec_dec)

lemma dec_not_Nil [simp]: "dec n \<noteq> []"
  by (subst dec.simps) simp

lemma dec_digits: "c \<in> set (dec n) \<Longrightarrow> 48 \<le> (of_char c :: nat) \<and> of_char c \<le> (57 :: nat)"
proof (induction n rule: dec.induct)
  case (1 n)
  show ?case
  proof (cases "n < 10")
    case True
    with "1.prems" show ?thesis by (subst (asm) dec.simps) (simp add: of_char_digit)
  next
    case False
    with "1.prems" have "c \<in> set (dec (n div 10)) \<or> c = digit (n mod 10)"
      by (subst (asm) dec.simps) auto
    with False "1.IH" show ?thesis by (auto simp: of_char_digit)
  qed
qed

section \<open>Facts about the last path component\<close>

lemma takeWhile_sep: "d \<notin> set xs \<Longrightarrow> takeWhile (\<lambda>c. c \<noteq> d) (xs @ d # ys) = xs"
  by (induction xs) auto

lemma takeWhile_no_sep: "d \<notin> set xs \<Longrightarrow> takeWhile (\<lambda>c. c \<noteq> d) xs = xs"
  by (induction xs) auto

lemma after_last_append: "d \<notin> set n \<Longrightarrow> after_last d (s @ d # n) = n"
  by (simp add: after_last_def takeWhile_sep)

lemma after_last_none: "d \<notin> set n \<Longrightarrow> after_last d n = n"
  by (simp add: after_last_def takeWhile_no_sep)

lemma after_last_no_sep: "d \<notin> set (after_last d s)"
  by (auto simp: after_last_def dest: set_takeWhileD)

definition plain_name :: "string \<Rightarrow> bool" where
  "plain_name n \<longleftrightarrow> CHR ''/'' \<notin> set n \<and> backslash \<notin> set n"

lemma norm_slashes_plain: "backslash \<notin> set n \<Longrightarrow> norm_slashes n = n"
  by (auto simp: norm_slashes_def replace_char_def intro: map_idI)

lemma norm_slashes_append: "norm_slashes (s @ t) = norm_slashes s @ norm_slashes t"
  by (simp add: norm_slashes_def replace_char_def)

lemma basename_join: "plain_name n \<Longrightarrow> basename (p @ ''/'' @ n) = n"
  by (simp add: basename_def norm_slashes_append norm_slashes_plain plain_name_def
      after_last_append norm_slashes_def [of "''/'' @ n"] replace_char_def)

lemma basename_plain: "plain_name n \<Longrightarrow> basename n = n"
  by (simp add: basename_def norm_slashes_plain plain_name_def after_last_none)

lemma plain_name_append [simp]: "plain_name (a @ b) \<longleftrightarrow> plain_name a \<and> plain_name b"
  by (auto simp: plain_name_def)

lemma dec_plain [simp]: "plain_name (dec n)"
  using dec_digits [of "CHR ''/''" n] dec_digits [of backslash n] by (auto simp: plain_name_def)

lemma zero_pad_plain [simp]: "plain_name (zero_pad w n)"
  using dec_plain [of n] by (auto simp: zero_pad_def plain_name_def)

section \<open>Shell-style patterns: \<open>fnmatch\<close>\<close>

text \<open>
  \<open>fnmatch.fnmatch(name, pat)\<close> of the standard library, on a system whose file names are
  case sensitive: an asterisk matches any run of characters (the slash included), a question
  mark one character, and a bracket one character of a set, negated by a leading exclamation
  mark.  A bracket that is never closed stands for itself, and a range whose ends are in the
  wrong order is empty.
\<close>

datatype glob = GStar | GAny | GLit char | GClass bool "(char \<times> char) list"

fun upto_close :: "string \<Rightarrow> (string \<times> string) option" where
  "upto_close [] = None"
| "upto_close (c # s) =
     (if c = CHR '']'' then Some ([], s) else map_option (apfst ((#) c)) (upto_close s))"

definition bracket :: "string \<Rightarrow> (string \<times> string) option" where
  "bracket s =
     (let (p, r) = (case s of c # t \<Rightarrow> if c = CHR ''!'' then ([c], t) else ([], s) | [] \<Rightarrow> ([], s));
          (p', r') = (case r of c # t \<Rightarrow> if c = CHR '']'' then (p @ [c], t) else (p, r) | [] \<Rightarrow> (p, r))
      in map_option (apfst ((@) p')) (upto_close r'))"

fun class_items :: "string \<Rightarrow> (char \<times> char) list" where
  "class_items [] = []"
| "class_items [c] = [(c, c)]"
| "class_items [c, d] = [(c, c), (d, d)]"
| "class_items (a # d # b # s) =
     (if d = CHR ''-'' then (a, b) # class_items s else (a, a) # class_items (d # b # s))"

definition class_token :: "string \<Rightarrow> glob" where
  "class_token stuff = (case stuff of
     c # t \<Rightarrow> if c = CHR ''!'' then GClass True (class_items t) else GClass False (class_items stuff)
   | [] \<Rightarrow> GClass False [])"

lemma upto_close_length: "upto_close s = Some (a, r) \<Longrightarrow> length r < length s"
proof (induction s arbitrary: a r)
  case (Cons c s)
  then show ?case by (cases "c = CHR '']''") (auto intro: less_SucI)
qed simp

lemma bracket_length: "bracket s = Some (a, r) \<Longrightarrow> length r < length s"
  by (auto simp: bracket_def dest!: upto_close_length split: list.splits if_splits)

function glob_parse :: "string \<Rightarrow> glob list" where
  "glob_parse [] = []"
| "glob_parse (c # s) =
     (if c = CHR ''*'' then GStar # glob_parse s
      else if c = CHR ''?'' then GAny # glob_parse s
      else if c = CHR ''['' then
        (case bracket s of
           None \<Rightarrow> GLit c # glob_parse s
         | Some (stuff, r) \<Rightarrow> class_token stuff # glob_parse r)
      else GLit c # glob_parse s)"
  by pat_completeness auto
termination
  by (relation "measure length") (auto dest: bracket_length less_SucI)

fun glob1 :: "glob \<Rightarrow> char \<Rightarrow> bool" where
  "glob1 (GLit d) c \<longleftrightarrow> c = d"
| "glob1 (GClass neg items) c \<longleftrightarrow>
     list_ex (\<lambda>(a, b). (of_char a :: nat) \<le> of_char c \<and> (of_char c :: nat) \<le> of_char b) items \<noteq> neg"
| "glob1 _ c \<longleftrightarrow> True"

fun glob_match :: "glob list \<Rightarrow> string \<Rightarrow> bool" where
  "glob_match [] s \<longleftrightarrow> s = []"
| "glob_match (GStar # ts) [] \<longleftrightarrow> glob_match ts []"
| "glob_match (GStar # ts) (c # s) \<longleftrightarrow> glob_match ts (c # s) \<or> glob_match (GStar # ts) s"
| "glob_match (t # ts) [] \<longleftrightarrow> False"
| "glob_match (t # ts) (c # s) \<longleftrightarrow> glob1 t c \<and> glob_match ts s"

definition fnmatch :: "string \<Rightarrow> string \<Rightarrow> bool" where
  "fnmatch name pat \<longleftrightarrow> glob_match (glob_parse pat) name"

text \<open>
  The reference meaning of a pattern is the set of the strings it denotes; the matcher decides
  membership in it.
\<close>

fun glob_lang :: "glob list \<Rightarrow> string set" where
  "glob_lang [] = {[]}"
| "glob_lang (GStar # ts) = {s @ t |s t. t \<in> glob_lang ts}"
| "glob_lang (g # ts) = {c # t |c t. glob1 g c \<and> t \<in> glob_lang ts}"

lemma glob_star_iff: "glob_match (GStar # ts) s \<longleftrightarrow> (\<exists>u t. s = u @ t \<and> glob_match ts t)"
proof (induction s)
  case Nil
  then show ?case by simp
next
  case (Cons c s)
  show ?case
  proof
    assume "glob_match (GStar # ts) (c # s)"
    then consider "glob_match ts (c # s)" | u t where "s = u @ t" "glob_match ts t"
      using Cons by auto
    then show "\<exists>u t. c # s = u @ t \<and> glob_match ts t"
      by (cases) (force intro: exI [of _ "[]"], metis append_Cons)
  next
    assume "\<exists>u t. c # s = u @ t \<and> glob_match ts t"
    then obtain u t where ut: "c # s = u @ t" "glob_match ts t" by blast
    then show "glob_match (GStar # ts) (c # s)"
      using Cons by (cases u) auto
  qed
qed

lemma glob_match_lang: "glob_match ts s \<longleftrightarrow> s \<in> glob_lang ts"
proof (induction ts arbitrary: s)
  case Nil
  then show ?case by simp
next
  case (Cons g ts)
  show ?case
  proof (cases "g = GStar")
    case True
    with Cons show ?thesis by (simp only: glob_star_iff) auto
  next
    case False
    with Cons show ?thesis by (cases g; cases s) auto
  qed
qed

definition glob_special :: "char \<Rightarrow> bool" where
  "glob_special c \<longleftrightarrow> c = CHR ''*'' \<or> c = CHR ''?'' \<or> c = CHR ''[''"

lemma glob_parse_literal:
  "list_all (\<lambda>c. \<not> glob_special c) p \<Longrightarrow> glob_parse p = map GLit p"
  by (induction p) (auto simp: glob_special_def)

lemma glob_match_literal: "glob_match (map GLit p) s \<longleftrightarrow> s = p"
proof (induction p arbitrary: s)
  case (Cons c p)
  then show ?case by (cases s) auto
qed simp

lemma fnmatch_literal: "list_all (\<lambda>c. \<not> glob_special c) p \<Longrightarrow> fnmatch s p \<longleftrightarrow> s = p"
  by (simp add: fnmatch_def glob_parse_literal glob_match_literal)

lemma fnmatch_star [simp]: "fnmatch s ''*''"
  by (simp add: fnmatch_def glob_star_iff del: glob_match.simps(2,3))

text \<open>\<open>_matches_any\<close> of the scope gate and of the sandbox policy.\<close>

definition matches_any :: "string \<Rightarrow> string list \<Rightarrow> bool" where
  "matches_any path patterns \<longleftrightarrow>
     list_ex (\<lambda>p. fnmatch (norm_slashes path) (norm_slashes p)) patterns"

lemma matches_any_Nil [simp]: "\<not> matches_any path []"
  by (simp add: matches_any_def)

lemma matches_any_iff:
  "matches_any path ps \<longleftrightarrow>
     (\<exists>p \<in> set ps. norm_slashes path \<in> glob_lang (glob_parse (norm_slashes p)))"
  by (simp add: matches_any_def fnmatch_def glob_match_lang list_ex_iff)

lemma matches_any_star [simp]: "''*'' \<in> set ps \<Longrightarrow> matches_any path ps"
  by (force simp: matches_any_def list_ex_iff norm_slashes_def replace_char_def)

end
