(* ===== verification/PyJson.thy ===== *)
theory PyJson
  imports PyStrings
begin

text \<open>
  Dynamic Python values and their JSON form.  Request metadata and command logs are free-form
  dictionaries in the source, so the model carries them as values of a datatype and writes out
  what each Python operation on them does, the exception included.  A float is carried as a
  literal that denotes it; where one is printed it is its \<open>repr\<close>.
\<close>

section \<open>Values\<close>

datatype json =
    JNull
  | JBool bool
  | JInt int
  | JFloat string
  | JStr string
  | JArr "json list"
  | JObj "(string \<times> json) list"

type_synonym jdict = "(string, json) dict"

text \<open>
  A literal denotes zero when its mantissa has digits but none above zero; the ones too small for
  a double are not told apart from the others.
\<close>

definition float_zero :: "string \<Rightarrow> bool" where
  "float_zero r \<longleftrightarrow>
     (let m = takeWhile (\<lambda>c. c \<noteq> CHR ''e'' \<and> c \<noteq> CHR ''E'') r in
      CHR ''0'' \<in> set m \<and> list_all (\<lambda>c. \<not> (49 \<le> (of_char c :: nat) \<and> (of_char c :: nat) \<le> 57)) m)"

fun truthy :: "json \<Rightarrow> bool" where
  "truthy JNull \<longleftrightarrow> False"
| "truthy (JBool b) \<longleftrightarrow> b"
| "truthy (JInt i) \<longleftrightarrow> i \<noteq> 0"
| "truthy (JFloat r) \<longleftrightarrow> \<not> float_zero r"
| "truthy (JStr s) \<longleftrightarrow> s \<noteq> []"
| "truthy (JArr xs) \<longleftrightarrow> xs \<noteq> []"
| "truthy (JObj d) \<longleftrightarrow> d \<noteq> []"

text \<open>\<open>d.get(k, default)\<close> on a dictionary, and the same on a value that may be none.\<close>

definition dget_or :: "jdict \<Rightarrow> string \<Rightarrow> json \<Rightarrow> json" where
  "dget_or d k v = (case map_of d k of None \<Rightarrow> v | Some w \<Rightarrow> w)"

definition dget :: "jdict \<Rightarrow> string \<Rightarrow> json" where
  "dget d k = dget_or d k JNull"

fun jget_or :: "json \<Rightarrow> string \<Rightarrow> json \<Rightarrow> json res" where
  "jget_or (JObj d) k v = Inr (dget_or d k v)"
| "jget_or _ k v = Inl AttributeError"

definition jget :: "json \<Rightarrow> string \<Rightarrow> json res" where
  "jget v k = jget_or v k JNull"

text \<open>\<open>v == 0\<close>, on which booleans and floats compare as numbers.\<close>

fun equals_zero :: "json \<Rightarrow> bool" where
  "equals_zero (JBool b) \<longleftrightarrow> \<not> b"
| "equals_zero (JInt i) \<longleftrightarrow> i = 0"
| "equals_zero (JFloat r) \<longleftrightarrow> float_zero r"
| "equals_zero _ \<longleftrightarrow> False"

text \<open>Iterating over a value: a list's elements, a string's characters, a dictionary's keys.\<close>

fun py_iter :: "json \<Rightarrow> json list res" where
  "py_iter (JArr xs) = Inr xs"
| "py_iter (JStr s) = Inr (map (\<lambda>c. JStr [c]) s)"
| "py_iter (JObj d) = Inr (map (JStr \<circ> fst) d)"
| "py_iter _ = Inl TypeError"

text \<open>Calling a string method on a value that is no string raises.\<close>

fun as_str :: "json \<Rightarrow> string res" where
  "as_str (JStr s) = Inr s"
| "as_str _ = Inl AttributeError"

fun res_map :: "('a \<Rightarrow> 'b res) \<Rightarrow> 'a list \<Rightarrow> 'b list res" where
  "res_map f [] = Inr []"
| "res_map f (x # xs) =
     (case f x of
        Inl e \<Rightarrow> Inl e
      | Inr y \<Rightarrow> (case res_map f xs of Inl e \<Rightarrow> Inl e | Inr ys \<Rightarrow> Inr (y # ys)))"

definition as_strs :: "json list \<Rightarrow> string list res" where
  "as_strs = res_map as_str"

lemma res_map_Inr: "res_map f xs = Inr ys \<longleftrightarrow> list_all2 (\<lambda>x y. f x = Inr y) xs ys"
proof (induction xs arbitrary: ys)
  case Nil
  then show ?case by (cases ys) auto
next
  case (Cons x xs)
  show ?case
  proof (cases ys)
    case Nil
    then show ?thesis by (auto split: sum.splits)
  next
    fix y zs
    assume "ys = y # zs"
    then show ?thesis using Cons [of zs] by (auto split: sum.splits)
  qed
qed

lemma map_JStr_eq [simp]: "map JStr ss = map JStr ts \<longleftrightarrow> ss = ts"
  by (simp add: inj_map_eq_map inj_on_def)

lemma as_strs_map_JStr [simp]: "as_strs (map JStr ss) = Inr ss"
  by (simp add: as_strs_def res_map_Inr list_all2_conv_all_nth)

section \<open>\<open>str\<close> and \<open>repr\<close>\<close>

definition hexlow :: "nat \<Rightarrow> char" where
  "hexlow n = (if n < 10 then digit n else char_of (87 + n))"

definition hex2 :: "nat \<Rightarrow> string" where
  "hex2 n = [hexlow (n div 16 mod 16), hexlow (n mod 16)]"

definition repr_char :: "char \<Rightarrow> char \<Rightarrow> string" where
  "repr_char q c = (let n = (of_char c :: nat) in
     if c = q \<or> c = backslash then [backslash, c]
     else if n = 9 then [backslash, CHR ''t'']
     else if n = 10 then [backslash, CHR ''n'']
     else if n = 13 then [backslash, CHR ''r'']
     else if n < 32 \<or> (127 \<le> n \<and> n \<le> 160) \<or> n = 173 then [backslash, CHR ''x''] @ hex2 n
     else [c])"

definition repr_str :: "string \<Rightarrow> string" where
  "repr_str s =
     (let q = (if CHR 0x27 \<in> set s \<and> CHR 0x22 \<notin> set s then CHR 0x22 else CHR 0x27)
      in [q] @ concat (map (repr_char q) s) @ [q])"

fun py_repr :: "json \<Rightarrow> string" where
  "py_repr JNull = ''None''"
| "py_repr (JBool b) = (if b then ''True'' else ''False'')"
| "py_repr (JInt i) = dec_int i"
| "py_repr (JFloat r) = r"
| "py_repr (JStr s) = repr_str s"
| "py_repr (JArr xs) = ''['' @ py_join '', '' (map py_repr xs) @ '']''"
| "py_repr (JObj d) =
     ''{'' @ py_join '', '' (map (\<lambda>(k, v). repr_str k @ '': '' @ py_repr v) d) @ ''}''"

fun py_str :: "json \<Rightarrow> string" where
  "py_str (JStr s) = s"
| "py_str v = py_repr v"

section \<open>\<open>json.dumps\<close>\<close>

definition json_char :: "char \<Rightarrow> string" where
  "json_char c = (let n = (of_char c :: nat) in
     if n = 34 \<or> c = backslash then [backslash, c]
     else if n = 10 then [backslash, CHR ''n'']
     else if n = 13 then [backslash, CHR ''r'']
     else if n = 9 then [backslash, CHR ''t'']
     else if n = 12 then [backslash, CHR ''f'']
     else if n = 8 then [backslash, CHR ''b'']
     else if n < 32 \<or> 126 < n then [backslash, CHR ''u'', CHR ''0'', CHR ''0''] @ hex2 n
     else [c])"

definition json_quote :: "string \<Rightarrow> string" where
  "json_quote s = [CHR 0x22] @ concat (map json_char s) @ [CHR 0x22]"

definition newline_indent :: "nat \<Rightarrow> string" where
  "newline_indent n = CHR 0x0A # replicate n CHR '' ''"

text \<open>The three floats that are no numbers have names of their own in the output.\<close>

definition float_json :: "string \<Rightarrow> string" where
  "float_json r = (if r = ''inf'' then ''Infinity'' else if r = ''-inf'' then ''-Infinity''
     else if r = ''nan'' then ''NaN'' else r)"

fun dumps_at :: "nat \<Rightarrow> json \<Rightarrow> string" where
  "dumps_at n JNull = ''null''"
| "dumps_at n (JBool b) = (if b then ''true'' else ''false'')"
| "dumps_at n (JInt i) = dec_int i"
| "dumps_at n (JFloat r) = float_json r"
| "dumps_at n (JStr s) = json_quote s"
| "dumps_at n (JArr xs) =
     (if xs = [] then ''[]''
      else ''['' @ newline_indent (n + 2)
           @ py_join ('','' @ newline_indent (n + 2)) (map (dumps_at (n + 2)) xs)
           @ newline_indent n @ '']'')"
| "dumps_at n (JObj d) =
     (if d = [] then ''{}''
      else ''{'' @ newline_indent (n + 2)
           @ py_join ('','' @ newline_indent (n + 2))
               (map (\<lambda>(k, v). json_quote k @ '': '' @ dumps_at (n + 2) v) d)
           @ newline_indent n @ ''}'')"

text \<open>\<open>json.dumps(v, indent=2)\<close>, and \<open>json.dumps(v)\<close> on one line.\<close>

definition json_dumps2 :: "json \<Rightarrow> string" where
  "json_dumps2 v = dumps_at 0 v"

fun json_dumps :: "json \<Rightarrow> string" where
  "json_dumps (JArr xs) = ''['' @ py_join '', '' (map json_dumps xs) @ '']''"
| "json_dumps (JObj d) =
     ''{'' @ py_join '', '' (map (\<lambda>(k, v). json_quote k @ '': '' @ json_dumps v) d) @ ''}''"
| "json_dumps v = dumps_at 0 v"

abbreviation jstrs :: "string list \<Rightarrow> json" where
  "jstrs ss \<equiv> JArr (map JStr ss)"

end
