(* ===== verification/Schemas.thy ===== *)
theory Schemas
  imports PyJson
begin

text \<open>
  The data model: \<open>backend/app/constants.py\<close>, the Pydantic models of
  \<open>backend/app/schemas/\<close> and \<open>TestOutcome\<close> of \<open>gates/test_gate.py\<close>.  Every enum is a
  datatype with the string each member stands for, every model a record with the source's fields
  behind a short prefix (record selectors share one name space), and the defaults the source
  declares are constants.
\<close>

section \<open>Constants and enums\<close>

definition CANONICAL_LOCAL_PROJECT_PATH :: string where
  "CANONICAL_LOCAL_PROJECT_PATH =
     ''C:'' @ [backslash] @ ''Users'' @ [backslash] @ ''Emory Harris'' @ [backslash]
       @ ''projects'' @ [backslash] @ ''agent-analysis''"

definition CANONICAL_GITHUB_REPO_URL :: string where
  "CANONICAL_GITHUB_REPO_URL = ''https://github.com/Lvvphole/Agent-Analysis''"

definition DEFAULT_MAX_AGENT_ATTEMPTS :: int where
  "DEFAULT_MAX_AGENT_ATTEMPTS = 3"

definition DEFAULT_MAX_VERIFIER_FAILURES :: int where
  "DEFAULT_MAX_VERIFIER_FAILURES = 2"

definition DEFAULT_ON_EXHAUSTION :: string where
  "DEFAULT_ON_EXHAUSTION = ''BLOCKED''"

datatype run_type = RT_READ_ONLY_ANALYSIS | RT_IMPLEMENTATION

fun run_type_value :: "run_type \<Rightarrow> string" where
  "run_type_value RT_READ_ONLY_ANALYSIS = ''READ_ONLY_ANALYSIS''"
| "run_type_value RT_IMPLEMENTATION = ''IMPLEMENTATION''"

datatype gate_status = GS_PASS | GS_FAIL | GS_BLOCKED

fun gate_status_value :: "gate_status \<Rightarrow> string" where
  "gate_status_value GS_PASS = ''PASS''"
| "gate_status_value GS_FAIL = ''FAIL''"
| "gate_status_value GS_BLOCKED = ''BLOCKED''"

datatype decision = D_PASS | D_FAIL | D_BLOCKED | D_PENDING

fun decision_value :: "decision \<Rightarrow> string" where
  "decision_value D_PASS = ''PASS''"
| "decision_value D_FAIL = ''FAIL''"
| "decision_value D_BLOCKED = ''BLOCKED''"
| "decision_value D_PENDING = ''PENDING''"

datatype task_type =
    TT_AI_READINESS_AUDIT | TT_IMPLEMENTATION | TT_BUG_FIX | TT_SECURITY_REVIEW
  | TT_DEPENDENCY_UPDATE | TT_DOCUMENTATION_UPDATE | TT_CI_FAILURE_REPAIR | TT_REFACTOR
  | TT_TEST_COVERAGE_EXPANSION

fun task_type_value :: "task_type \<Rightarrow> string" where
  "task_type_value TT_AI_READINESS_AUDIT = ''AI_READINESS_AUDIT''"
| "task_type_value TT_IMPLEMENTATION = ''IMPLEMENTATION''"
| "task_type_value TT_BUG_FIX = ''BUG_FIX''"
| "task_type_value TT_SECURITY_REVIEW = ''SECURITY_REVIEW''"
| "task_type_value TT_DEPENDENCY_UPDATE = ''DEPENDENCY_UPDATE''"
| "task_type_value TT_DOCUMENTATION_UPDATE = ''DOCUMENTATION_UPDATE''"
| "task_type_value TT_CI_FAILURE_REPAIR = ''CI_FAILURE_REPAIR''"
| "task_type_value TT_REFACTOR = ''REFACTOR''"
| "task_type_value TT_TEST_COVERAGE_EXPANSION = ''TEST_COVERAGE_EXPANSION''"

datatype handler_type =
    HT_PURE_CHECK | HT_READ_ONLY_COMMAND | HT_WRITE_COMMAND | HT_AGENT_INVOCATION
  | HT_VERIFIER | HT_PR_ACTION | HT_EVALUATOR

fun handler_type_value :: "handler_type \<Rightarrow> string" where
  "handler_type_value HT_PURE_CHECK = ''PURE_CHECK''"
| "handler_type_value HT_READ_ONLY_COMMAND = ''READ_ONLY_COMMAND''"
| "handler_type_value HT_WRITE_COMMAND = ''WRITE_COMMAND''"
| "handler_type_value HT_AGENT_INVOCATION = ''AGENT_INVOCATION''"
| "handler_type_value HT_VERIFIER = ''VERIFIER''"
| "handler_type_value HT_PR_ACTION = ''PR_ACTION''"
| "handler_type_value HT_EVALUATOR = ''EVALUATOR''"

datatype handler_status = HS_PASS | HS_FAIL | HS_BLOCKED | HS_SKIPPED

fun handler_status_value :: "handler_status \<Rightarrow> string" where
  "handler_status_value HS_PASS = ''PASS''"
| "handler_status_value HS_FAIL = ''FAIL''"
| "handler_status_value HS_BLOCKED = ''BLOCKED''"
| "handler_status_value HS_SKIPPED = ''SKIPPED''"

datatype handler_decision = HD_CONTINUE | HD_SKIP_NOT_APPLICABLE | HD_FAIL | HD_BLOCKED | HD_STOP

fun handler_decision_value :: "handler_decision \<Rightarrow> string" where
  "handler_decision_value HD_CONTINUE = ''CONTINUE''"
| "handler_decision_value HD_SKIP_NOT_APPLICABLE = ''SKIP_NOT_APPLICABLE''"
| "handler_decision_value HD_FAIL = ''FAIL''"
| "handler_decision_value HD_BLOCKED = ''BLOCKED''"
| "handler_decision_value HD_STOP = ''STOP''"

datatype pr_status = PR_GATED | PR_NOT_REQUIRED | PR_NOT_READY | PR_BLOCKED

fun pr_status_value :: "pr_status \<Rightarrow> string" where
  "pr_status_value PR_GATED = ''GATED''"
| "pr_status_value PR_NOT_REQUIRED = ''NOT_REQUIRED''"
| "pr_status_value PR_NOT_READY = ''NOT_READY''"
| "pr_status_value PR_BLOCKED = ''BLOCKED''"

datatype model_role = MR_CODING_AGENT | MR_VERIFIER | MR_EVALUATOR | MR_ANALYST | MR_ROUTER

fun model_role_value :: "model_role \<Rightarrow> string" where
  "model_role_value MR_CODING_AGENT = ''CODING_AGENT''"
| "model_role_value MR_VERIFIER = ''VERIFIER''"
| "model_role_value MR_EVALUATOR = ''EVALUATOR''"
| "model_role_value MR_ANALYST = ''ANALYST''"
| "model_role_value MR_ROUTER = ''ROUTER''"

datatype artifact_type =
    AT_DIFF | AT_TEST | AT_LINT | AT_TYPECHECK | AT_BUILD | AT_VERIFIER_REPORT | AT_PR
  | AT_CHECKPOINT | AT_COMMAND_OUTPUT | AT_SCOPE_CHANGE | AT_ANALYSIS_REPORT | AT_SCRUM_MAPPING
  | AT_STRATEGIC_REVIEW | AT_LLM_INVOCATION

fun artifact_type_value :: "artifact_type \<Rightarrow> string" where
  "artifact_type_value AT_DIFF = ''DIFF''"
| "artifact_type_value AT_TEST = ''TEST''"
| "artifact_type_value AT_LINT = ''LINT''"
| "artifact_type_value AT_TYPECHECK = ''TYPECHECK''"
| "artifact_type_value AT_BUILD = ''BUILD''"
| "artifact_type_value AT_VERIFIER_REPORT = ''VERIFIER_REPORT''"
| "artifact_type_value AT_PR = ''PR''"
| "artifact_type_value AT_CHECKPOINT = ''CHECKPOINT''"
| "artifact_type_value AT_COMMAND_OUTPUT = ''COMMAND_OUTPUT''"
| "artifact_type_value AT_SCOPE_CHANGE = ''SCOPE_CHANGE''"
| "artifact_type_value AT_ANALYSIS_REPORT = ''ANALYSIS_REPORT''"
| "artifact_type_value AT_SCRUM_MAPPING = ''SCRUM_MAPPING''"
| "artifact_type_value AT_STRATEGIC_REVIEW = ''STRATEGIC_REVIEW''"
| "artifact_type_value AT_LLM_INVOCATION = ''LLM_INVOCATION''"

definition artifact_types :: "artifact_type list" where
  "artifact_types =
     [AT_DIFF, AT_TEST, AT_LINT, AT_TYPECHECK, AT_BUILD, AT_VERIFIER_REPORT, AT_PR, AT_CHECKPOINT,
      AT_COMMAND_OUTPUT, AT_SCOPE_CHANGE, AT_ANALYSIS_REPORT, AT_SCRUM_MAPPING,
      AT_STRATEGIC_REVIEW, AT_LLM_INVOCATION]"

text \<open>The literal type a ledger entry declares: which strings it accepts.\<close>

definition artifact_type_of :: "string \<Rightarrow> artifact_type option" where
  "artifact_type_of s = find (\<lambda>t. artifact_type_value t = s) artifact_types"

lemma artifact_type_of_value [simp]: "artifact_type_of (artifact_type_value t) = Some t"
  by (cases t) (simp_all add: artifact_type_of_def artifact_types_def)

datatype ledger_result = LR_PASS | LR_FAIL | LR_BLOCKED | LR_INFO

fun ledger_result_value :: "ledger_result \<Rightarrow> string" where
  "ledger_result_value LR_PASS = ''PASS''"
| "ledger_result_value LR_FAIL = ''FAIL''"
| "ledger_result_value LR_BLOCKED = ''BLOCKED''"
| "ledger_result_value LR_INFO = ''INFO''"

datatype final_status = FS_PASS | FS_FAIL | FS_BLOCKED

fun final_status_value :: "final_status \<Rightarrow> string" where
  "final_status_value FS_PASS = ''PASS''"
| "final_status_value FS_FAIL = ''FAIL''"
| "final_status_value FS_BLOCKED = ''BLOCKED''"

section \<open>Gate results\<close>

record gate_result =
  g_name :: string
  g_status :: gate_status
  g_reasons :: "string list"
  g_required_corrections :: "string list"

definition passed :: "gate_result \<Rightarrow> bool" where
  "passed g \<longleftrightarrow> g_status g = GS_PASS"

definition gate_result_of :: "string \<Rightarrow> string list \<Rightarrow> bool \<Rightarrow> string list \<Rightarrow> gate_result" where
  "gate_result_of name reasons blocked corrections =
     \<lparr>g_name = name,
      g_status = (if reasons \<noteq> [] then (if blocked then GS_BLOCKED else GS_FAIL) else GS_PASS),
      g_reasons = reasons,
      g_required_corrections = corrections\<rparr>"

abbreviation gate_of :: "string \<Rightarrow> string list \<Rightarrow> gate_result" where
  "gate_of name reasons \<equiv> gate_result_of name reasons False []"

lemma passed_gate_result_of [simp]: "passed (gate_result_of n rs b cs) \<longleftrightarrow> rs = []"
  by (simp add: passed_def gate_result_of_def)

lemma gate_result_of_sel [simp]:
  "g_name (gate_result_of n rs b cs) = n"
  "g_reasons (gate_result_of n rs b cs) = rs"
  "g_required_corrections (gate_result_of n rs b cs) = cs"
  by (simp_all add: gate_result_of_def)

text \<open>\<open>model_dump()\<close> of a gate result.\<close>

definition gate_json :: "gate_result \<Rightarrow> json" where
  "gate_json g = JObj
     [(''gate_name'', JStr (g_name g)),
      (''status'', JStr (gate_status_value (g_status g))),
      (''reasons'', jstrs (g_reasons g)),
      (''required_corrections'', jstrs (g_required_corrections g))]"

section \<open>Run contracts\<close>

record rate_limit =
  rl_requests_per_min :: int
  rl_tokens_per_min :: int

definition rate_limit_is_set :: "rate_limit \<Rightarrow> bool" where
  "rate_limit_is_set r \<longleftrightarrow> rl_requests_per_min r > 0 \<or> rl_tokens_per_min r > 0"

record model_spec =
  ms_model_id :: string
  ms_provider :: string
  ms_role :: model_role
  ms_model_run_id :: string
  ms_permissions :: "string list"
  ms_temperature :: string
  ms_top_p :: string
  ms_seed :: int
  ms_prompt_hash :: string
  ms_parallel_tool_calls :: bool
  ms_rate_limit :: rate_limit
  ms_fallback_model_id :: string
  ms_max_retries :: int

record run_manifest =
  m_run_id :: string
  m_goal_id :: string
  m_task_id :: string
  m_sprint_id :: string
  m_product_backlog_item_id :: string
  m_run_type :: run_type
  m_temperature :: string
  m_top_p :: string
  m_seed :: int
  m_model :: string
  m_prompt_hash :: string
  m_schema_mode :: string
  m_tools :: string
  m_parallel_tool_calls :: bool
  m_models :: "model_spec list"
  m_allowed_model_ids :: "string list"
  m_auto_merge :: bool
  m_auto_deploy :: bool
  m_created_at :: string
  m_executor_id :: string
  m_coding_agent_id :: string
  m_coding_agent_run_id :: string
  m_verifier_id :: string
  m_verifier_run_id :: string
  m_definition_of_done_version :: string
  m_allowed_commands :: "string list"
  m_forbidden_commands :: "string list"
  m_files_in_scope :: "string list"
  m_files_out_of_scope :: "string list"
  m_max_agent_attempts :: int
  m_max_verifier_failures :: int
  m_on_exhaustion :: string
  m_local_project_path :: string
  m_github_repo_url :: string

definition default_manifest :: "run_type \<Rightarrow> run_manifest" where
  "default_manifest t =
     \<lparr>m_run_id = [], m_goal_id = [], m_task_id = [], m_sprint_id = [],
      m_product_backlog_item_id = [], m_run_type = t, m_temperature = ''0'', m_top_p = ''1'',
      m_seed = 23, m_model = [], m_prompt_hash = [], m_schema_mode = ''strict'',
      m_tools = ''allowlisted'', m_parallel_tool_calls = False, m_models = [],
      m_allowed_model_ids = [], m_auto_merge = False, m_auto_deploy = False, m_created_at = [],
      m_executor_id = [], m_coding_agent_id = [], m_coding_agent_run_id = [], m_verifier_id = [],
      m_verifier_run_id = [], m_definition_of_done_version = [], m_allowed_commands = [],
      m_forbidden_commands = [], m_files_in_scope = [], m_files_out_of_scope = [],
      m_max_agent_attempts = DEFAULT_MAX_AGENT_ATTEMPTS,
      m_max_verifier_failures = DEFAULT_MAX_VERIFIER_FAILURES,
      m_on_exhaustion = DEFAULT_ON_EXHAUSTION,
      m_local_project_path = CANONICAL_LOCAL_PROJECT_PATH,
      m_github_repo_url = CANONICAL_GITHUB_REPO_URL\<rparr>"

record scrum_mapping =
  s_product_backlog_item_id :: string
  s_product_backlog_item_title :: string
  s_sprint_id :: string
  s_sprint_goal :: string
  s_sprint_backlog_task_id :: string
  s_acceptance_criteria :: "string list"
  s_definition_of_done_version :: string
  s_increment_candidate :: bool
  s_supports_sprint_goal :: bool

record complexity_risks =
  cr_change_amplification :: string
  cr_cognitive_load :: string
  cr_unknown_unknowns :: string

record design_option =
  do_option_id :: string
  do_summary :: string
  do_tradeoffs :: string
  do_rejected_or_selected :: string

record strategic_programming =
  sp_responsibility_owner :: string
  sp_complexity_risks :: complexity_risks
  sp_design_options :: "design_option list"
  sp_selected_design :: string
  sp_interface_contract :: string
  sp_complexity_hidden_where :: string
  sp_errors_designed_out :: "string list"
  sp_known_design_debt :: "string list"
  sp_introduces_shallow_passthrough :: bool
  sp_complexity_leaks_into_callers :: bool
  sp_error_handling_scattered :: bool
  sp_invalid_states_unhandled :: bool
  sp_unjustified_duplication :: bool
  sp_increases_change_amplification :: bool
  sp_works_but_harder_to_change :: bool

text \<open>\<open>StrategicProgramming()\<close>: every field at its default.\<close>

definition default_strategic :: strategic_programming where
  "default_strategic =
     \<lparr>sp_responsibility_owner = [],
      sp_complexity_risks =
        \<lparr>cr_change_amplification = [], cr_cognitive_load = [], cr_unknown_unknowns = []\<rparr>,
      sp_design_options = [], sp_selected_design = [], sp_interface_contract = [],
      sp_complexity_hidden_where = [], sp_errors_designed_out = [], sp_known_design_debt = [],
      sp_introduces_shallow_passthrough = False, sp_complexity_leaks_into_callers = False,
      sp_error_handling_scattered = False, sp_invalid_states_unhandled = False,
      sp_unjustified_duplication = False, sp_increases_change_amplification = False,
      sp_works_but_harder_to_change = False\<rparr>"

section \<open>Evidence\<close>

record artifact =
  a_artifact_id :: string
  a_run_id :: string
  a_task_id :: string
  a_artifact_type :: string
  a_path :: string
  a_hash :: string
  a_attempt_id :: "string option"
  a_created_at :: string
  a_recorded_by :: string

record ledger_entry =
  e_entry_id :: string
  e_timestamp :: string
  e_artifact_type :: artifact_type
  e_artifact_path :: string
  e_command :: string
  e_result :: ledger_result
  e_hash :: string
  e_recorded_by :: string

record evidence_ledger =
  l_task_id :: string
  l_run_id :: string
  l_entries :: "ledger_entry list"
  l_final_status :: decision
  l_auto_merge :: bool
  l_auto_deploy :: bool
  l_agent_self_certification_used :: bool

definition new_ledger :: "string \<Rightarrow> string \<Rightarrow> evidence_ledger" where
  "new_ledger task_id run_id =
     \<lparr>l_task_id = task_id, l_run_id = run_id, l_entries = [], l_final_status = D_PENDING,
      l_auto_merge = False, l_auto_deploy = False, l_agent_self_certification_used = False\<rparr>"

record checkpoint =
  k_run_id :: string
  k_task_id :: string
  k_goal_id :: string
  k_sprint_id :: string
  k_product_backlog_item_id :: string
  k_state :: string
  k_previous_state :: string
  k_next_state :: string
  k_branch :: string
  k_commit_hash :: string
  k_diff_path :: string
  k_test_output_path :: string
  k_verifier_report_path :: string
  k_evidence_ledger_path :: string
  k_evaluation_report_path :: string
  k_pr_url :: string
  k_auto_merge :: bool
  k_auto_deploy :: bool
  k_agent_self_certified :: bool
  k_executor_id :: string
  k_coding_agent_id :: string
  k_coding_agent_run_id :: string
  k_verifier_id :: string
  k_verifier_run_id :: string
  k_verifier_decision :: decision
  k_agent_attempt_count :: int
  k_verifier_failure_count :: int
  k_gate_results :: "gate_result list"
  k_next_action :: string
  k_local_project_path :: string
  k_github_repo_url :: string
  k_created_at :: string
  k_updated_at :: string

definition new_checkpoint :: "string \<Rightarrow> string \<Rightarrow> checkpoint" where
  "new_checkpoint run_id state =
     \<lparr>k_run_id = run_id, k_task_id = [], k_goal_id = [], k_sprint_id = [],
      k_product_backlog_item_id = [], k_state = state, k_previous_state = [], k_next_state = [],
      k_branch = [], k_commit_hash = [], k_diff_path = [], k_test_output_path = [],
      k_verifier_report_path = [], k_evidence_ledger_path = [], k_evaluation_report_path = [],
      k_pr_url = [], k_auto_merge = False, k_auto_deploy = False, k_agent_self_certified = False,
      k_executor_id = [], k_coding_agent_id = [], k_coding_agent_run_id = [], k_verifier_id = [],
      k_verifier_run_id = [], k_verifier_decision = D_PENDING, k_agent_attempt_count = 0,
      k_verifier_failure_count = 0, k_gate_results = [], k_next_action = [],
      k_local_project_path = CANONICAL_LOCAL_PROJECT_PATH,
      k_github_repo_url = CANONICAL_GITHUB_REPO_URL, k_created_at = [], k_updated_at = []\<rparr>"

record test_outcome =
  t_command :: string
  t_ran :: bool
  t_exit_code :: "int option"
  t_output_path :: string
  t_truncated :: bool
  t_skipped :: bool
  t_skip_approved :: bool

record backlog_finding =
  f_finding_id :: string
  f_run_id :: string
  f_title :: string
  f_description :: string
  f_severity :: string
  f_category :: string
  f_evidence_artifact_paths :: "string list"
  f_recommended_action :: string

record backlog_item =
  bi_item_id :: string
  bi_source_finding_id :: string
  bi_title :: string
  bi_description :: string
  bi_acceptance_criteria :: "string list"
  bi_sprint_id :: string
  bi_definition_of_done_version :: string
  bi_estimate :: string
  bi_status :: string

definition new_backlog_item :: "string \<Rightarrow> string \<Rightarrow> backlog_item" where
  "new_backlog_item item_id title =
     \<lparr>bi_item_id = item_id, bi_source_finding_id = [], bi_title = title, bi_description = [],
      bi_acceptance_criteria = [], bi_sprint_id = [], bi_definition_of_done_version = [],
      bi_estimate = [], bi_status = ''DRAFT''\<rparr>"

section \<open>Chain requests and results\<close>

record scrum_envelope =
  se_product_backlog_item_id :: string
  se_sprint_goal :: string
  se_sprint_backlog_task_id :: string
  se_definition_of_done_version :: string
  se_acceptance_criteria :: "string list"

record scope_envelope =
  sc_files_in_scope :: "string list"
  sc_files_out_of_scope :: "string list"

record hard_rules =
  hr_auto_merge :: bool
  hr_auto_deploy :: bool
  hr_parallel_tool_calls :: bool
  hr_agent_self_certification_allowed :: bool

record chain_request =
  q_run_id :: string
  q_task_id :: string
  q_task_type :: task_type
  q_mode :: run_type
  q_state :: string
  q_repo_path :: string
  q_github_repo_url :: string
  q_scrum :: scrum_envelope
  q_scope :: scope_envelope
  q_hard_rules :: hard_rules
  q_artifacts :: "string list"
  q_evidence_refs :: "string list"
  q_metadata :: jdict

definition default_request :: "task_type \<Rightarrow> run_type \<Rightarrow> chain_request" where
  "default_request t m =
     \<lparr>q_run_id = [], q_task_id = [], q_task_type = t, q_mode = m, q_state = [],
      q_repo_path = CANONICAL_LOCAL_PROJECT_PATH, q_github_repo_url = CANONICAL_GITHUB_REPO_URL,
      q_scrum = \<lparr>se_product_backlog_item_id = [], se_sprint_goal = [],
        se_sprint_backlog_task_id = [], se_definition_of_done_version = [],
        se_acceptance_criteria = []\<rparr>,
      q_scope = \<lparr>sc_files_in_scope = [], sc_files_out_of_scope = []\<rparr>,
      q_hard_rules = \<lparr>hr_auto_merge = False, hr_auto_deploy = False,
        hr_parallel_tool_calls = False, hr_agent_self_certification_allowed = False\<rparr>,
      q_artifacts = [], q_evidence_refs = [], q_metadata = []\<rparr>"

definition canonical_violations :: "chain_request \<Rightarrow> string list" where
  "canonical_violations q =
     (if q_repo_path q \<noteq> CANONICAL_LOCAL_PROJECT_PATH
      then [''repo_path must equal '' @ CANONICAL_LOCAL_PROJECT_PATH] else [])
   @ (if q_github_repo_url q \<noteq> CANONICAL_GITHUB_REPO_URL
      then [''github_repo_url must equal '' @ CANONICAL_GITHUB_REPO_URL] else [])
   @ (if hr_auto_merge (q_hard_rules q) then [''auto_merge must be false''] else [])
   @ (if hr_auto_deploy (q_hard_rules q) then [''auto_deploy must be false''] else [])
   @ (if hr_parallel_tool_calls (q_hard_rules q) then [''parallel_tool_calls must be false''] else [])
   @ (if hr_agent_self_certification_allowed (q_hard_rules q)
      then [''agent_self_certification_allowed must be false''] else [])"

record handler_result =
  h_handler_name :: string
  h_handler_type :: handler_type
  h_status :: handler_status
  h_decision :: handler_decision
  h_artifacts_created :: "string list"
  h_gate_results :: "gate_result list"
  h_failure_reasons :: "string list"
  h_required_corrections :: "string list"
  h_metadata :: jdict

text \<open>
  The evaluation score is a Python float rounded to four decimals: the model keeps the number
  of ten-thousandths it is nearest to.
\<close>

record chain_result =
  r_run_id :: string
  r_task_id :: string
  r_task_type :: string
  r_chain_id :: string
  r_mode :: run_type
  r_handler_results :: "handler_result list"
  r_final_status :: final_status
  r_verifier_decision :: decision
  r_eval_score :: "nat option"
  r_pr_status :: pr_status
  r_agent_self_certification_used :: bool
  r_auto_merge :: bool
  r_auto_deploy :: bool
  r_evidence_artifacts :: "artifact list"

lemma canonical_violations_Nil:
  "canonical_violations q = [] \<longleftrightarrow>
     q_repo_path q = CANONICAL_LOCAL_PROJECT_PATH
   \<and> q_github_repo_url q = CANONICAL_GITHUB_REPO_URL
   \<and> \<not> hr_auto_merge (q_hard_rules q) \<and> \<not> hr_auto_deploy (q_hard_rules q)
   \<and> \<not> hr_parallel_tool_calls (q_hard_rules q)
   \<and> \<not> hr_agent_self_certification_allowed (q_hard_rules q)"
  by (simp add: canonical_violations_def)

end
