(* ===== verification/Hashing.thy ===== *)
theory Hashing
  imports PyStrings "HOL-Library.Word"
begin

text \<open>
  \<open>backend/app/storage/hashing.py\<close>.  The source calls the standard library's SHA-256; the
  digest is modelled in full (32-bit words, wrap-around addition, the streaming state with its
  64-byte buffer), so that the chunked \<open>hash_file\<close> and the one-shot \<open>hash_bytes\<close>
  can be compared and test vectors evaluated.  Bytes are characters: a byte string is a
  \<^typ>\<open>string\<close> whose characters are read as numbers below 256.
\<close>

unbundle bit_operations_syntax

section \<open>SHA-256\<close>

type_synonym w32 = "32 word"
type_synonym sha_regs = "w32 list"

definition sha_K :: "w32 list" where
  "sha_K =
   [1116352408, 1899447441, 3049323471, 3921009573, 961987163, 1508970993, 2453635748, 2870763221,
    3624381080, 310598401, 607225278, 1426881987, 1925078388, 2162078206, 2614888103, 3248222580,
    3835390401, 4022224774, 264347078, 604807628, 770255983, 1249150122, 1555081692, 1996064986,
    2554220882, 2821834349, 2952996808, 3210313671, 3336571891, 3584528711, 113926993, 338241895,
    666307205, 773529912, 1294757372, 1396182291, 1695183700, 1986661051, 2177026350, 2456956037,
    2730485921, 2820302411, 3259730800, 3345764771, 3516065817, 3600352804, 4094571909, 275423344,
    430227734, 506948616, 659060556, 883997877, 958139571, 1322822218, 1537002063, 1747873779,
    1955562222, 2024104815, 2227730452, 2361852424, 2428436474, 2756734187, 3204031479, 3329325298]"

definition sha_init_regs :: sha_regs where
  "sha_init_regs =
   [1779033703, 3144134277, 1013904242, 2773480762,
    1359893119, 2600822924, 528734635, 1541459225]"

text \<open>
  The tables are the first 32 bits of the fractional parts of the cube roots of the first 64 primes
  and of the square roots of the first eight.
\<close>

definition first_primes :: "nat list" where
  "first_primes =
   [2, 3, 5, 7, 11, 13, 17, 19, 23, 29, 31, 37, 41, 43, 47, 53,
    59, 61, 67, 71, 73, 79, 83, 89, 97, 101, 103, 107, 109, 113, 127, 131,
    137, 139, 149, 151, 157, 163, 167, 173, 179, 181, 191, 193, 197, 199, 211, 223,
    227, 229, 233, 239, 241, 251, 257, 263, 269, 271, 277, 281, 283, 293, 307, 311]"

definition root_bits :: "nat \<Rightarrow> nat \<Rightarrow> nat \<Rightarrow> w32 \<Rightarrow> bool" where
  "root_bits e p a k \<longleftrightarrow>
     (let r = a * 2 ^ 32 + unat k in r ^ e \<le> p * 2 ^ (32 * e) \<and> p * 2 ^ (32 * e) < (r + 1) ^ e)"

lemma sha_K_roots:
  "list_all (\<lambda>(p, a, k). root_bits 3 p a k) (zip first_primes (zip
     [1, 1, 1, 1, 2, 2, 2, 2, 2, 3, 3, 3, 3, 3, 3, 3, 3, 3, 4, 4, 4, 4, 4, 4, 4, 4, 4, 4, 4, 4, 5, 5,
      5, 5, 5, 5, 5, 5, 5, 5, 5, 5, 5, 5, 5, 5, 5, 6, 6, 6, 6, 6, 6, 6, 6, 6, 6, 6, 6, 6, 6, 6, 6, 6] sha_K))"
  by (simp add: first_primes_def sha_K_def root_bits_def)

lemma sha_init_roots:
  "list_all (\<lambda>(p, a, k). root_bits 2 p a k)
     (zip first_primes (zip [1, 1, 2, 2, 3, 3, 4, 4] sha_init_regs))"
  by (simp add: first_primes_def sha_init_regs_def root_bits_def)

definition rotr32 :: "nat \<Rightarrow> w32 \<Rightarrow> w32" where
  "rotr32 n x = drop_bit n x OR push_bit (32 - n) x"

definition small_sigma0 :: "w32 \<Rightarrow> w32" where
  "small_sigma0 x = rotr32 7 x XOR rotr32 18 x XOR drop_bit 3 x"

definition small_sigma1 :: "w32 \<Rightarrow> w32" where
  "small_sigma1 x = rotr32 17 x XOR rotr32 19 x XOR drop_bit 10 x"

definition big_sigma0 :: "w32 \<Rightarrow> w32" where
  "big_sigma0 x = rotr32 2 x XOR rotr32 13 x XOR rotr32 22 x"

definition big_sigma1 :: "w32 \<Rightarrow> w32" where
  "big_sigma1 x = rotr32 6 x XOR rotr32 11 x XOR rotr32 25 x"

definition sha_ch :: "w32 \<Rightarrow> w32 \<Rightarrow> w32 \<Rightarrow> w32" where
  "sha_ch x y z = (x AND y) XOR (NOT x AND z)"

definition sha_maj :: "w32 \<Rightarrow> w32 \<Rightarrow> w32 \<Rightarrow> w32" where
  "sha_maj x y z = (x AND y) XOR (x AND z) XOR (y AND z)"

definition be_word :: "char \<Rightarrow> char \<Rightarrow> char \<Rightarrow> char \<Rightarrow> w32" where
  "be_word a b c d =
     word_of_int (((of_char a * 256 + of_char b) * 256 + of_char c) * 256 + of_char d)"

fun be_words :: "string \<Rightarrow> w32 list" where
  "be_words (a # b # c # d # s) = be_word a b c d # be_words s"
| "be_words _ = []"

text \<open>The message schedule, last word first.\<close>

fun sha_schedule :: "nat \<Rightarrow> w32 list \<Rightarrow> w32 list" where
  "sha_schedule 0 ws = ws"
| "sha_schedule (Suc n) ws =
     sha_schedule n ((small_sigma1 (ws ! 1) + ws ! 6 + small_sigma0 (ws ! 14) + ws ! 15) # ws)"

fun sha_round :: "sha_regs \<Rightarrow> w32 \<times> w32 \<Rightarrow> sha_regs" where
  "sha_round [a, b, c, d, e, f, g, h] (k, w) =
     (let t1 = h + big_sigma1 e + sha_ch e f g + k + w;
          t2 = big_sigma0 a + sha_maj a b c
      in [t1 + t2, a, b, c, d + t1, e, f, g])"
| "sha_round r _ = r"

definition sha_compress :: "sha_regs \<Rightarrow> string \<Rightarrow> sha_regs" where
  "sha_compress r block =
     (let ws = rev (sha_schedule 48 (rev (be_words block)))
      in map2 (+) r (foldl sha_round r (zip sha_K ws)))"

text \<open>The streaming object of \<open>hashlib\<close>: registers, pending bytes, bytes seen.\<close>

record sha =
  sha_regs :: sha_regs
  sha_buf :: string
  sha_len :: nat

definition sha_new :: sha where
  "sha_new = \<lparr>sha_regs = sha_init_regs, sha_buf = [], sha_len = 0\<rparr>"

function sha_feed :: "sha_regs \<Rightarrow> string \<Rightarrow> sha_regs \<times> string" where
  "sha_feed r buf =
     (if length buf < 64 then (r, buf) else sha_feed (sha_compress r (take 64 buf)) (drop 64 buf))"
  by pat_completeness auto
termination
  by (relation "measure (\<lambda>(r, buf). length buf)") auto

declare sha_feed.simps [simp del]

definition sha_update :: "sha \<Rightarrow> string \<Rightarrow> sha" where
  "sha_update s d =
     (let (r, b) = sha_feed (sha_regs s) (sha_buf s @ d)
      in \<lparr>sha_regs = r, sha_buf = b, sha_len = sha_len s + length d\<rparr>)"

definition be_bytes :: "nat \<Rightarrow> int \<Rightarrow> string" where
  "be_bytes k n = map (\<lambda>i. char_of (n div 256 ^ i mod 256)) (rev [0..<k])"

definition sha_pad :: "nat \<Rightarrow> nat \<Rightarrow> string" where
  "sha_pad pending len =
     CHR 0x80 # replicate ((119 - pending) mod 64) CHR 0x00 @ be_bytes 8 (8 * int len)"

definition hex_digit :: "int \<Rightarrow> char" where
  "hex_digit n = char_of (if n < 10 then 48 + n else 87 + n)"

definition hex32 :: "w32 \<Rightarrow> string" where
  "hex32 w = map (\<lambda>i. hex_digit (uint w div 16 ^ i mod 16)) (rev [0..<8])"

definition sha_hexdigest :: "sha \<Rightarrow> string" where
  "sha_hexdigest s =
     concat (map hex32 (fst (sha_feed (sha_regs s)
       (sha_buf s @ sha_pad (length (sha_buf s)) (sha_len s)))))"

section \<open>The helpers of the source\<close>

definition CHUNK :: nat where
  "CHUNK = 1024 * 1024"

definition hash_bytes :: "string \<Rightarrow> string" where
  "hash_bytes data = sha_hexdigest (sha_update sha_new data)"

definition utf8_char :: "char \<Rightarrow> string" where
  "utf8_char c = (let n = (of_char c :: nat) in
     if n < 128 then [c] else [char_of (192 + n div 64), char_of (128 + n mod 64)])"

definition utf8 :: "string \<Rightarrow> string" where
  "utf8 s = concat (map utf8_char s)"

definition hash_text :: "string \<Rightarrow> string" where
  "hash_text t = hash_bytes (utf8 t)"

text \<open>
  \<open>iter(lambda: fh.read(n), b"")\<close>: the chunks the file is read in, up to the first empty
  read.
\<close>

function read_chunks :: "nat \<Rightarrow> string \<Rightarrow> string list" where
  "read_chunks n s = (if take n s = [] then [] else take n s # read_chunks n (drop n s))"
  by pat_completeness auto
termination
  by (relation "measure (\<lambda>(n, s). length s)") auto

declare read_chunks.simps [simp del]

definition hash_file :: "string \<Rightarrow> string" where
  "hash_file content = sha_hexdigest (foldl sha_update sha_new (read_chunks CHUNK content))"

section \<open>Streaming equals hashing at once\<close>

lemma sha_feed_append:
  "sha_feed r (x @ y) = (let (r', b) = sha_feed r x in sha_feed r' (b @ y))"
proof (induction r x rule: sha_feed.induct)
  case (1 r buf)
  show ?case
  proof (cases "length buf < 64")
    case True
    then show ?thesis by (simp add: sha_feed.simps [of r buf])
  next
    case False
    then have "sha_feed r (buf @ y) = sha_feed (sha_compress r (take 64 buf)) (drop 64 buf @ y)"
      by (simp add: sha_feed.simps [of r "buf @ y"])
    also have "\<dots> = (let (r', b) = sha_feed (sha_compress r (take 64 buf)) (drop 64 buf)
        in sha_feed r' (b @ y))"
      using False by (rule 1)
    finally show ?thesis using False by (simp add: sha_feed.simps [of r buf])
  qed
qed

lemma sha_update_append: "sha_update (sha_update s x) y = sha_update s (x @ y)"
  by (simp add: sha_update_def sha_feed_append [of _ "sha_buf s @ x" y, simplified] Let_def
      split: prod.splits)

lemma sha_feed_short: "length b < 64 \<Longrightarrow> sha_feed r b = (r, b)"
  by (simp add: sha_feed.simps [of r b])

lemma sha_update_Nil: "length (sha_buf s) < 64 \<Longrightarrow> sha_update s [] = s"
  by (simp add: sha_update_def sha_feed_short)

lemma sha_update_all: "length (sha_buf s) < 64 \<Longrightarrow> foldl sha_update s cs = sha_update s (concat cs)"
proof (induction cs rule: rev_induct)
  case Nil
  then show ?case by (simp add: sha_update_Nil)
next
  case (snoc c cs)
  then show ?case by (simp add: sha_update_append)
qed

lemma concat_read_chunks: "0 < n \<Longrightarrow> concat (read_chunks n s) = s"
proof (induction n s rule: read_chunks.induct)
  case (1 n s)
  show ?case
  proof (cases "take n s = []")
    case True
    with 1 show ?thesis by (subst read_chunks.simps) auto
  next
    case False
    with 1 have "concat (read_chunks n (drop n s)) = drop n s" by blast
    with False show ?thesis by (simp add: read_chunks.simps [of n s])
  qed
qed

lemma hash_file_eq: "hash_file content = hash_bytes content"
  by (simp add: hash_file_def hash_bytes_def sha_update_all concat_read_chunks sha_new_def CHUNK_def)

section \<open>The shape of a digest\<close>

lemma length_sha_round: "length r = 8 \<Longrightarrow> length (sha_round r p) = 8"
  by (induction r p rule: sha_round.induct) (auto simp: Let_def)

lemma length_foldl_round: "length r = 8 \<Longrightarrow> length (foldl sha_round r ps) = 8"
  by (induction ps arbitrary: r) (auto simp: length_sha_round)

lemma length_sha_compress: "length r = 8 \<Longrightarrow> length (sha_compress r b) = 8"
  by (simp add: sha_compress_def Let_def length_foldl_round)

lemma length_sha_feed: "length r = 8 \<Longrightarrow> length (fst (sha_feed r buf)) = 8"
proof (induction r buf rule: sha_feed.induct)
  case (1 r buf)
  then show ?case
    by (cases "length buf < 64") (simp_all add: sha_feed.simps [of r buf] length_sha_compress)
qed

lemma length_hex32 [simp]: "length (hex32 w) = 8"
  by (simp add: hex32_def)

lemma length_concat_hex32: "length (concat (map hex32 ws)) = 8 * length ws"
  by (induction ws) simp_all

lemma length_hexdigest: "length (sha_regs s) = 8 \<Longrightarrow> length (sha_hexdigest s) = 64"
  by (simp add: sha_hexdigest_def length_concat_hex32 length_sha_feed)

lemma length_update: "length (sha_regs s) = 8 \<Longrightarrow> length (sha_regs (sha_update s d)) = 8"
  using length_sha_feed [of "sha_regs s" "sha_buf s @ d"]
  by (cases "sha_feed (sha_regs s) (sha_buf s @ d)") (simp add: sha_update_def)

lemma length_hash_bytes [simp]: "length (hash_bytes d) = 64"
  by (simp add: hash_bytes_def length_hexdigest length_update sha_new_def sha_init_regs_def)

lemma hash_bytes_not_Nil [simp]: "hash_bytes d \<noteq> []"
  using length_hash_bytes [of d] by (metis list.size(3) zero_neq_numeral)

definition hex_chars :: string where
  "hex_chars = ''0123456789abcdef''"

lemma hex_digit_all: "list_all (\<lambda>n. hex_digit n \<in> set hex_chars) [0..15]"
  by code_simp

lemma hex_digit_set: "0 \<le> n \<Longrightarrow> n < 16 \<Longrightarrow> hex_digit n \<in> set hex_chars"
  using hex_digit_all by (auto simp: list_all_iff)

lemma hash_bytes_hex: "set (hash_bytes d) \<subseteq> set hex_chars"
  by (auto simp: hash_bytes_def sha_hexdigest_def hex32_def intro!: hex_digit_set)

section \<open>Files\<close>

text \<open>
  Hashing a file in chunks gives the digest of its bytes at once, in 64 lower-case
  hexadecimal digits.
\<close>

lemma hash_file_is_hash_bytes:
  "hash_file content = hash_bytes content
   \<and> length (hash_bytes content) = 64 \<and> set (hash_bytes content) \<subseteq> set ''0123456789abcdef''"
  using hash_bytes_hex [of content] by (simp add: hash_file_eq length_hash_bytes hex_chars_def)

end
