(* ===== verification/Storage.thy ===== *)
theory Storage
  imports Schemas Hashing
begin

text \<open>
  The file system as the program sees it and the storage modules over it:
  \<open>storage/artifact_store.py\<close>, \<open>storage/evidence_writer.py\<close> and
  \<open>storage/checkpoint_writer.py\<close>.  The world holds the files, the known directories, the
  working directory and the number of times the clock was read; the clock itself is a
  parameter \<open>now\<close>.  Path arithmetic is \<open>pathlib\<close>'s on a POSIX system; a location is a path
  with \<open>..\<close> resolved against its parents, that is, without symbolic links.  Writes succeed:
  a full disk or a missing permission is not modelled.
\<close>

section \<open>Paths\<close>

record ppath =
  p_slashes :: nat
  p_parts :: "string list"

text \<open>\<open>Path(s)\<close>: exactly two leading slashes are a root of their own.\<close>

definition parse_path :: "string \<Rightarrow> ppath" where
  "parse_path s =
     \<lparr>p_slashes =
        (if \<not> starts_with ''/'' s then 0
         else if starts_with ''//'' s \<and> \<not> starts_with ''///'' s then 2 else 1),
      p_parts = filter (\<lambda>x. x \<noteq> [] \<and> x \<noteq> ''.'') (split_on CHR ''/'' s)\<rparr>"

text \<open>\<open>p / s\<close>: an absolute operand replaces what stands before it.\<close>

definition pjoin :: "ppath \<Rightarrow> string \<Rightarrow> ppath" where
  "pjoin p s =
     (let q = parse_path s in
      if p_slashes q > 0 then q else p\<lparr>p_parts := p_parts p @ p_parts q\<rparr>)"

definition str_path :: "ppath \<Rightarrow> string" where
  "str_path p =
     (if p_slashes p = 0 \<and> p_parts p = [] then ''.''
      else replicate (p_slashes p) CHR ''/'' @ py_join ''/'' (p_parts p))"

definition segment :: "string \<Rightarrow> bool" where
  "segment n \<longleftrightarrow> n \<noteq> [] \<and> n \<noteq> ''.'' \<and> n \<noteq> ''..'' \<and> CHR ''/'' \<notin> set n"

lemma split_on_none: "d \<notin> set s \<Longrightarrow> split_on d s = [s]"
  by (induction s) auto

lemma parse_segment: "segment n \<Longrightarrow> parse_path n = \<lparr>p_slashes = 0, p_parts = [n]\<rparr>"
  by (cases n) (auto simp: parse_path_def segment_def split_on_none starts_with_def)

lemma pjoin_segment: "segment n \<Longrightarrow> pjoin p n = p\<lparr>p_parts := p_parts p @ [n]\<rparr>"
  by (simp add: pjoin_def parse_segment)

lemma py_join_snoc: "xs \<noteq> [] \<Longrightarrow> py_join sep (xs @ [x]) = py_join sep xs @ sep @ x"
  by (induction sep xs rule: py_join.induct) (auto simp: neq_Nil_conv)

lemma str_path_snoc:
  "str_path (p\<lparr>p_parts := p_parts p @ [n]\<rparr>) =
     (if p_parts p = [] then replicate (p_slashes p) CHR ''/'' @ n else str_path p @ ''/'' @ n)"
  by (simp add: str_path_def py_join_snoc)

lemma basename_str_path: "segment n \<Longrightarrow> plain_name n \<Longrightarrow> basename (str_path (pjoin p n)) = n"
proof (cases "p_slashes p")
  case (Suc k)
  have "replicate (Suc k) CHR ''/'' @ n = replicate k CHR ''/'' @ ''/'' @ n"
    by (simp add: replicate_app_Cons_same)
  moreover assume "segment n" "plain_name n"
  ultimately show ?thesis using basename_join [of n] Suc by (simp add: pjoin_segment str_path_snoc del: replicate.simps)
qed (use basename_join [of n] basename_plain [of n] in \<open>simp add: pjoin_segment str_path_snoc\<close>)

section \<open>The world\<close>

record world =
  w_files :: "(string list, string) dict"
  w_dirs :: "string list list"
  w_cwd :: "string list"
  w_tick :: nat

fun collapse :: "string list \<Rightarrow> string list \<Rightarrow> string list" where
  "collapse acc [] = rev acc"
| "collapse acc (x # xs) = (if x = ''..'' then collapse (tl acc) xs else collapse (x # acc) xs)"

definition locate :: "world \<Rightarrow> ppath \<Rightarrow> string list" where
  "locate w p = collapse [] (if p_slashes p = 0 then w_cwd w @ p_parts p else p_parts p)"

definition file_at :: "world \<Rightarrow> string list \<Rightarrow> string option" where
  "file_at w l = map_of (w_files w) l"

definition is_file :: "world \<Rightarrow> ppath \<Rightarrow> bool" where
  "is_file w p \<longleftrightarrow> file_at w (locate w p) \<noteq> None"

text \<open>A directory is there when it was made or holds something; the root always is.\<close>

definition dir_at :: "world \<Rightarrow> string list \<Rightarrow> bool" where
  "dir_at w l \<longleftrightarrow> l = [] \<or> l \<in> set (w_dirs w)
     \<or> list_ex (\<lambda>m. strict_prefix l m) (map fst (w_files w) @ w_dirs w)"

definition is_dir :: "world \<Rightarrow> ppath \<Rightarrow> bool" where
  "is_dir w p \<longleftrightarrow> dir_at w (locate w p)"

definition path_exists :: "world \<Rightarrow> ppath \<Rightarrow> bool" where
  "path_exists w p \<longleftrightarrow> is_file w p \<or> is_dir w p"

text \<open>\<open>mkdir(parents=True, exist_ok=True)\<close>: the directory and what is missing above it, from the root down.\<close>

definition make_dirs :: "ppath \<Rightarrow> world \<Rightarrow> world" where
  "make_dirs p w =
     w\<lparr>w_dirs := w_dirs w @ filter (\<lambda>m. m \<noteq> [] \<and> m \<notin> set (w_dirs w)) (prefixes (locate w p))\<rparr>"

definition write_file :: "ppath \<Rightarrow> string \<Rightarrow> world \<Rightarrow> world" where
  "write_file p bytes w = w\<lparr>w_files := dict_set (locate w p) bytes (w_files w)\<rparr>"

definition read_clock :: "(nat \<Rightarrow> string) \<Rightarrow> (world, string) comp" where
  "read_clock now = (\<lambda>w. (Inr (now (w_tick w)), w\<lparr>w_tick := Suc (w_tick w)\<rparr>))"

lemma locate_make_dirs [simp]: "locate (make_dirs p w) q = locate w q"
  by (simp add: locate_def make_dirs_def)

lemma locate_write_file [simp]: "locate (write_file p b w) q = locate w q"
  by (simp add: locate_def write_file_def)

lemma locate_tick [simp]: "locate (w\<lparr>w_tick := t\<rparr>) q = locate w q"
  by (simp add: locate_def)

lemma file_at_make_dirs [simp]: "file_at (make_dirs p w) l = file_at w l"
  by (simp add: file_at_def make_dirs_def)

lemma file_at_tick [simp]: "file_at (w\<lparr>w_tick := t\<rparr>) l = file_at w l"
  by (simp add: file_at_def)

lemma file_at_write_file [simp]:
  "file_at (write_file p b w) l = (if l = locate w p then Some b else file_at w l)"
  by (simp add: file_at_def write_file_def)

section \<open>Stores with keys\<close>

text \<open>
  What a store of values under keys promises its clients.  The artifact store and the run
  repository are both used through it.
\<close>

locale kv_store =
  fixes put :: "'k \<Rightarrow> 'v \<Rightarrow> 's \<Rightarrow> 's"
    and get :: "'s \<Rightarrow> 'k \<Rightarrow> 'v option"
  assumes get_put_same: "get (put k v s) k = Some v"
    and get_put_other: "k' \<noteq> k \<Longrightarrow> get (put k v s) k' = get s k'"
begin

lemma get_puts_other: "k \<notin> fst ` set kvs \<Longrightarrow> get (fold (\<lambda>(k, v). put k v) kvs s) k = get s k"
  by (induction kvs arbitrary: s) (auto simp: get_put_other)

lemma get_puts:
  "distinct (map fst kvs) \<Longrightarrow> (k, v) \<in> set kvs \<Longrightarrow>
   get (fold (\<lambda>(k, v). put k v) kvs s) k = Some v"
proof (induction kvs arbitrary: s)
  case Nil
  then show ?case by simp
next
  case (Cons kv kvs)
  then show ?case
    by (cases kv) (auto simp: get_puts_other get_put_same rev_image_eqI)
qed

lemma get_put_get: "get (put k v s) k' = (if k' = k then Some v else get s k')"
  by (simp add: get_put_same get_put_other)

end

definition put_at :: "string list \<Rightarrow> string \<Rightarrow> world \<Rightarrow> world" where
  "put_at l b w = w\<lparr>w_files := dict_set l b (w_files w)\<rparr>"

interpretation disk: kv_store put_at file_at
  by unfold_locales (simp_all add: put_at_def file_at_def)

lemma write_file_put_at: "write_file p b w = put_at (locate w p) b w"
  by (simp add: write_file_def put_at_def)

section \<open>Text files\<close>

text \<open>
  Decoding gives none both for bytes that are no UTF-8 and for characters beyond the modelled
  alphabet.  Reading in text mode translates line ends.
\<close>

fun utf8_decode :: "string \<Rightarrow> string option" where
  "utf8_decode [] = Some []"
| "utf8_decode (c # s) =
     (if (of_char c :: nat) < 128 then map_option (Cons c) (utf8_decode s)
      else case s of
             d # s' \<Rightarrow>
               if (of_char c :: nat) \<in> {194, 195} \<and> (of_char d :: nat) div 64 = 2
               then map_option (Cons (char_of ((of_char c - 192) * 64 + (of_char d - 128 :: nat))))
                      (utf8_decode s')
               else None
           | [] \<Rightarrow> None)"

fun universal_newlines :: "string \<Rightarrow> string" where
  "universal_newlines [] = []"
| "universal_newlines (c # s) =
     (if c = CHR 0x0D
      then CHR 0x0A # (case s of d # s' \<Rightarrow>
             if d = CHR 0x0A then universal_newlines s' else universal_newlines s | [] \<Rightarrow> [])
      else c # universal_newlines s)"

text \<open>
  Decoding that never fails (\<open>errors="replace"\<close>): the characters beyond the modelled alphabet and the
  replacement for bytes that are no UTF-8 are read as one placeholder, the control character SUB.
\<close>

definition PLACEHOLDER :: char where
  "PLACEHOLDER = CHR 0x1A"

definition utf8_need :: "nat \<Rightarrow> nat" where
  "utf8_need lead =
     (if 194 \<le> lead \<and> lead \<le> 223 then 1 else if 224 \<le> lead \<and> lead \<le> 239 then 2
      else if 240 \<le> lead \<and> lead \<le> 244 then 3 else 0)"

text \<open>Whether a byte may stand right after a lead byte, and later in a sequence.\<close>

definition utf8_second :: "nat \<Rightarrow> nat \<Rightarrow> bool" where
  "utf8_second lead b \<longleftrightarrow>
     (if lead = 224 then 160 \<le> b \<and> b \<le> 191
      else if lead = 237 then 128 \<le> b \<and> b \<le> 159
      else if lead = 240 then 144 \<le> b \<and> b \<le> 191
      else if lead = 244 then 128 \<le> b \<and> b \<le> 143
      else 128 \<le> b \<and> b \<le> 191)"

definition utf8_tail :: "nat \<Rightarrow> string \<Rightarrow> string" where
  "utf8_tail lead s =
     (case take (utf8_need lead) s of
        [] \<Rightarrow> []
      | c # cs \<Rightarrow> if utf8_second lead (of_char c)
                 then c # takeWhile (\<lambda>d. (of_char d :: nat) div 64 = 2) cs else [])"

fun utf8_replace :: "nat \<Rightarrow> string \<Rightarrow> string" where
  "utf8_replace 0 s = []"
| "utf8_replace (Suc n) [] = []"
| "utf8_replace (Suc n) (c # s) =
     (let lead = (of_char c :: nat); t = utf8_tail lead s; rest = utf8_replace n (drop (length t) s) in
      if lead < 128 then c # utf8_replace n s
      else if length t = utf8_need lead \<and> (lead = 194 \<or> lead = 195)
      then char_of ((lead - 192) * 64 + (of_char (hd t) - 128)) # rest
      else PLACEHOLDER # rest)"

text \<open>Every step consumes a byte, so the number of bytes is fuel enough.\<close>

definition read_text_replace :: "world \<Rightarrow> ppath \<Rightarrow> string res" where
  "read_text_replace w p =
     (case file_at w (locate w p) of
        None \<Rightarrow> Inl FileNotFoundError
      | Some b \<Rightarrow> Inr (universal_newlines (utf8_replace (length b) b)))"

definition read_text :: "world \<Rightarrow> ppath \<Rightarrow> string res" where
  "read_text w p =
     (case file_at w (locate w p) of
        None \<Rightarrow> Inl FileNotFoundError
      | Some b \<Rightarrow> (case utf8_decode b of
          None \<Rightarrow> Inl (ValueError ''UnicodeDecodeError'')
        | Some t \<Rightarrow> Inr (universal_newlines t)))"

lemma utf8_decode_utf8: "utf8_decode (utf8 t) = Some t"
proof (induction t)
  case Nil
  then show ?case by (simp add: utf8_def)
next
  case (Cons c t)
  let ?n = "of_char c :: nat"
  have n: "?n < 256" by simp
  show ?case
  proof (cases "?n < 128")
    case True
    with Cons show ?thesis by (simp add: utf8_def utf8_char_def)
  next
    case False
    have q: "?n div 64 = 2 \<or> ?n div 64 = 3" using False n by linarith
    have m: "?n mod 64 < 64" by simp
    have "?n = ?n div 64 * 64 + ?n mod 64" by simp
    then have again: "char_of (?n div 64 * 64 + ?n mod 64) = c" by (metis char_of_char)
    have again2: "?n div 64 = 2 \<Longrightarrow> char_of (128 + ?n mod 64) = c" using again by auto
    have again3: "?n div 64 = 3 \<Longrightarrow> char_of (192 + ?n mod 64) = c" using again by auto
    have "(128 + ?n mod 64) div 64 = 2" using m by simp
    with q show ?thesis using Cons False again2 again3
      by (auto simp: utf8_def utf8_char_def Let_def)
  qed
qed

text \<open>Both decodings agree where the strict one succeeds.\<close>

lemma utf8_replace_strict: "utf8_decode b = Some t \<Longrightarrow> length b \<le> n \<Longrightarrow> utf8_replace n b = t"
proof (induction n b arbitrary: t rule: utf8_replace.induct)
  case (3 n c s)
  show ?case
  proof (cases "(of_char c :: nat) < 128")
    case True
    with 3 show ?thesis by (auto simp: Let_def)
  next
    case False
    then obtain d s' u where s: "s = d # s'" and lead: "of_char c \<in> {194, 195 :: nat}"
      and second: "(of_char d :: nat) div 64 = 2" and u: "utf8_decode s' = Some u"
      and t: "t = char_of ((of_char c - 192) * 64 + (of_char d - 128 :: nat)) # u"
      using 3(3) by (auto split: list.splits if_splits)
    have "128 \<le> (of_char d :: nat) \<and> (of_char d :: nat) \<le> 191" using second by linarith
    then have tail: "utf8_tail (of_char c) s = [d]" and need: "utf8_need (of_char c) = 1"
      using lead by (auto simp: s utf8_tail_def utf8_need_def utf8_second_def)
    have "utf8_replace n (drop (length (utf8_tail (of_char c) s)) s) = u"
      by (rule 3(1)) (use u 3(4) in \<open>auto simp: tail [unfolded s] s\<close>)
    then show ?thesis using lead False by (auto simp: tail need t Let_def)
  qed
qed auto

lemma universal_newlines_no_return: "CHR 0x0D \<notin> set (universal_newlines t)"
  by (induction t rule: universal_newlines.induct) (auto split: list.splits)

lemma universal_newlines_id: "CHR 0x0D \<notin> set t \<Longrightarrow> universal_newlines t = t"
  by (induction t) auto

lemma universal_newlines_same: "universal_newlines t = t \<longleftrightarrow> CHR 0x0D \<notin> set t"
  using universal_newlines_id [of t] universal_newlines_no_return [of t] by metis

section \<open>The artifact store\<close>

text \<open>The data argument of a write: a string, which is encoded, or bytes.\<close>

datatype payload = Text string | Bytes string

fun payload_bytes :: "payload \<Rightarrow> string" where
  "payload_bytes (Text t) = utf8 t"
| "payload_bytes (Bytes b) = b"

record artifact_store =
  st_root :: ppath
  st_attempt_id :: "string option"

definition run_dir :: "artifact_store \<Rightarrow> string \<Rightarrow> ppath" where
  "run_dir st run_id =
     (let base = pjoin (st_root st) run_id in
      case st_attempt_id st of
        None \<Rightarrow> base
      | Some a \<Rightarrow> if a \<noteq> [] then pjoin base a else base)"

definition store_write ::
    "(nat \<Rightarrow> string) \<Rightarrow> artifact_store \<Rightarrow> string \<Rightarrow> string \<Rightarrow> string \<Rightarrow> payload \<Rightarrow> string \<Rightarrow> string
     \<Rightarrow> (world, artifact) comp" where
  "store_write now st run_id task_id name data artifact_type recorded_by =
     (let bytes = payload_bytes data;
          dir = run_dir st run_id;
          path = pjoin dir name
      in bindC (modC (make_dirs dir)) (\<lambda>_.
         bindC (modC (write_file path bytes)) (\<lambda>_.
         bindC (read_clock now) (\<lambda>created.
         ret \<lparr>a_artifact_id = run_id @ '':'' @ name, a_run_id = run_id, a_task_id = task_id,
              a_artifact_type = artifact_type, a_path = str_path path, a_hash = hash_bytes bytes,
              a_attempt_id = st_attempt_id st, a_created_at = created,
              a_recorded_by = recorded_by\<rparr>))))"

definition store_read_text :: "artifact_store \<Rightarrow> string \<Rightarrow> string \<Rightarrow> world \<Rightarrow> string res" where
  "store_read_text st run_id name w = read_text w (pjoin (run_dir st run_id) name)"

lemma store_write_eq:
  "store_write now st run task name data ty by w =
     (Inr \<lparr>a_artifact_id = run @ '':'' @ name, a_run_id = run, a_task_id = task,
           a_artifact_type = ty, a_path = str_path (pjoin (run_dir st run) name),
           a_hash = hash_bytes (payload_bytes data), a_attempt_id = st_attempt_id st,
           a_created_at = now (w_tick w), a_recorded_by = by\<rparr>,
      (write_file (pjoin (run_dir st run) name) (payload_bytes data) (make_dirs (run_dir st run) w))
        \<lparr>w_tick := Suc (w_tick w)\<rparr>)"
  by (simp add: store_write_def comp_defs Let_def read_clock_def write_file_def make_dirs_def)

lemma store_write_reads_back:
  assumes "store_write now st run task name data ty by w = (Inr a, w')"
  shows "file_at w' (locate w' (pjoin (run_dir st run) name)) = Some (payload_bytes data)"
    and "a_hash a = hash_bytes (payload_bytes data)"
  using assms by (auto simp: store_write_eq)

lemma store_write_other_files:
  assumes "store_write now st run task name data ty by w = (r, w')"
    and "l \<noteq> locate w (pjoin (run_dir st run) name)"
  shows "file_at w' l = file_at w l"
  using assms by (auto simp: store_write_eq)

text \<open>Attempts of one run write to different places.\<close>

lemma collapse_append: "collapse acc (xs @ ys) = collapse (rev (collapse acc xs)) ys"
  by (induction acc xs rule: collapse.induct) auto

lemma collapse_segments: "list_all segment xs \<Longrightarrow> collapse acc xs = rev acc @ xs"
  by (induction xs arbitrary: acc) (auto simp: segment_def)

lemma locate_segment [simp]:
  assumes "segment n"
  shows "locate w (pjoin p n) = locate w p @ [n]"
  using assms by (simp add: pjoin_segment locate_def collapse_append segment_def)

lemma attempts_apart:
  assumes "segment a" "segment b" "a \<noteq> b" "segment m" "segment n"
  shows "locate w (pjoin (run_dir \<lparr>st_root = root, st_attempt_id = Some a\<rparr> run) m)
       \<noteq> locate w (pjoin (run_dir \<lparr>st_root = root, st_attempt_id = Some b\<rparr> run) n)"
proof -
  have "a \<noteq> []" "b \<noteq> []" using assms by (auto simp: segment_def)
  then show ?thesis using assms
    by (simp add: run_dir_def)
qed

section \<open>The evidence ledger\<close>

record ledger_writer =
  ew_ledger :: evidence_ledger
  ew_counter :: nat

definition new_ledger_writer :: "string \<Rightarrow> string \<Rightarrow> ledger_writer" where
  "new_ledger_writer task_id run_id = \<lparr>ew_ledger = new_ledger task_id run_id, ew_counter = 0\<rparr>"

definition push_entry :: "ledger_entry \<Rightarrow> ledger_writer \<Rightarrow> ledger_writer" where
  "push_entry e ew =
     ew\<lparr>ew_ledger := (ew_ledger ew)\<lparr>l_entries := l_entries (ew_ledger ew) @ [e]\<rparr>\<rparr>"

text \<open>
  The counter moves before the entry is validated, so an entry of an unknown type, or a command
  that is no string, leaves a gap in the ids; the clock is read before the validation as well.
\<close>

definition ledger_append ::
    "(nat \<Rightarrow> string) \<Rightarrow> string \<Rightarrow> string \<Rightarrow> string \<Rightarrow> json \<Rightarrow> ledger_result \<Rightarrow> string
     \<Rightarrow> (ledger_writer \<times> world, ledger_entry) comp" where
  "ledger_append now artifact_type artifact_path hash command result recorded_by = (\<lambda>(ew, w).
     if hash = [] then (Inl (ValueError ''evidence entry requires a hash''), (ew, w))
     else
       let ew' = ew\<lparr>ew_counter := Suc (ew_counter ew)\<rparr>;
           w' = w\<lparr>w_tick := Suc (w_tick w)\<rparr>
       in case (artifact_type_of artifact_type, command) of
            (Some t, JStr cmd) \<Rightarrow>
              let entry = \<lparr>e_entry_id = ''E'' @ zero_pad 4 (ew_counter ew'),
                    e_timestamp = now (w_tick w), e_artifact_type = t,
                    e_artifact_path = artifact_path, e_command = cmd, e_result = result,
                    e_hash = hash, e_recorded_by = recorded_by\<rparr>
              in (Inr entry, (push_entry entry ew', w'))
          | _ \<Rightarrow> (Inl ValidationError, (ew', w')))"

definition ledger_append_artifact ::
    "(nat \<Rightarrow> string) \<Rightarrow> artifact \<Rightarrow> ledger_result \<Rightarrow> json
     \<Rightarrow> (ledger_writer \<times> world, ledger_entry) comp" where
  "ledger_append_artifact now a result command =
     ledger_append now (a_artifact_type a) (a_path a) (a_hash a) command result (a_recorded_by a)"

definition ledger_finalize :: "decision \<Rightarrow> ledger_writer \<Rightarrow> ledger_writer" where
  "ledger_finalize d ew = ew\<lparr>ew_ledger := (ew_ledger ew)\<lparr>l_final_status := d\<rparr>\<rparr>"

text \<open>
  What the writer keeps: the ids count up and stay below the counter, and every entry carries a
  hash.
\<close>

definition entry_number :: "ledger_entry \<Rightarrow> nat" where
  "entry_number e = undec (tl (e_entry_id e))"

definition ledger_wf :: "ledger_writer \<Rightarrow> bool" where
  "ledger_wf ew \<longleftrightarrow>
     (let es = l_entries (ew_ledger ew) in
      list_all (\<lambda>e. e_entry_id e = ''E'' @ zero_pad 4 (entry_number e) \<and> e_hash e \<noteq> []
                 \<and> entry_number e \<le> ew_counter ew) es
    \<and> sorted_wrt (<) (map entry_number es))
   \<and> \<not> l_agent_self_certification_used (ew_ledger ew)
   \<and> \<not> l_auto_merge (ew_ledger ew) \<and> \<not> l_auto_deploy (ew_ledger ew)"

lemma ledger_wf_new [simp]: "ledger_wf (new_ledger_writer task run)"
  by (simp add: ledger_wf_def new_ledger_writer_def new_ledger_def)

lemma ledger_wf_finalize [simp]: "ledger_wf (ledger_finalize d ew) \<longleftrightarrow> ledger_wf ew"
  by (simp add: ledger_wf_def ledger_finalize_def)

lemma ledger_wf_count: "ledger_wf ew \<Longrightarrow> ledger_wf (ew\<lparr>ew_counter := Suc (ew_counter ew)\<rparr>)"
  by (auto simp: ledger_wf_def list_all_iff Let_def intro: le_SucI)

lemma ledger_wf_push:
  assumes "ledger_wf ew" and "e_hash e \<noteq> []"
    and "e_entry_id e = ''E'' @ zero_pad 4 (Suc (ew_counter ew))"
  shows "ledger_wf (push_entry e (ew\<lparr>ew_counter := Suc (ew_counter ew)\<rparr>))"
proof -
  have "entry_number e = Suc (ew_counter ew)" using assms(3) by (simp add: entry_number_def)
  with assms show ?thesis
    by (auto simp: ledger_wf_def push_entry_def list_all_iff sorted_wrt_append Let_def
        intro: le_SucI le_imp_less_Suc)
qed

lemma ledger_append_ok:
  assumes "hash \<noteq> []" and "artifact_type_of ty = Some t"
  shows "ledger_append now ty path hash (JStr cmd) res by (ew, w) =
     (let e = \<lparr>e_entry_id = ''E'' @ zero_pad 4 (Suc (ew_counter ew)), e_timestamp = now (w_tick w),
               e_artifact_type = t, e_artifact_path = path, e_command = cmd, e_result = res,
               e_hash = hash, e_recorded_by = by\<rparr>
      in (Inr e, (push_entry e (ew\<lparr>ew_counter := Suc (ew_counter ew)\<rparr>),
                  w\<lparr>w_tick := Suc (w_tick w)\<rparr>)))"
  using assms by (simp add: ledger_append_def Let_def)

lemma ledger_append_cases:
  assumes "ledger_append now ty path hash cmd res by (ew, w) = (r, (ew', w'))"
  obtains (empty) "hash = []" "ew' = ew" "w' = w" "r = Inl (ValueError ''evidence entry requires a hash'')"
  | (invalid) "ew' = ew\<lparr>ew_counter := Suc (ew_counter ew)\<rparr>" "r = Inl ValidationError"
      "w' = w\<lparr>w_tick := Suc (w_tick w)\<rparr>"
  | (entry) e where "hash \<noteq> []" "r = Inr e" "w' = w\<lparr>w_tick := Suc (w_tick w)\<rparr>"
      "ew' = push_entry e (ew\<lparr>ew_counter := Suc (ew_counter ew)\<rparr>)"
      "e_entry_id e = ''E'' @ zero_pad 4 (Suc (ew_counter ew))" "e_hash e = hash"
      "e_artifact_path e = path" "artifact_type_of ty = Some (e_artifact_type e)"
      "cmd = JStr (e_command e)" "e_result e = res"
proof -
  let ?e = "\<lambda>t c. \<lparr>e_entry_id = ''E'' @ zero_pad 4 (Suc (ew_counter ew)), e_timestamp = now (w_tick w),
    e_artifact_type = t, e_artifact_path = path, e_command = c, e_result = res, e_hash = hash,
    e_recorded_by = by\<rparr>"
  consider "hash = []" | "hash \<noteq> []" "artifact_type_of ty = None \<or> (\<forall>c. cmd \<noteq> JStr c)"
    | t c where "hash \<noteq> []" "artifact_type_of ty = Some t" "cmd = JStr c"
    by fastforce
  then show thesis
  proof cases
    case 1
    then show ?thesis using assms empty by (simp add: ledger_append_def)
  next
    case 2
    then show ?thesis using assms invalid
      by (cases cmd) (auto simp: ledger_append_def Let_def split: option.splits)
  next
    case (3 t c)
    then show ?thesis using assms entry [of "?e t c"] by (simp add: ledger_append_ok Let_def)
  qed
qed

lemma ledger_wf_append:
  assumes "ledger_wf ew" and "ledger_append now ty path hash cmd res by (ew, w) = (r, (ew', w'))"
  shows "ledger_wf ew'"
  using assms(2) by (cases rule: ledger_append_cases)
    (use assms(1) in \<open>auto intro: ledger_wf_push ledger_wf_count\<close>)

lemma ledger_wf_distinct: "ledger_wf ew \<Longrightarrow> distinct (map e_entry_id (l_entries (ew_ledger ew)))"
proof -
  assume wf: "ledger_wf ew"
  let ?ns = "map entry_number (l_entries (ew_ledger ew))"
  have "map e_entry_id (l_entries (ew_ledger ew)) = map (\<lambda>n. ''E'' @ zero_pad 4 n) ?ns"
    using wf by (simp add: ledger_wf_def list_all_iff Let_def)
  moreover have "distinct ?ns" using wf by (simp add: ledger_wf_def Let_def strict_sorted_iff)
  ultimately show ?thesis by (simp add: distinct_map inj_on_def)
qed

section \<open>Checkpoints\<close>

definition stamp_created :: "(nat \<Rightarrow> string) \<Rightarrow> checkpoint \<Rightarrow> (world, checkpoint) comp" where
  "stamp_created now k =
     (if k_created_at k = [] then bindC (read_clock now) (\<lambda>t. ret (k\<lparr>k_created_at := t\<rparr>)) else ret k)"

text \<open>The JSON text of a checkpoint is Pydantic's (\<open>dump\<close>).\<close>

definition write_checkpoint ::
    "(nat \<Rightarrow> string) \<Rightarrow> (checkpoint \<Rightarrow> string) \<Rightarrow> artifact_store \<Rightarrow> checkpoint \<Rightarrow> string \<Rightarrow> string
     \<Rightarrow> (world, artifact) comp" where
  "write_checkpoint now dump st k name recorded_by =
     bindC (stamp_created now k) (\<lambda>k1.
     bindC (read_clock now) (\<lambda>t.
     let k2 = k1\<lparr>k_updated_at := t\<rparr> in
     store_write now st (k_run_id k2) (k_task_id k2) name (Text (dump k2)) ''CHECKPOINT'' recorded_by))"

section \<open>Properties\<close>

text \<open>
  C21: what the artifact store writes it reads back with its line ends translated, and so unchanged
  just when it holds no carriage return; the file holds the very bytes, the record carries their
  SHA-256, in 64 hexadecimal digits, and the attempt of the store, and no other file changes.
\<close>

theorem store_round_trip:
  assumes "store_write now st run task name (Text t) ty by w = (Inr a, w')"
  shows "store_read_text st run name w' = Inr (universal_newlines t)
    \<and> (store_read_text st run name w' = Inr t \<longleftrightarrow> CHR 0x0D \<notin> set t)
    \<and> file_at w' (locate w' (pjoin (run_dir st run) name)) = Some (utf8 t)
    \<and> a_hash a = hash_bytes (utf8 t) \<and> length (a_hash a) = 64 \<and> set (a_hash a) \<subseteq> set hex_chars
    \<and> a_run_id a = run \<and> a_attempt_id a = st_attempt_id st
    \<and> (\<forall>l. l \<noteq> locate w (pjoin (run_dir st run) name) \<longrightarrow> file_at w' l = file_at w l)"
proof -
  have written: "file_at w' (locate w' (pjoin (run_dir st run) name)) = Some (utf8 t)"
    using store_write_reads_back(1) [OF assms] by simp
  then have "store_read_text st run name w' = Inr (universal_newlines t)"
    by (simp add: store_read_text_def read_text_def utf8_decode_utf8)
  then show ?thesis
    using store_write_other_files [OF assms] assms written universal_newlines_same [of t]
    by (auto simp: store_write_eq length_hash_bytes dest: subsetD [OF hash_bytes_hex])
qed

theorem store_round_trip_witness:
  "\<exists>a w'. store_write (\<lambda>_. ''now'') \<lparr>st_root = parse_path ''/store'', st_attempt_id = Some ''a1''\<rparr>
      ''run'' ''task'' ''diff.patch'' (Text [CHR ''+'', CHR 0x0D, CHR 0x0A]) ''DIFF'' ''git''
      \<lparr>w_files = [], w_dirs = [], w_cwd = [], w_tick = 0\<rparr> = (Inr a, w')
    \<and> store_read_text \<lparr>st_root = parse_path ''/store'', st_attempt_id = Some ''a1''\<rparr> ''run'' ''diff.patch'' w'
        = Inr [CHR ''+'', CHR 0x0A]"
proof -
  let ?st = "\<lparr>st_root = parse_path ''/store'', st_attempt_id = Some ''a1''\<rparr>"
  let ?w = "\<lparr>w_files = [], w_dirs = [], w_cwd = [], w_tick = 0\<rparr>"
  obtain a w' where wrote: "store_write (\<lambda>_. ''now'') ?st ''run'' ''task'' ''diff.patch''
      (Text [CHR ''+'', CHR 0x0D, CHR 0x0A]) ''DIFF'' ''git'' ?w = (Inr a, w')"
    by (simp add: store_write_eq)
  from store_round_trip [OF wrote] have "store_read_text ?st ''run'' ''diff.patch'' w' = Inr [CHR ''+'', CHR 0x0A]"
    by simp
  with wrote show ?thesis by blast
qed

text \<open>
  C22: two attempts of one run never write to the same file: with different attempt ids the
  store puts any two artifacts at different places, wherever its root is.
\<close>

theorem attempts_write_apart:
  assumes "segment a" "segment b" "a \<noteq> b" "segment m" "segment n"
    and "store_write now \<lparr>st_root = base, st_attempt_id = Some a\<rparr> run task m data ty by w = (r, w')"
  shows "file_at w' (locate w' (pjoin (run_dir \<lparr>st_root = base, st_attempt_id = Some b\<rparr> run) n))
       = file_at w (locate w (pjoin (run_dir \<lparr>st_root = base, st_attempt_id = Some b\<rparr> run) n))"
proof -
  have "locate w' p = locate w p" for p
    using assms(6) by (auto simp: store_write_eq)
  then show ?thesis
    using store_write_other_files [OF assms(6)] attempts_apart [OF assms(1-5)] by metis
qed

theorem attempts_write_apart_witness:
  "let w = \<lparr>w_files = [], w_dirs = [], w_cwd = [], w_tick = 0\<rparr>;
       w' = snd (store_write (\<lambda>_. ''now'') \<lparr>st_root = parse_path ''/store'', st_attempt_id = Some ''a1''\<rparr>
              ''run'' ''task'' ''diff.patch'' (Text ''+x'') ''DIFF'' ''git'' w)
   in file_at w' (locate w' (pjoin (run_dir \<lparr>st_root = parse_path ''/store'', st_attempt_id = Some ''a2''\<rparr> ''run'')
        ''diff.patch'')) = None"
proof -
  let ?w = "\<lparr>w_files = [], w_dirs = [], w_cwd = [], w_tick = 0\<rparr>"
  let ?x = "store_write (\<lambda>_. ''now'') \<lparr>st_root = parse_path ''/store'', st_attempt_id = Some ''a1''\<rparr>
              ''run'' ''task'' ''diff.patch'' (Text ''+x'') ''DIFF'' ''git'' ?w"
  have "?x = (fst ?x, snd ?x)" by simp
  from attempts_write_apart [OF _ _ _ _ _ this, of "''a2''" "''diff.patch''"] show ?thesis
    by (simp add: segment_def Let_def file_at_def)
qed

end
