(* ===== verification/Gates.thy ===== *)
theory Gates
  imports Schemas
begin

text \<open>
  The nine deterministic gates of \<open>backend/app/gates/\<close>.  Each is a pure function that collects
  the reasons it refuses for; no reason means PASS.  Every gate comes with the lemma that says
  exactly when it passes (collected in \<open>gate_passed\<close>), which is what the verifier handlers
  and the API rest on.
\<close>

named_theorems gate_passed \<open>when each gate passes\<close>

text \<open>A guarded reason: \<open>if b: reasons.append(r)\<close>.\<close>

definition reason_if :: "bool \<Rightarrow> string \<Rightarrow> string list" where
  "reason_if b r = (if b then [r] else [])"

lemma reason_if_Nil [simp]: "reason_if b r = [] \<longleftrightarrow> \<not> b"
  by (simp add: reason_if_def)

section \<open>No self-certification\<close>

text \<open>
  The coding agent's run id may come from request metadata and is then any JSON value; the
  other identities are strings.
\<close>

definition no_self_certification_gate ::
    "json \<Rightarrow> string \<Rightarrow> string \<Rightarrow> string \<Rightarrow> decision \<Rightarrow> bool \<Rightarrow> bool \<Rightarrow> gate_result" where
  "no_self_certification_gate coding_agent_run_id verifier_run_id coding_agent_id verifier_id
       verifier_decision agent_summary_used_as_evidence executor_marked_done =
     gate_of ''no_self_certification_gate''
      (reason_if (truthy coding_agent_run_id \<and> verifier_run_id \<noteq> []
           \<and> coding_agent_run_id = JStr verifier_run_id)
         ''coding_agent_run_id == verifier_run_id''
     @ reason_if (coding_agent_id \<noteq> [] \<and> verifier_id \<noteq> [] \<and> coding_agent_id = verifier_id)
         ''same agent creates and certifies work''
     @ reason_if agent_summary_used_as_evidence ''agent summary used as evidence''
     @ reason_if (executor_marked_done \<and> verifier_decision \<noteq> D_PASS)
         ''executor marks Done without verifier PASS'')"

text \<open>The call with the keyword defaults, as the verifier handlers and the API make it.\<close>

abbreviation independence_gate :: "json \<Rightarrow> string \<Rightarrow> bool \<Rightarrow> gate_result" where
  "independence_gate coding verifier narrative \<equiv>
     no_self_certification_gate coding verifier [] [] D_PENDING narrative False"

lemma no_self_certification_passed [gate_passed]:
  "passed (no_self_certification_gate c v ca va d n m) \<longleftrightarrow>
     \<not> (v \<noteq> [] \<and> c = JStr v) \<and> \<not> (ca \<noteq> [] \<and> ca = va) \<and> \<not> n \<and> (m \<longrightarrow> d = D_PASS)"
  by (auto simp: no_self_certification_gate_def)

section \<open>Evidence\<close>

definition quarantined_basenames :: "string list" where
  "quarantined_basenames = [''agent_summary.md'', ''raw_agent_output.log'']"

definition entry_label :: "ledger_entry \<Rightarrow> string" where
  "entry_label e =
     (if e_entry_id e \<noteq> [] then e_entry_id e
      else if e_artifact_path e \<noteq> [] then e_artifact_path e
      else artifact_type_value (e_artifact_type e))"

definition entry_reasons :: "string list \<Rightarrow> ledger_entry \<Rightarrow> string list" where
  "entry_reasons seen e =
     reason_if (basename (e_artifact_path e) \<in> set quarantined_basenames)
       (''agent summary used as proof: '' @ entry_label e)
   @ reason_if (e_hash e = []) (''artifact hash missing: '' @ entry_label e)
   @ reason_if (e_command e \<noteq> [] \<and> e_artifact_path e = [])
       (''command output missing for claimed command: '' @ entry_label e)
   @ reason_if (e_entry_id e \<noteq> [] \<and> e_entry_id e \<in> set seen)
       (''ledger mutated in place without correction: '' @ entry_label e)"

text \<open>The loop over the entries, with the entry ids seen so far.\<close>

fun ledger_reasons :: "string list \<Rightarrow> ledger_entry list \<Rightarrow> string list" where
  "ledger_reasons seen [] = []"
| "ledger_reasons seen (e # es) =
     entry_reasons seen e
     @ ledger_reasons (if e_entry_id e \<noteq> [] then e_entry_id e # seen else seen) es"

definition present_types :: "evidence_ledger \<Rightarrow> string list" where
  "present_types l = map (artifact_type_value \<circ> e_artifact_type) (l_entries l)"

definition evidence_gate ::
    "evidence_ledger \<Rightarrow> string \<Rightarrow> string \<Rightarrow> string list \<Rightarrow> gate_result" where
  "evidence_gate ledger run_id task_id required_artifact_types =
     gate_of ''evidence_gate''
      (reason_if (l_run_id ledger = [] \<or> l_run_id ledger \<noteq> run_id) ''ledger not linked to run_id''
     @ reason_if (l_task_id ledger = [] \<or> l_task_id ledger \<noteq> task_id)
         ''ledger not linked to task_id''
     @ reason_if (l_agent_self_certification_used ledger)
         ''agent self-certification used as evidence''
     @ ledger_reasons [] (l_entries ledger)
     @ concat (map (\<lambda>t. reason_if (t \<notin> set (present_types ledger))
         (''required artifact missing: '' @ t)) required_artifact_types))"

text \<open>What one entry must be for the gate, and the ids that may not repeat.\<close>

definition entry_ok :: "ledger_entry \<Rightarrow> bool" where
  "entry_ok e \<longleftrightarrow> e_hash e \<noteq> [] \<and> (e_command e \<noteq> [] \<longrightarrow> e_artifact_path e \<noteq> [])
     \<and> basename (e_artifact_path e) \<notin> set quarantined_basenames"

definition named_ids :: "ledger_entry list \<Rightarrow> string list" where
  "named_ids es = filter (\<lambda>i. i \<noteq> []) (map e_entry_id es)"

lemma ledger_reasons_Nil:
  "ledger_reasons seen es = [] \<longleftrightarrow>
     list_all entry_ok es \<and> distinct (named_ids es) \<and> set (named_ids es) \<inter> set seen = {}"
proof (induction es arbitrary: seen)
  case Nil
  then show ?case by (simp add: named_ids_def)
next
  case (Cons e es)
  then show ?case
    by (auto simp: entry_reasons_def entry_ok_def named_ids_def)
qed

definition ledger_linked :: "evidence_ledger \<Rightarrow> string \<Rightarrow> string \<Rightarrow> bool" where
  "ledger_linked l run_id task_id \<longleftrightarrow>
     l_run_id l = run_id \<and> run_id \<noteq> [] \<and> l_task_id l = task_id \<and> task_id \<noteq> []"

lemma evidence_gate_passed [gate_passed]:
  "passed (evidence_gate l run task required) \<longleftrightarrow>
     ledger_linked l run task \<and> \<not> l_agent_self_certification_used l
     \<and> list_all entry_ok (l_entries l) \<and> distinct (named_ids (l_entries l))
     \<and> set required \<subseteq> set (present_types l)"
  by (auto simp: evidence_gate_def ledger_reasons_Nil ledger_linked_def)

section \<open>Model policy and manifest\<close>

definition model_label :: "model_spec \<Rightarrow> string" where
  "model_label m =
     (if ms_model_id m \<noteq> [] then ms_model_id m else ''<'' @ model_role_value (ms_role m) @ ''>'')"

definition model_reasons :: "string list \<Rightarrow> string list \<Rightarrow> model_spec \<Rightarrow> string list" where
  "model_reasons allowlist declared_ids m =
     reason_if (ms_model_id m = [] \<or> ms_provider m = [])
       (''model undeclared (model_id/provider missing): '' @ model_label m)
   @ reason_if (ms_model_run_id m = [])
       (''model not role-bound (model_run_id missing): '' @ model_label m)
   @ reason_if (ms_model_id m \<noteq> [] \<and> ms_model_id m \<notin> set allowlist)
       (''model not allowlisted: '' @ model_label m)
   @ reason_if (\<not> rate_limit_is_set (ms_rate_limit m)) (''model not rate-limited: '' @ model_label m)
   @ reason_if (ms_permissions m = []) (''model not permissioned: '' @ model_label m)
   @ reason_if (ms_prompt_hash m = [])
       (''determinism not pinned (prompt_hash missing): '' @ model_label m)
   @ reason_if (ms_parallel_tool_calls m) (''parallel_tool_calls must be false: '' @ model_label m)
   @ (if ms_fallback_model_id m \<noteq> [] then
        (if ms_fallback_model_id m \<notin> set declared_ids
         then [''fallback model not declared: '' @ ms_fallback_model_id m]
         else if ms_fallback_model_id m \<notin> set allowlist
         then [''fallback model not allowlisted: '' @ ms_fallback_model_id m]
         else [])
      else [])"

text \<open>
  The roles a run type must cover.  The source iterates over a set, whose order is not fixed;
  the model takes the order of the literal, and no result below depends on it.
\<close>

fun required_roles :: "run_type \<Rightarrow> model_role list" where
  "required_roles RT_IMPLEMENTATION = [MR_CODING_AGENT, MR_VERIFIER]"
| "required_roles RT_READ_ONLY_ANALYSIS = [MR_VERIFIER]"

definition role_run_ids :: "model_role \<Rightarrow> model_spec list \<Rightarrow> string list" where
  "role_run_ids r ms =
     map ms_model_run_id (filter (\<lambda>m. ms_role m = r \<and> ms_model_run_id m \<noteq> []) ms)"

definition model_policy_gate :: "run_manifest \<Rightarrow> gate_result" where
  "model_policy_gate manifest =
     (let models = m_models manifest;
          allowlist = m_allowed_model_ids manifest;
          declared_ids = filter (\<lambda>i. i \<noteq> []) (map ms_model_id models);
          verifying = role_run_ids MR_VERIFIER models;
          overlap = sort (remdups (filter (\<lambda>i. i \<in> set verifying)
            (role_run_ids MR_CODING_AGENT models)))
      in gate_of ''model_policy_gate''
          (if models = [] then []
           else concat (map (model_reasons allowlist declared_ids) models)
              @ concat (map (\<lambda>r. reason_if (r \<notin> set (map ms_role models))
                  (''required role missing: '' @ model_role_value r))
                  (required_roles (m_run_type manifest)))
              @ reason_if (overlap \<noteq> [])
                  (''verifier model_run_id must not equal coding agent model_run_id: ''
                   @ py_join '', '' overlap)))"

definition model_ok :: "string list \<Rightarrow> string list \<Rightarrow> model_spec \<Rightarrow> bool" where
  "model_ok allowlist declared_ids m \<longleftrightarrow>
     ms_model_id m \<noteq> [] \<and> ms_provider m \<noteq> [] \<and> ms_model_run_id m \<noteq> []
   \<and> ms_model_id m \<in> set allowlist \<and> rate_limit_is_set (ms_rate_limit m)
   \<and> ms_permissions m \<noteq> [] \<and> ms_prompt_hash m \<noteq> [] \<and> \<not> ms_parallel_tool_calls m
   \<and> (ms_fallback_model_id m \<noteq> [] \<longrightarrow>
        ms_fallback_model_id m \<in> set declared_ids \<inter> set allowlist)"

lemma model_reasons_Nil: "model_reasons a d m = [] \<longleftrightarrow> model_ok a d m"
  by (auto simp: model_reasons_def model_ok_def)

lemma sort_Nil_iff: "sort xs = [] \<longleftrightarrow> xs = []"
  by (metis set_sort set_empty)

lemma model_policy_passed [gate_passed]:
  "passed (model_policy_gate mf) \<longleftrightarrow> m_models mf = [] \<or>
     (list_all (model_ok (m_allowed_model_ids mf)
         (filter (\<lambda>i. i \<noteq> []) (map ms_model_id (m_models mf)))) (m_models mf)
      \<and> set (required_roles (m_run_type mf)) \<subseteq> set (map ms_role (m_models mf))
      \<and> set (role_run_ids MR_CODING_AGENT (m_models mf))
          \<inter> set (role_run_ids MR_VERIFIER (m_models mf)) = {})"
  by (auto simp: model_policy_gate_def Let_def model_reasons_Nil list_all_iff
      sort_Nil_iff filter_empty_conv)

definition manifest_gate :: "run_manifest \<Rightarrow> gate_result" where
  "manifest_gate m =
     gate_of ''manifest_gate''
      (reason_if (m_model m = []) ''model missing''
     @ reason_if (m_prompt_hash m = []) ''prompt_hash missing''
     @ reason_if (m_schema_mode m \<noteq> ''strict'')
         (''schema_mode must be '' @ [CHR 0x27] @ ''strict'' @ [CHR 0x27])
     @ reason_if (m_tools m \<noteq> ''allowlisted'')
         (''tools must be '' @ [CHR 0x27] @ ''allowlisted'' @ [CHR 0x27])
     @ reason_if (m_parallel_tool_calls m) ''parallel_tool_calls must be false''
     @ reason_if (m_auto_merge m) ''auto_merge must be false''
     @ reason_if (m_auto_deploy m) ''auto_deploy must be false''
     @ reason_if (m_definition_of_done_version m = []) ''definition_of_done_version missing''
     @ reason_if (m_files_in_scope m = []) ''files_in_scope empty''
     @ reason_if (m_verifier_id m = [] \<or> m_verifier_run_id m = []) ''verifier identity missing''
     @ reason_if (m_coding_agent_run_id m \<noteq> [] \<and> m_verifier_run_id m \<noteq> []
           \<and> m_coding_agent_run_id m = m_verifier_run_id m)
         ''coding_agent_run_id must not equal verifier_run_id''
     @ reason_if (m_run_type m \<notin> {RT_READ_ONLY_ANALYSIS, RT_IMPLEMENTATION}) ''run_type invalid''
     @ reason_if (m_local_project_path m \<noteq> CANONICAL_LOCAL_PROJECT_PATH)
         (''local_project_path must equal '' @ CANONICAL_LOCAL_PROJECT_PATH)
     @ reason_if (m_github_repo_url m \<noteq> CANONICAL_GITHUB_REPO_URL)
         (''github_repo_url must equal '' @ CANONICAL_GITHUB_REPO_URL)
     @ (if m_models m \<noteq> [] then g_reasons (model_policy_gate m) else []))"

lemma g_reasons_passed: "g_reasons (model_policy_gate m) = [] \<longleftrightarrow> passed (model_policy_gate m)"
  by (simp add: model_policy_gate_def Let_def)

lemma manifest_gate_passed [gate_passed]:
  "passed (manifest_gate m) \<longleftrightarrow>
     m_model m \<noteq> [] \<and> m_prompt_hash m \<noteq> [] \<and> m_schema_mode m = ''strict''
   \<and> m_tools m = ''allowlisted'' \<and> \<not> m_parallel_tool_calls m
   \<and> \<not> m_auto_merge m \<and> \<not> m_auto_deploy m
   \<and> m_definition_of_done_version m \<noteq> [] \<and> m_files_in_scope m \<noteq> []
   \<and> m_verifier_id m \<noteq> [] \<and> m_verifier_run_id m \<noteq> []
   \<and> m_coding_agent_run_id m \<noteq> m_verifier_run_id m
   \<and> m_local_project_path m = CANONICAL_LOCAL_PROJECT_PATH
   \<and> m_github_repo_url m = CANONICAL_GITHUB_REPO_URL
   \<and> passed (model_policy_gate m)"
  by (cases "m_run_type m") (auto simp: manifest_gate_def g_reasons_passed model_policy_passed)

section \<open>Pull requests\<close>

record pr_facts =
  pf_pr_url :: string
  pf_pr_skip_reason :: string
  pf_auto_merge :: bool
  pf_auto_deploy :: bool
  pf_merge_occurred :: bool
  pf_deploy_occurred :: bool
  pf_pushed_to_protected_branch :: bool

definition no_pr_facts :: pr_facts where
  "no_pr_facts =
     \<lparr>pf_pr_url = [], pf_pr_skip_reason = [], pf_auto_merge = False, pf_auto_deploy = False,
      pf_merge_occurred = False, pf_deploy_occurred = False,
      pf_pushed_to_protected_branch = False\<rparr>"

definition pr_gate :: "decision \<Rightarrow> pr_facts \<Rightarrow> gate_result" where
  "pr_gate verifier_decision f =
     gate_of ''pr_gate''
      (reason_if (pf_auto_merge f) ''auto_merge must be false''
     @ reason_if (pf_auto_deploy f) ''auto_deploy must be false''
     @ reason_if (pf_merge_occurred f) ''merge occurred inside autonomous loop''
     @ reason_if (pf_deploy_occurred f) ''deploy occurred inside autonomous loop''
     @ reason_if (pf_pushed_to_protected_branch f) ''PR bypasses protected branch rules''
     @ reason_if (verifier_decision = D_PASS \<and> pf_pr_url f = [] \<and> pf_pr_skip_reason f = [])
         ''PR missing after verifier PASS without documented reason'')"

lemma pr_gate_passed [gate_passed]:
  "passed (pr_gate d f) \<longleftrightarrow>
     \<not> pf_auto_merge f \<and> \<not> pf_auto_deploy f \<and> \<not> pf_merge_occurred f \<and> \<not> pf_deploy_occurred f
   \<and> \<not> pf_pushed_to_protected_branch f
   \<and> (d = D_PASS \<longrightarrow> pf_pr_url f \<noteq> [] \<or> pf_pr_skip_reason f \<noteq> [])"
  by (auto simp: pr_gate_def)

section \<open>Scope\<close>

record scope_policy =
  sg_files_in_scope :: "string list"
  sg_files_out_of_scope :: "string list"
  sg_approved_scope_changes :: "string list"
  sg_protected_files :: "string list"
  sg_harness_files :: "string list"
  sg_is_framework_change_task :: bool

text \<open>The loop body: one reason at most for a changed file.\<close>

definition file_reasons :: "scope_policy \<Rightarrow> string \<Rightarrow> string list" where
  "file_reasons p path =
     (let approved_change = matches_any path (sg_approved_scope_changes p) in
      if matches_any path (sg_harness_files p) \<and> \<not> sg_is_framework_change_task p
      then [''harness file modified without framework-change task: '' @ path]
      else if matches_any path (sg_protected_files p) \<and> \<not> approved_change
      then [''protected file modified without approval: '' @ path]
      else if matches_any path (sg_files_out_of_scope p) \<and> \<not> approved_change
      then [''out-of-scope change without approved record: '' @ path]
      else if \<not> matches_any path (sg_files_in_scope p) \<and> \<not> approved_change
      then [''file outside scope: '' @ path]
      else [])"

definition scope_gate :: "string list \<Rightarrow> scope_policy \<Rightarrow> gate_result" where
  "scope_gate changed_files p = gate_of ''scope_gate'' (concat (map (file_reasons p) changed_files))"

text \<open>A file the gate lets through.\<close>

definition file_admitted :: "scope_policy \<Rightarrow> string \<Rightarrow> bool" where
  "file_admitted p path \<longleftrightarrow>
     (matches_any path (sg_harness_files p) \<longrightarrow> sg_is_framework_change_task p)
   \<and> (matches_any path (sg_approved_scope_changes p)
      \<or> (matches_any path (sg_files_in_scope p) \<and> \<not> matches_any path (sg_files_out_of_scope p)
         \<and> \<not> matches_any path (sg_protected_files p)))"

lemma file_reasons_Nil: "file_reasons p path = [] \<longleftrightarrow> file_admitted p path"
  by (auto simp: file_reasons_def file_admitted_def Let_def)

lemma scope_gate_passed [gate_passed]:
  "passed (scope_gate files p) \<longleftrightarrow> list_all (file_admitted p) files"
  by (auto simp: scope_gate_def file_reasons_Nil list_all_iff)

section \<open>Scrum mapping\<close>

definition testable_markers :: "string list" where
  "testable_markers =
     [''must'', ''should'', ''returns'', ''fails'', ''passes'', ''rejects'', ''equals'', ''when'',
      ''then'', ''given'', ''exit code'', ''=='', ''!='']"

definition is_testable :: "string \<Rightarrow> bool" where
  "is_testable criterion =
     (let text = lower (strip criterion) in
      if length text < 3 then False else list_ex (\<lambda>m. contains m text) testable_markers)"

definition scrum_gate :: "scrum_mapping \<Rightarrow> string option \<Rightarrow> gate_result" where
  "scrum_gate m locked =
     gate_of ''scrum_gate''
      (reason_if (s_product_backlog_item_id m = []) ''Product Backlog Item missing''
     @ reason_if (s_sprint_goal m = []) ''Sprint Goal missing''
     @ reason_if (s_sprint_backlog_task_id m = []) ''Sprint Backlog task missing''
     @ (if s_acceptance_criteria m = [] then [''acceptance criteria missing'']
        else reason_if (\<not> list_all is_testable (s_acceptance_criteria m))
               ''acceptance criteria not testable'')
     @ reason_if (s_definition_of_done_version m = []) ''Definition of Done version missing''
     @ reason_if (\<not> s_supports_sprint_goal m) ''task does not support Sprint Goal''
     @ reason_if (locked \<noteq> None \<and> s_definition_of_done_version m \<noteq> []
           \<and> s_definition_of_done_version m \<noteq> the locked)
         ''Definition of Done changed mid-run'')"

lemma scrum_gate_passed [gate_passed]:
  "passed (scrum_gate m locked) \<longleftrightarrow>
     s_product_backlog_item_id m \<noteq> [] \<and> s_sprint_goal m \<noteq> [] \<and> s_sprint_backlog_task_id m \<noteq> []
   \<and> s_acceptance_criteria m \<noteq> [] \<and> list_all is_testable (s_acceptance_criteria m)
   \<and> s_definition_of_done_version m \<noteq> [] \<and> s_supports_sprint_goal m
   \<and> (\<forall>v. locked = Some v \<longrightarrow> s_definition_of_done_version m = v)"
  by (auto simp: scrum_gate_def)

section \<open>Strategic programming\<close>

definition selected_design_reasons :: "strategic_programming \<Rightarrow> string list" where
  "selected_design_reasons review =
     (let selected = strip (sp_selected_design review) in
      if selected = [] then [''selected design not justified'']
      else (case find (\<lambda>d. do_option_id d = selected) (sp_design_options review) of
              None \<Rightarrow> [''selected design not justified'']
            | Some d \<Rightarrow>
                if lower (strip (do_rejected_or_selected d)) \<noteq> ''selected''
                then [''selected design not justified'']
                else if strip (do_tradeoffs d) = [] \<and> strip (do_summary d) = []
                then [''selected design not justified'']
                else []))"

definition strategic_programming_gate :: "strategic_programming \<Rightarrow> gate_result" where
  "strategic_programming_gate r =
     gate_of ''strategic_programming_gate''
      (reason_if (strip (sp_responsibility_owner r) = []) ''responsibility owner unclear''
     @ reason_if (length (sp_design_options r) < 2) ''only one design option considered''
     @ selected_design_reasons r
     @ reason_if (sp_introduces_shallow_passthrough r) ''shallow pass-through layers introduced''
     @ reason_if (sp_complexity_leaks_into_callers r) ''complexity leaks into callers''
     @ reason_if (sp_error_handling_scattered r) ''error handling scattered''
     @ reason_if (sp_invalid_states_unhandled r) ''invalid states not designed out when possible''
     @ reason_if (sp_unjustified_duplication r) ''duplication introduced without justification''
     @ reason_if (sp_increases_change_amplification r) ''avoidable change amplification increased''
     @ reason_if (sp_works_but_harder_to_change r) ''code works but makes future change harder'')"

definition design_justified :: "strategic_programming \<Rightarrow> bool" where
  "design_justified r \<longleftrightarrow>
     (case find (\<lambda>d. do_option_id d = strip (sp_selected_design r)) (sp_design_options r) of
        None \<Rightarrow> False
      | Some d \<Rightarrow> strip (sp_selected_design r) \<noteq> []
          \<and> lower (strip (do_rejected_or_selected d)) = ''selected''
          \<and> (strip (do_tradeoffs d) \<noteq> [] \<or> strip (do_summary d) \<noteq> []))"

lemma strategic_gate_passed [gate_passed]:
  "passed (strategic_programming_gate r) \<longleftrightarrow>
     strip (sp_responsibility_owner r) \<noteq> [] \<and> 2 \<le> length (sp_design_options r)
   \<and> design_justified r
   \<and> \<not> sp_introduces_shallow_passthrough r \<and> \<not> sp_complexity_leaks_into_callers r
   \<and> \<not> sp_error_handling_scattered r \<and> \<not> sp_invalid_states_unhandled r
   \<and> \<not> sp_unjustified_duplication r \<and> \<not> sp_increases_change_amplification r
   \<and> \<not> sp_works_but_harder_to_change r"
  by (auto simp: strategic_programming_gate_def selected_design_reasons_def design_justified_def
      Let_def split: option.splits)

section \<open>Tests\<close>

definition outcome_label :: "test_outcome \<Rightarrow> string" where
  "outcome_label t =
     (if t_command t \<noteq> [] then t_command t
      else if t_output_path t \<noteq> [] then t_output_path t else ''<command>'')"

definition outcome_reasons :: "test_outcome \<Rightarrow> string list" where
  "outcome_reasons t =
     (if t_skipped t \<and> \<not> t_skip_approved t
      then [''required test skipped without approved reason: '' @ outcome_label t]
      else if t_skipped t then []
      else if \<not> t_ran t then [''test result claimed without running: '' @ outcome_label t]
      else reason_if (t_exit_code t = None) (''exit code missing: '' @ outcome_label t)
         @ reason_if (t_output_path t = [])
             (''test result claimed without output: '' @ outcome_label t)
         @ reason_if (t_truncated t)
             (''output truncated so PASS/FAIL cannot be verified: '' @ outcome_label t)
         @ (case t_exit_code t of
              Some c \<Rightarrow> reason_if (c \<noteq> 0)
                (''command failed with exit code '' @ dec_int c @ '': '' @ outcome_label t)
            | None \<Rightarrow> []))"

definition test_gate :: "test_outcome list \<Rightarrow> run_type \<Rightarrow> bool \<Rightarrow> gate_result" where
  "test_gate outcomes run_type tests_applicable =
     gate_of ''test_gate''
      (reason_if (tests_applicable \<and> run_type = RT_IMPLEMENTATION \<and> \<not> list_ex t_ran outcomes)
         ''implementation mode attempts PASS without tests where applicable''
     @ concat (map outcome_reasons outcomes))"

definition outcome_ok :: "test_outcome \<Rightarrow> bool" where
  "outcome_ok t \<longleftrightarrow>
     (if t_skipped t then t_skip_approved t
      else t_ran t \<and> t_exit_code t = Some 0 \<and> t_output_path t \<noteq> [] \<and> \<not> t_truncated t)"

lemma outcome_reasons_Nil: "outcome_reasons t = [] \<longleftrightarrow> outcome_ok t"
  by (auto simp: outcome_reasons_def outcome_ok_def split: option.splits)

lemma test_gate_passed [gate_passed]:
  "passed (test_gate ts rt app) \<longleftrightarrow>
     list_all outcome_ok ts \<and> (app \<and> rt = RT_IMPLEMENTATION \<longrightarrow> list_ex t_ran ts)"
  by (auto simp: test_gate_def outcome_reasons_Nil list_all_iff)

section \<open>Properties\<close>

text \<open>
  C28: the scope gate gives exactly one reason for each changed file that is not admitted, in the
  order of the files, and none for the others; it passes just when every file is admitted: harness
  files only to a framework task, protected and out-of-scope files only by an approved change, all
  others by a pattern of the scope.
\<close>

theorem scope_gate_reports_each_file:
  "list_all2 (\<lambda>reason f. \<exists>why. reason = why @ '': '' @ f)
       (g_reasons (scope_gate files p)) (filter (\<lambda>f. \<not> file_admitted p f) files)
   \<and> (passed (scope_gate files p) \<longleftrightarrow> list_all (file_admitted p) files)"
proof -
  have one: "\<exists>why. file_reasons p f = [why @ '': '' @ f]" if "\<not> file_admitted p f" for f
  proof -
    have "file_reasons p f \<noteq> []" using that by (simp add: file_reasons_Nil)
    then show ?thesis
      by (simp add: file_reasons_def Let_def split: if_splits)
  qed
  have "list_all2 (\<lambda>r f. \<exists>why. r = why @ '': '' @ f) (concat (map (file_reasons p) files))
      (filter (\<lambda>f. \<not> file_admitted p f) files)"
  proof (induction files)
    case (Cons f files)
    show ?case
    proof (cases "file_admitted p f")
      case True
      then show ?thesis using Cons file_reasons_Nil [of p f] by simp
    next
      case False
      then show ?thesis using Cons one [OF False] by auto
    qed
  qed simp
  then show ?thesis
    by (simp add: scope_gate_passed) (simp add: scope_gate_def)
qed

text \<open>
  The model policy gate does not depend on the order in which a manifest lists its models or its
  allowed ids.
\<close>

lemma model_policy_order_free:
  assumes "set ms = set (m_models m)" and "set ids = set (m_allowed_model_ids m)"
  shows "passed (model_policy_gate (m\<lparr>m_models := ms, m_allowed_model_ids := ids\<rparr>))
           = passed (model_policy_gate m)
    \<and> (passed (model_policy_gate m) \<longrightarrow>
         (\<forall>a \<in> set ms. \<forall>b \<in> set ms. ms_role a = MR_CODING_AGENT \<and> ms_role b = MR_VERIFIER
            \<and> ms_model_run_id a \<noteq> [] \<longrightarrow> ms_model_run_id a \<noteq> ms_model_run_id b))"
proof -
  note set = assms(1)
  have nil: "ms = [] \<longleftrightarrow> m_models m = []" by (metis assms(1) set_empty)
  have run_ids: "set (role_run_ids r ms) = set (role_run_ids r (m_models m))" for r
    by (simp add: role_run_ids_def set)
  have ok: "model_ok ids (filter (\<lambda>i. i \<noteq> []) (map ms_model_id ms)) x
      = model_ok (m_allowed_model_ids m) (filter (\<lambda>i. i \<noteq> []) (map ms_model_id (m_models m))) x" for x
    by (simp add: model_ok_def assms(2) set)
  have same: "passed (model_policy_gate (m\<lparr>m_models := ms, m_allowed_model_ids := ids\<rparr>))
      = passed (model_policy_gate m)"
    by (simp add: model_policy_passed nil run_ids list_all_iff ok set)
  show ?thesis
    unfolding same using set
    by (auto simp: model_policy_passed role_run_ids_def)
qed

end
