(* ===== verification/Context.thy ===== *)
theory Context
  imports Storage Gates
begin

text \<open>
  The execution context a chain run threads through its handlers
  (\<open>backend/app/chains/context.py\<close>), with the repository snapshot of the same module, and the
  parameters of the model: what the program gets from its environment.  The context's two
  writers, \<open>record_artifact\<close> and \<open>write_quarantined\<close>, are the only ways a handler touches the
  artifact store; what a run keeps under them is the preorder \<open>evolves\<close>.
\<close>

section \<open>The environment\<close>

text \<open>What \<open>subprocess.run\<close> gives: a finished process, or output so far at the time limit.\<close>

datatype captured = Captured string | CapturedBytes string | NotCaptured

datatype process =
    Finished int string string
  | TimedOut captured captured

text \<open>
  What the analyst model answers, and an adapter: code outside the repository that may change
  the world and may raise.
\<close>

record llm_response =
  lr_text :: string
  lr_tokens_in :: int
  lr_tokens_out :: int

type_synonym llm_adapter = "model_spec \<Rightarrow> string \<Rightarrow> (world, llm_response) comp"

record llm_invocation_record =
  li_invocation_id :: string
  li_model_id :: string
  li_role :: model_role
  li_run_id :: string
  li_task_id :: string
  li_request_hash :: string
  li_response_hash :: string
  li_request_artifact_path :: string
  li_response_artifact_path :: string
  li_tokens_in :: int
  li_tokens_out :: int
  li_latency_ms :: int
  li_rate_limit_status :: string
  li_used_as_evidence :: bool
  li_claimed_status :: string
  li_recorded_by :: string
  li_timestamp :: string

text \<open>The structured output of the analyst (\<open>parsing/structured_parser.py\<close>).\<close>

record analysis_agent_output =
  ao_summary :: string
  ao_risks :: "string list"
  ao_recommended_actions :: "string list"
  ao_confidence :: string

text \<open>
  The parameters: the clock, the two kinds of subprocess, the YAML reader (none for a text that
  parses, the message of its error otherwise), and what Pydantic does with the repository's models:
  validating free-form values and printing models as JSON.
\<close>

record env =
  v_now :: "nat \<Rightarrow> string"
  v_shell :: "string \<Rightarrow> string \<Rightarrow> nat \<Rightarrow> (world, process) comp"
  v_git :: "string \<Rightarrow> string list \<Rightarrow> nat \<Rightarrow> (world, int \<times> string \<times> string) comp"
  v_yaml_error :: "string \<Rightarrow> string option"
  v_checkpoint_json :: "checkpoint \<Rightarrow> string"
  v_invocation_json :: "llm_invocation_record \<Rightarrow> string"
  v_output_json :: "analysis_agent_output \<Rightarrow> string"
  v_strategic :: "json \<Rightarrow> strategic_programming option"
  v_output :: "jdict \<Rightarrow> analysis_agent_output option"
  v_exit_code :: "json \<Rightarrow> int option option"

section \<open>Repository snapshots\<close>

definition snapshot_skip :: "string list" where
  "snapshot_skip = [''.git'', ''__pycache__'', ''.venv'', ''venv'', ''node_modules'']"

text \<open>The files below a directory with their relative paths, as \<open>rglob\<close> finds them.\<close>

definition files_below :: "world \<Rightarrow> ppath \<Rightarrow> (string list \<times> string) list" where
  "files_below w repo =
     (let l = locate w repo in
      map (\<lambda>(f, bytes). (drop (length l) f, bytes)) (filter (\<lambda>(f, _). strict_prefix l f) (w_files w)))"

definition snapshot_repo :: "world \<Rightarrow> ppath \<Rightarrow> (string, string) dict" where
  "snapshot_repo w repo =
     map (\<lambda>(rel, bytes). (py_join ''/'' rel, hash_file bytes))
       (filter (\<lambda>(rel, _). \<not> list_ex (\<lambda>part. part \<in> set snapshot_skip) rel) (files_below w repo))"

text \<open>Dictionaries compare without their order.\<close>

definition same_dict :: "('k, 'v) dict \<Rightarrow> ('k, 'v) dict \<Rightarrow> bool" where
  "same_dict d e \<longleftrightarrow> set d = set e"

section \<open>The context\<close>

text \<open>A tool gets the repository path; its result is checked to be text by the executor.\<close>

record tool =
  tl_name :: string
  tl_run :: "ppath \<Rightarrow> (world, json) comp"
  tl_mutating :: bool

type_synonym tool_registry = "(string, tool) dict"

text \<open>The shared dictionary: one optional field for each key the handlers use.\<close>

record shared =
  sh_files :: "string list option"
  sh_commands :: "jdict option"
  sh_candidate :: "json option"
  sh_reproduction :: "json option"
  sh_agent_raw_output :: "string option"
  sh_analysis_agent :: "analysis_agent_output option"
  sh_ci_failure :: "jdict option"
  sh_ci_failure_category :: "string option"
  sh_tests_not_applicable :: "bool option"

definition no_shared :: shared where
  "no_shared =
     \<lparr>sh_files = None, sh_commands = None, sh_candidate = None, sh_reproduction = None,
      sh_agent_raw_output = None, sh_analysis_agent = None, sh_ci_failure = None,
      sh_ci_failure_category = None, sh_tests_not_applicable = None\<rparr>"

record ctx =
  x_request :: chain_request
  x_store :: artifact_store
  x_evidence :: ledger_writer
  x_world :: world
  x_repo :: ppath
  x_manifest :: "run_manifest option"
  x_scrum :: "scrum_mapping option"
  x_strategic :: "strategic_programming option"
  x_locked_dod :: "string option"
  x_repo_snapshot :: "(string, string) dict"
  x_changed_files :: "json list"
  x_test_outcomes :: "test_outcome list"
  x_coding_agent_run_id :: json
  x_verifier_run_id :: string
  x_verifier_decision :: decision
  x_summary_quarantined :: bool
  x_self_certification_used :: bool
  x_eval_score :: "nat option"
  x_readiness_report :: jdict
  x_findings :: "backlog_finding list"
  x_artifacts :: "artifact list"
  x_shared :: shared
  x_agent_specs :: "model_spec list"
  x_agent_adapters :: "(string, llm_adapter) dict"
  x_tool_registry :: "tool_registry option"
  x_tool_policy :: "tool_registry option"

definition on_world :: "(world, 'a) comp \<Rightarrow> (ctx, 'a) comp" where
  "on_world = zoomC x_world (\<lambda>w. x_world_update (\<lambda>_. w))"

definition on_ledger :: "(ledger_writer \<times> world, 'a) comp \<Rightarrow> (ctx, 'a) comp" where
  "on_ledger =
     zoomC (\<lambda>c. (x_evidence c, x_world c)) (\<lambda>(ew, w) c. c\<lparr>x_evidence := ew, x_world := w\<rparr>)"

definition x_run_id :: "ctx \<Rightarrow> string" where
  "x_run_id c = q_run_id (x_request c)"

definition x_task_id :: "ctx \<Rightarrow> string" where
  "x_task_id c = q_task_id (x_request c)"

definition record_artifact ::
    "env \<Rightarrow> string \<Rightarrow> string \<Rightarrow> artifact_type \<Rightarrow> ledger_result \<Rightarrow> json \<Rightarrow> string
     \<Rightarrow> (ctx, artifact) comp" where
  "record_artifact v name data ty result command recorded_by =
     bindC (getC id) (\<lambda>c.
     bindC (on_world (store_write (v_now v) (x_store c) (x_run_id c) (x_task_id c) name (Text data)
                        (artifact_type_value ty) recorded_by)) (\<lambda>a.
     bindC (on_ledger (ledger_append_artifact (v_now v) a result command)) (\<lambda>_.
     bindC (modC (\<lambda>c. c\<lparr>x_artifacts := x_artifacts c @ [a]\<rparr>)) (\<lambda>_.
     ret a))))"

definition write_quarantined :: "env \<Rightarrow> string \<Rightarrow> string \<Rightarrow> string \<Rightarrow> (ctx, artifact) comp" where
  "write_quarantined v name data recorded_by =
     bindC (getC id) (\<lambda>c.
     on_world (store_write (v_now v) (x_store c) (x_run_id c) (x_task_id c) name (Text data)
                 ''COMMAND_OUTPUT'' recorded_by))"

section \<open>What the two writers do\<close>

lemma on_world_eq: "on_world m c = (case m (x_world c) of (r, w) \<Rightarrow> (r, c\<lparr>x_world := w\<rparr>))"
  by (simp add: on_world_def zoomC_def)

text \<open>The artifact a write returns, the entry the ledger gets for it, and the state after.\<close>

definition artifact_of ::
    "env \<Rightarrow> string \<Rightarrow> string \<Rightarrow> string \<Rightarrow> string \<Rightarrow> ctx \<Rightarrow> artifact" where
  "artifact_of v name data ty by c =
     \<lparr>a_artifact_id = x_run_id c @ '':'' @ name, a_run_id = x_run_id c, a_task_id = x_task_id c,
      a_artifact_type = ty, a_path = str_path (pjoin (run_dir (x_store c) (x_run_id c)) name),
      a_hash = hash_bytes (utf8 data), a_attempt_id = st_attempt_id (x_store c),
      a_created_at = v_now v (w_tick (x_world c)), a_recorded_by = by\<rparr>"

definition entry_of ::
    "env \<Rightarrow> string \<Rightarrow> string \<Rightarrow> artifact_type \<Rightarrow> ledger_result \<Rightarrow> string \<Rightarrow> string \<Rightarrow> ctx \<Rightarrow> ledger_entry" where
  "entry_of v name data ty result command by c =
     \<lparr>e_entry_id = ''E'' @ zero_pad 4 (Suc (ew_counter (x_evidence c))),
      e_timestamp = v_now v (Suc (w_tick (x_world c))), e_artifact_type = ty,
      e_artifact_path = str_path (pjoin (run_dir (x_store c) (x_run_id c)) name),
      e_command = command, e_result = result, e_hash = hash_bytes (utf8 data), e_recorded_by = by\<rparr>"

definition written :: "string \<Rightarrow> string \<Rightarrow> ctx \<Rightarrow> world" where
  "written name data c =
     write_file (pjoin (run_dir (x_store c) (x_run_id c)) name) (utf8 data)
       (make_dirs (run_dir (x_store c) (x_run_id c)) (x_world c))"

lemma write_quarantined_eq:
  "write_quarantined v name data by c =
     (Inr (artifact_of v name data ''COMMAND_OUTPUT'' by c),
      c\<lparr>x_world := (written name data c)\<lparr>w_tick := Suc (w_tick (x_world c))\<rparr>\<rparr>)"
  by (simp add: write_quarantined_def comp_defs on_world_eq store_write_eq artifact_of_def written_def
      del: zoomC_def)

lemma record_artifact_eq:
  "record_artifact v name data ty result (JStr command) by c =
     (Inr (artifact_of v name data (artifact_type_value ty) by c),
      c\<lparr>x_world := (written name data c)\<lparr>w_tick := Suc (Suc (w_tick (x_world c)))\<rparr>,
        x_evidence := push_entry (entry_of v name data ty result command by c)
          ((x_evidence c)\<lparr>ew_counter := Suc (ew_counter (x_evidence c))\<rparr>),
        x_artifacts := x_artifacts c @ [artifact_of v name data (artifact_type_value ty) by c]\<rparr>)"
  by (simp add: record_artifact_def comp_defs on_world_eq on_ledger_def store_write_eq
      ledger_append_artifact_def ledger_append_ok hash_bytes_not_Nil Let_def artifact_of_def
      entry_of_def written_def)

section \<open>What a run keeps\<close>

text \<open>
  The state the harness rests on is in order: the ledger is the one its writer built, it belongs
  to the run, none of its entries is quarantined agent output, every artifact is a hashed one of
  this run and attempt, and no agent certified itself.
\<close>

definition artifact_ok :: "artifact_store \<Rightarrow> string \<Rightarrow> artifact \<Rightarrow> bool" where
  "artifact_ok st run_id a \<longleftrightarrow>
     a_attempt_id a = st_attempt_id st \<and> a_run_id a = run_id \<and> a_hash a \<noteq> []"

definition ctx_ok :: "ctx \<Rightarrow> bool" where
  "ctx_ok c \<longleftrightarrow> ledger_wf (x_evidence c) \<and> list_all entry_ok (l_entries (ew_ledger (x_evidence c)))
     \<and> l_run_id (ew_ledger (x_evidence c)) = x_run_id c
     \<and> l_task_id (ew_ledger (x_evidence c)) = x_task_id c
     \<and> list_all (artifact_ok (x_store c) (x_run_id c)) (x_artifacts c)
     \<and> \<not> x_self_certification_used c"

abbreviation x_entries :: "ctx \<Rightarrow> ledger_entry list" where
  "x_entries c \<equiv> l_entries (ew_ledger (x_evidence c))"

text \<open>
  How any handler may change the context: the ledger and the artifact list grow at their ends,
  and neither the verifier decision nor what identifies the run moves.
\<close>

definition evolves :: "ctx \<Rightarrow> ctx \<Rightarrow> bool" where
  "evolves c d \<longleftrightarrow>
     x_verifier_decision d = x_verifier_decision c
   \<and> x_run_id d = x_run_id c \<and> x_task_id d = x_task_id c
   \<and> q_mode (x_request d) = q_mode (x_request c)
   \<and> q_scope (x_request d) = q_scope (x_request c)
   \<and> x_store d = x_store c \<and> x_repo d = x_repo c \<and> x_repo_snapshot d = x_repo_snapshot c
   \<and> prefix (x_entries c) (x_entries d) \<and> prefix (x_artifacts c) (x_artifacts d)
   \<and> (ctx_ok c \<longrightarrow> ctx_ok d)"

interpretation evolving: state_preorder evolves
  by unfold_locales (auto simp: evolves_def)

text \<open>An update away from the fields the run rests on.\<close>

definition same_core :: "ctx \<Rightarrow> ctx \<Rightarrow> bool" where
  "same_core c d \<longleftrightarrow>
     x_verifier_decision d = x_verifier_decision c \<and> x_run_id d = x_run_id c
   \<and> x_task_id d = x_task_id c \<and> q_mode (x_request d) = q_mode (x_request c)
   \<and> q_scope (x_request d) = q_scope (x_request c)
   \<and> x_store d = x_store c \<and> x_repo d = x_repo c \<and> x_repo_snapshot d = x_repo_snapshot c
   \<and> x_evidence d = x_evidence c \<and> x_artifacts d = x_artifacts c
   \<and> x_self_certification_used d = x_self_certification_used c"

lemma same_core_evolves: "same_core c d \<Longrightarrow> evolves c d"
  by (simp add: same_core_def evolves_def ctx_ok_def)

lemmas core_defs = same_core_def x_run_id_def x_task_id_def

lemma evolves_modC [steps_rules]: "(\<And>c. same_core c (f c)) \<Longrightarrow> steps evolves (modC f)"
  by (rule evolving.steps_modC) (rule same_core_evolves)

lemma evolves_on_world [steps_rules]: "steps evolves (on_world m)"
  by (auto simp: steps_def on_world_eq core_defs intro!: same_core_evolves split: prod.split)

lemma evolves_write_quarantined [steps_rules]: "steps evolves (write_quarantined v name data by)"
  by (auto simp: steps_def write_quarantined_eq core_defs intro!: same_core_evolves)

text \<open>The names a handler may give an evidence artifact.\<close>

definition evidence_name :: "string \<Rightarrow> bool" where
  "evidence_name n \<longleftrightarrow> segment n \<and> plain_name n \<and> n \<notin> set quarantined_basenames"

lemmas evidence_name_defs = evidence_name_def segment_def plain_name_def quarantined_basenames_def

lemma str_path_not_Nil: "segment n \<Longrightarrow> str_path (pjoin p n) \<noteq> []"
  by (simp add: pjoin_segment str_path_snoc segment_def)

lemma record_artifact_entry_ok:
  "evidence_name name \<Longrightarrow> entry_ok (entry_of v name data ty result command by c)"
  by (simp add: entry_ok_def entry_of_def hash_bytes_not_Nil evidence_name_def basename_str_path
      str_path_not_Nil)

lemma evolves_on_ledger:
  assumes "a_hash a \<noteq> []" "a_path a \<noteq> []" "basename (a_path a) \<notin> set quarantined_basenames"
  shows "steps evolves (on_ledger (ledger_append_artifact now a result command))"
proof (rule stepsI)
  fix c r d
  assume "on_ledger (ledger_append_artifact now a result command) c = (r, d)"
  then obtain ew w where d: "d = c\<lparr>x_evidence := ew, x_world := w\<rparr>" and
    app: "ledger_append now (a_artifact_type a) (a_path a) (a_hash a) command result
            (a_recorded_by a) (x_evidence c, x_world c) = (r, (ew, w))"
    by (auto simp: on_ledger_def zoomC_def ledger_append_artifact_def split: prod.splits)
  from app show "evolves c d"
  proof (cases rule: ledger_append_cases)
    case empty
    then show ?thesis using assms by simp
  next
    case invalid
    then show ?thesis by (simp add: d evolves_def ctx_ok_def ledger_wf_count x_run_id_def x_task_id_def)
  next
    case (entry e)
    then have "entry_ok e" using assms by (simp add: entry_ok_def)
    then show ?thesis using entry ledger_wf_append [OF _ app]
      by (auto simp: d evolves_def ctx_ok_def push_entry_def x_run_id_def x_task_id_def)
  qed
qed

lemma evolves_artifact:
  "artifact_ok (x_store c) (x_run_id c) a \<Longrightarrow> evolves c (c\<lparr>x_artifacts := x_artifacts c @ [a]\<rparr>)"
  by (simp add: evolves_def ctx_ok_def x_run_id_def x_task_id_def)

lemma record_artifact_evolves:
  assumes "evidence_name name"
  shows "evolves c (snd (record_artifact v name data ty result command by c))"
proof -
  let ?w = "store_write (v_now v) (x_store c) (x_run_id c) (x_task_id c) name (Text data)
              (artifact_type_value ty) by"
  obtain a d where wrote: "on_world ?w c = (Inr a, d)"
    and a: "a = artifact_of v name data (artifact_type_value ty) by c"
    by (simp add: on_world_eq store_write_eq artifact_of_def)
  have ok: "a_hash a \<noteq> []" "a_path a \<noteq> []" "basename (a_path a) \<notin> set quarantined_basenames"
    using assms by (simp_all add: a artifact_of_def hash_bytes_not_Nil evidence_name_def
        basename_str_path str_path_not_Nil)
  obtain r e where entry: "on_ledger (ledger_append_artifact (v_now v) a result command) d = (r, e)"
    by force
  have "evolves c d" using evolves_on_world wrote by (rule stepsD)
  moreover have "evolves d e" using evolves_on_ledger [OF ok] entry by (rule stepsD)
  ultimately have ce: "evolves c e" by (rule evolving.R_trans)
  then have "artifact_ok (x_store e) (x_run_id e) a"
    using ok(1) by (simp add: artifact_ok_def a artifact_of_def evolves_def)
  then have "evolves c (e\<lparr>x_artifacts := x_artifacts e @ [a]\<rparr>)"
    using ce evolves_artifact by (blast intro: evolving.R_trans)
  then show ?thesis using ce wrote entry
    by (cases r) (simp_all add: record_artifact_def comp_defs)
qed

lemma evolves_record_artifact [steps_rules]:
  "evidence_name name \<Longrightarrow> steps evolves (record_artifact v name data ty result command by)"
  by (simp add: steps_def record_artifact_evolves)

end
