(* ===== verification/Handler_Base.thy ===== *)
theory Handler_Base
  imports Context
begin

text \<open>
  What every handler shares: the authority matrix of \<open>handlers/authority.py\<close>, the handler
  interface, the result builders and the registry of \<open>handlers/base.py\<close>.  A handler is a record
  of its name, type, applicability test and body; a body is a computation on the context.  What
  the harness needs of a body is \<open>handler_ok\<close>: it may change the context only as \<open>evolves\<close>
  allows, and it returns a well-formed result of its own.
\<close>

section \<open>Authority\<close>

record authority =
  au_modify_repo :: bool
  au_decide_pass :: bool
  au_create_pr :: bool
  au_merge :: bool
  au_deploy :: bool

fun AUTHORITY :: "handler_type \<Rightarrow> authority" where
  "AUTHORITY HT_PURE_CHECK =
     \<lparr>au_modify_repo = False, au_decide_pass = False, au_create_pr = False, au_merge = False, au_deploy = False\<rparr>"
| "AUTHORITY HT_READ_ONLY_COMMAND =
     \<lparr>au_modify_repo = False, au_decide_pass = False, au_create_pr = False, au_merge = False, au_deploy = False\<rparr>"
| "AUTHORITY HT_WRITE_COMMAND =
     \<lparr>au_modify_repo = True, au_decide_pass = False, au_create_pr = False, au_merge = False, au_deploy = False\<rparr>"
| "AUTHORITY HT_AGENT_INVOCATION =
     \<lparr>au_modify_repo = True, au_decide_pass = False, au_create_pr = False, au_merge = False, au_deploy = False\<rparr>"
| "AUTHORITY HT_VERIFIER =
     \<lparr>au_modify_repo = False, au_decide_pass = True, au_create_pr = False, au_merge = False, au_deploy = False\<rparr>"
| "AUTHORITY HT_PR_ACTION =
     \<lparr>au_modify_repo = False, au_decide_pass = False, au_create_pr = True, au_merge = False, au_deploy = False\<rparr>"
| "AUTHORITY HT_EVALUATOR =
     \<lparr>au_modify_repo = False, au_decide_pass = False, au_create_pr = False, au_merge = False, au_deploy = False\<rparr>"

definition can_modify_repo :: "handler_type \<Rightarrow> bool" where
  "can_modify_repo t = au_modify_repo (AUTHORITY t)"

definition can_decide_pass :: "handler_type \<Rightarrow> bool" where
  "can_decide_pass t = au_decide_pass (AUTHORITY t)"

definition can_create_pr :: "handler_type \<Rightarrow> bool" where
  "can_create_pr t = au_create_pr (AUTHORITY t)"

definition can_merge :: "handler_type \<Rightarrow> bool" where
  "can_merge t = au_merge (AUTHORITY t)"

definition can_deploy :: "handler_type \<Rightarrow> bool" where
  "can_deploy t = au_deploy (AUTHORITY t)"

definition REPO_WRITE_TYPES :: "handler_type list" where
  "REPO_WRITE_TYPES = [HT_WRITE_COMMAND, HT_AGENT_INVOCATION]"

lemma can_decide_pass_iff: "can_decide_pass t \<longleftrightarrow> t = HT_VERIFIER"
  by (cases t) (simp_all add: can_decide_pass_def)

lemma can_modify_repo_iff: "can_modify_repo t \<longleftrightarrow> t \<in> set REPO_WRITE_TYPES"
  by (cases t) (simp_all add: can_modify_repo_def REPO_WRITE_TYPES_def)

lemma can_create_pr_iff: "can_create_pr t \<longleftrightarrow> t = HT_PR_ACTION"
  by (cases t) (simp_all add: can_create_pr_def)

lemma no_release_authority: "\<not> can_merge t \<and> \<not> can_deploy t"
  by (cases t) (simp_all add: can_merge_def can_deploy_def)

section \<open>Handlers and their results\<close>

type_synonym handler_id = "string \<times> handler_type"

record handler =
  hd_name :: string
  hd_type :: handler_type
  hd_can_handle :: "chain_request \<Rightarrow> bool"
  hd_handle :: "(ctx, handler_result) comp"

text \<open>A subclass sets the two class attributes and defines the body.\<close>

definition handler_class :: "handler_id \<Rightarrow> (ctx, handler_result) comp \<Rightarrow> handler" where
  "handler_class i body =
     \<lparr>hd_name = fst i, hd_type = snd i, hd_can_handle = (\<lambda>_. True), hd_handle = body\<rparr>"

definition ok_result ::
    "handler_id \<Rightarrow> handler_decision \<Rightarrow> string list \<Rightarrow> gate_result list \<Rightarrow> jdict \<Rightarrow> handler_result" where
  "ok_result i decision artifacts gates metadata =
     \<lparr>h_handler_name = fst i, h_handler_type = snd i, h_status = HS_PASS, h_decision = decision,
      h_artifacts_created = artifacts, h_gate_results = gates, h_failure_reasons = [],
      h_required_corrections = [], h_metadata = metadata\<rparr>"

abbreviation ok_plain :: "handler_id \<Rightarrow> handler_result" where
  "ok_plain i \<equiv> ok_result i HD_CONTINUE [] [] []"

abbreviation ok_artifacts :: "handler_id \<Rightarrow> string list \<Rightarrow> handler_result" where
  "ok_artifacts i as \<equiv> ok_result i HD_CONTINUE as [] []"

definition fail_result ::
    "handler_id \<Rightarrow> string list \<Rightarrow> bool \<Rightarrow> gate_result list \<Rightarrow> string list \<Rightarrow> handler_result" where
  "fail_result i reasons blocked gates corrections =
     \<lparr>h_handler_name = fst i, h_handler_type = snd i,
      h_status = (if blocked then HS_BLOCKED else HS_FAIL),
      h_decision = (if blocked then HD_BLOCKED else HD_FAIL),
      h_artifacts_created = [], h_gate_results = gates, h_failure_reasons = reasons,
      h_required_corrections = corrections, h_metadata = []\<rparr>"

abbreviation fail_plain :: "handler_id \<Rightarrow> string list \<Rightarrow> handler_result" where
  "fail_plain i reasons \<equiv> fail_result i reasons False [] []"

abbreviation blocked_plain :: "handler_id \<Rightarrow> string list \<Rightarrow> handler_result" where
  "blocked_plain i reasons \<equiv> fail_result i reasons True [] []"

definition skip_result :: "handler_id \<Rightarrow> string \<Rightarrow> handler_result" where
  "skip_result i reason =
     \<lparr>h_handler_name = fst i, h_handler_type = snd i, h_status = HS_SKIPPED,
      h_decision = HD_SKIP_NOT_APPLICABLE, h_artifacts_created = [], h_gate_results = [],
      h_failure_reasons = [reason], h_required_corrections = [], h_metadata = []\<rparr>"

text \<open>A skip whose reason comes from metadata: a reason that is no string is no valid result.\<close>

definition skip_with :: "handler_id \<Rightarrow> json \<Rightarrow> (ctx, handler_result) comp" where
  "skip_with i reason =
     (case reason of JStr r \<Rightarrow> ret (skip_result i r) | _ \<Rightarrow> throw ValidationError)"

definition gate_reasons :: "gate_result list \<Rightarrow> string list" where
  "gate_reasons gates = concat (map g_reasons (filter (\<lambda>g. \<not> passed g) gates))"

definition from_gates :: "handler_id \<Rightarrow> gate_result list \<Rightarrow> bool \<Rightarrow> handler_result" where
  "from_gates i gates blocked_on_fail =
     (if gate_reasons gates \<noteq> [] then fail_result i (gate_reasons gates) blocked_on_fail gates []
      else ok_result i HD_CONTINUE [] gates [])"

text \<open>The gates of the source give a reason whenever they do not pass.\<close>

definition reasoned :: "gate_result \<Rightarrow> bool" where
  "reasoned g \<longleftrightarrow> (passed g \<longleftrightarrow> g_reasons g = [])"

lemma reasoned_of [simp]: "reasoned (gate_result_of n rs b cs)"
  by (simp add: reasoned_def)

lemma reasoned_gates [simp]:
  "reasoned (no_self_certification_gate c v ca va d n m)"
  "reasoned (evidence_gate l r t req)"
  "reasoned (manifest_gate mf)"
  "reasoned (pr_gate d f)"
  "reasoned (scope_gate fs p)"
  "reasoned (scrum_gate s lk)"
  "reasoned (strategic_programming_gate sp)"
  "reasoned (test_gate ts rt ap)"
  by (simp_all add: no_self_certification_gate_def evidence_gate_def manifest_gate_def pr_gate_def
      scope_gate_def scrum_gate_def strategic_programming_gate_def test_gate_def)

lemma gate_reasons_Nil: "list_all reasoned gates \<Longrightarrow> gate_reasons gates = [] \<longleftrightarrow> list_all passed gates"
  by (auto simp: gate_reasons_def reasoned_def list_all_iff)

lemma from_gates_pass:
  "list_all reasoned gates \<Longrightarrow> h_status (from_gates i gates b) = HS_PASS \<longleftrightarrow> list_all passed gates"
  using gate_reasons_Nil [of gates]
  by (auto simp: from_gates_def fail_result_def ok_result_def)

section \<open>Well-formed results\<close>

text \<open>
  A status and its decision go together, and only a pull-request handler reports a PR status,
  one of the enum's values.
\<close>

fun decision_fits :: "handler_status \<Rightarrow> handler_decision \<Rightarrow> bool" where
  "decision_fits HS_PASS d \<longleftrightarrow> d = HD_CONTINUE \<or> d = HD_STOP"
| "decision_fits HS_FAIL d \<longleftrightarrow> d = HD_FAIL"
| "decision_fits HS_BLOCKED d \<longleftrightarrow> d = HD_BLOCKED"
| "decision_fits HS_SKIPPED d \<longleftrightarrow> d = HD_SKIP_NOT_APPLICABLE"

definition pr_statuses :: "pr_status list" where
  "pr_statuses = [PR_GATED, PR_NOT_REQUIRED, PR_NOT_READY, PR_BLOCKED]"

definition pr_status_of :: "json \<Rightarrow> pr_status option" where
  "pr_status_of v = find (\<lambda>p. JStr (pr_status_value p) = v) pr_statuses"

lemma pr_status_of_value [simp]: "pr_status_of (JStr (pr_status_value p)) = Some p"
  by (cases p) (simp_all add: pr_status_of_def pr_statuses_def)

definition good_result :: "handler_id \<Rightarrow> handler_result \<Rightarrow> bool" where
  "good_result i r \<longleftrightarrow>
     h_handler_name r = fst i \<and> h_handler_type r = snd i
   \<and> decision_fits (h_status r) (h_decision r)
   \<and> (if snd i = HT_PR_ACTION
      then truthy (dget (h_metadata r) ''pr_status'') \<longrightarrow>
             pr_status_of (dget (h_metadata r) ''pr_status'') \<noteq> None
      else dget (h_metadata r) ''pr_status'' = JNull)"

definition handler_ok :: "handler \<Rightarrow> bool" where
  "handler_ok h \<longleftrightarrow>
     steps evolves (hd_handle h) \<and> returns (good_result (hd_name h, hd_type h)) (hd_handle h)"

lemma dget_simps [simp]:
  "dget [] k = JNull"
  "dget ((k', v) # d) k = (if k' = k then v else dget d k)"
  by (simp_all add: dget_def dget_or_def)

lemma good_ok [simp]:
  "good_result i (ok_result i d as gs md) \<longleftrightarrow>
     (d = HD_CONTINUE \<or> d = HD_STOP)
     \<and> (if snd i = HT_PR_ACTION
         then truthy (dget md ''pr_status'') \<longrightarrow> pr_status_of (dget md ''pr_status'') \<noteq> None
         else dget md ''pr_status'' = JNull)"
  by (simp add: good_result_def ok_result_def)

lemma good_fail [simp]: "good_result i (fail_result i rs b gs cs)"
  by (simp add: good_result_def fail_result_def)

lemma good_skip [simp]: "good_result i (skip_result i r)"
  by (simp add: good_result_def skip_result_def)

lemma good_from_gates [simp]: "good_result i (from_gates i gs b)"
  by (simp add: from_gates_def)

lemma returns_skip_with [simp]: "returns (good_result i) (skip_with i r)"
  by (cases r) (simp_all add: skip_with_def)

lemma evolves_skip_with [steps_rules]: "steps evolves (skip_with i r)"
  by (cases r) (simp_all add: skip_with_def evolving.steps_ret evolving.steps_throw)

lemma handler_okI:
  assumes "steps evolves body" and "returns (good_result i) body"
  shows "handler_ok (handler_class i body)"
  using assms by (simp add: handler_ok_def handler_class_def)

section \<open>The registry\<close>

type_synonym handler_registry = "(string, handler) dict"

definition register :: "handler \<Rightarrow> handler_registry \<Rightarrow> handler_registry" where
  "register h reg = dict_set (hd_name h) h reg"

definition registry_get :: "handler_registry \<Rightarrow> string \<Rightarrow> handler option" where
  "registry_get reg n = map_of reg n"

definition registry_has :: "handler_registry \<Rightarrow> string \<Rightarrow> bool" where
  "registry_has reg n \<longleftrightarrow> n \<in> fst ` set reg"

definition registry_names :: "handler_registry \<Rightarrow> string list" where
  "registry_names reg = sort (map fst reg)"

interpretation handlers: kv_store dict_set registry_get
  by unfold_locales (simp_all add: registry_get_def)

definition build_registry :: "handler list \<Rightarrow> handler_registry" where
  "build_registry hs = fold register hs []"

lemma build_registry_fold:
  "fold register hs reg = fold (\<lambda>(k, h). dict_set k h) (map (\<lambda>h. (hd_name h, h)) hs) reg"
  by (induction hs arbitrary: reg) (simp_all add: register_def)

text \<open>Every handler of a list without duplicate names is found under its name, and no other.\<close>

lemma build_registry_get:
  assumes "distinct (map hd_name hs)" and "h \<in> set hs"
  shows "registry_get (build_registry hs) (hd_name h) = Some h"
  unfolding build_registry_def build_registry_fold
  by (rule handlers.get_puts) (use assms in \<open>auto simp: comp_def\<close>)

lemma build_registry_mem:
  assumes "registry_get (build_registry hs) n = Some h"
  shows "h \<in> set hs \<and> hd_name h = n"
proof -
  have "registry_get (fold register hs reg) n = Some h \<Longrightarrow>
      (h \<in> set hs \<and> hd_name h = n) \<or> registry_get reg n = Some h" for reg
    by (induction hs arbitrary: reg)
       (fastforce simp: register_def handlers.get_put_get split: if_splits)+
  then show ?thesis using assms by (force simp: build_registry_def registry_get_def)
qed

lemma handler_class_sel [simp]:
  "hd_name (handler_class i b) = fst i" "hd_type (handler_class i b) = snd i"
  "hd_handle (handler_class i b) = b" "hd_can_handle (handler_class i b) q"
  by (simp_all add: handler_class_def)

lemma pass_fail_if:
  "h_status r = (if P then HS_PASS else HS_FAIL) \<Longrightarrow>
   (h_status r = HS_PASS \<longleftrightarrow> P) \<and> (h_status r = HS_PASS \<or> h_status r = HS_FAIL)"
  by (cases P) simp_all

end
