(* ===== verification/Chains.thy ===== *)
theory Chains
  imports Schemas
begin

text \<open>
  The chain registry (\<open>chains/registry.py\<close>): the ordered handler names of every chain and the
  chain each task type runs.  It is data; nothing in a request can change it.
\<close>

record chain_definition =
  cd_chain_id :: string
  cd_mode :: run_type
  cd_handler_names :: "string list"

definition AI_READINESS_AUDIT_CHAIN :: chain_definition where
  "AI_READINESS_AUDIT_CHAIN =
     \<lparr>cd_chain_id = ''ai_readiness_audit_chain'', cd_mode = RT_READ_ONLY_ANALYSIS, cd_handler_names =
       [''ManifestValidationHandler'', ''ScrumMappingHandler'', ''DefinitionOfDoneLockHandler'',
        ''ScopeValidationHandler'', ''RepoInventoryHandler'', ''CommandDiscoveryHandler'',
        ''CIInventoryHandler'', ''DependencyInventoryHandler'', ''ReadOnlyComplianceHandler'',
        ''AnalysisAgentInvocationHandler'', ''AgentOutputQuarantineHandler'',
        ''StructuredOutputParserHandler'', ''AIReadinessScoringHandler'',
        ''StrategicProgrammingAssessmentHandler'', ''BacklogFindingGeneratorHandler'',
        ''EvidenceGateHandler'', ''AnalysisVerifierHandler'', ''EvaluatorHandler'',
        ''MemoryUpdateHandler'', ''BacklogUpdateHandler'', ''StopOrLoopHandler'']\<rparr>"

definition IMPLEMENTATION_CHAIN :: chain_definition where
  "IMPLEMENTATION_CHAIN =
     \<lparr>cd_chain_id = ''implementation_chain'', cd_mode = RT_IMPLEMENTATION, cd_handler_names =
       [''ManifestValidationHandler'', ''ScrumMappingHandler'', ''DefinitionOfDoneLockHandler'',
        ''ScopeValidationHandler'', ''StrategicDesignGateHandler'', ''AgentInvocationHandler'',
        ''AgentOutputQuarantineHandler'', ''DiffCaptureHandler'', ''TestRunnerHandler'',
        ''StaticCheckHandler'', ''ScopeDiffHandler'', ''EvidenceGateHandler'',
        ''ImplementationVerifierHandler'', ''EvaluatorHandler'', ''MemoryUpdateHandler'',
        ''PRGateHandler'', ''StopOrLoopHandler'']\<rparr>"

definition BUG_FIX_CHAIN :: chain_definition where
  "BUG_FIX_CHAIN =
     \<lparr>cd_chain_id = ''bug_fix_chain'', cd_mode = RT_IMPLEMENTATION, cd_handler_names =
       [''ManifestValidationHandler'', ''ScrumMappingHandler'', ''DefinitionOfDoneLockHandler'',
        ''ScopeValidationHandler'', ''FailureReproductionHandler'',
        ''StrategicDesignGateHandler'', ''AgentInvocationHandler'',
        ''AgentOutputQuarantineHandler'', ''DiffCaptureHandler'', ''TestRunnerHandler'',
        ''StaticCheckHandler'', ''ScopeDiffHandler'', ''EvidenceGateHandler'',
        ''ImplementationVerifierHandler'', ''EvaluatorHandler'', ''MemoryUpdateHandler'',
        ''PRGateHandler'', ''StopOrLoopHandler'']\<rparr>"

definition SECURITY_REVIEW_CHAIN :: chain_definition where
  "SECURITY_REVIEW_CHAIN =
     \<lparr>cd_chain_id = ''security_review_chain'', cd_mode = RT_IMPLEMENTATION, cd_handler_names =
       [''ManifestValidationHandler'', ''ScrumMappingHandler'', ''ScopeValidationHandler'',
        ''SecurityReviewTestsNotApplicableHandler'', ''DiffCaptureHandler'',
        ''SecretScanHandler'', ''DependencyVulnerabilityHandler'', ''AuthChangeRiskHandler'',
        ''InputValidationRiskHandler'', ''EvidenceGateHandler'', ''SecurityVerifierHandler'',
        ''EvaluatorHandler'', ''PRGateHandler'', ''StopOrLoopHandler'']\<rparr>"

definition DEPENDENCY_UPDATE_CHAIN :: chain_definition where
  "DEPENDENCY_UPDATE_CHAIN =
     \<lparr>cd_chain_id = ''dependency_update_chain'', cd_mode = RT_IMPLEMENTATION, cd_handler_names =
       [''ManifestValidationHandler'', ''ScrumMappingHandler'', ''DefinitionOfDoneLockHandler'',
        ''DependencyInventoryHandler'', ''DependencyRiskHandler'', ''LicenseCheckHandler'',
        ''StrategicDesignGateHandler'', ''AgentInvocationHandler'',
        ''AgentOutputQuarantineHandler'', ''DiffCaptureHandler'', ''LockfileValidationHandler'',
        ''TestRunnerHandler'', ''StaticCheckHandler'', ''BuildHandler'',
        ''EvidenceGateHandler'', ''ImplementationVerifierHandler'', ''EvaluatorHandler'',
        ''PRGateHandler'', ''StopOrLoopHandler'']\<rparr>"

definition DOCUMENTATION_UPDATE_CHAIN :: chain_definition where
  "DOCUMENTATION_UPDATE_CHAIN =
     \<lparr>cd_chain_id = ''documentation_update_chain'', cd_mode = RT_IMPLEMENTATION, cd_handler_names =
       [''ManifestValidationHandler'', ''ScrumMappingHandler'', ''DocumentationGapHandler'',
        ''StrategicDesignGateHandler'', ''AgentInvocationHandler'',
        ''AgentOutputQuarantineHandler'', ''DiffCaptureHandler'', ''LinkCheckHandler'',
        ''DocumentationVerifierHandler'', ''EvidenceGateHandler'', ''EvaluatorHandler'',
        ''PRGateHandler'', ''StopOrLoopHandler'']\<rparr>"

definition CI_FAILURE_REPAIR_CHAIN :: chain_definition where
  "CI_FAILURE_REPAIR_CHAIN =
     \<lparr>cd_chain_id = ''ci_failure_repair_chain'', cd_mode = RT_IMPLEMENTATION, cd_handler_names =
       [''ManifestValidationHandler'', ''ScrumMappingHandler'', ''CIFailureLogParserHandler'',
        ''FailureClassificationHandler'', ''ReproductionHandler'',
        ''StrategicDesignGateHandler'', ''AgentInvocationHandler'',
        ''AgentOutputQuarantineHandler'', ''DiffCaptureHandler'', ''TestRunnerHandler'',
        ''CIConfigValidationHandler'', ''EvidenceGateHandler'',
        ''ImplementationVerifierHandler'', ''EvaluatorHandler'', ''PRGateHandler'',
        ''StopOrLoopHandler'']\<rparr>"

text \<open>Keyed by chain id, as the comprehension over the definitions builds it.\<close>

definition CHAIN_DEFINITIONS :: "(string, chain_definition) dict" where
  "CHAIN_DEFINITIONS =
     map (\<lambda>d. (cd_chain_id d, d))
       [AI_READINESS_AUDIT_CHAIN, IMPLEMENTATION_CHAIN, BUG_FIX_CHAIN, SECURITY_REVIEW_CHAIN,
        DEPENDENCY_UPDATE_CHAIN, DOCUMENTATION_UPDATE_CHAIN, CI_FAILURE_REPAIR_CHAIN]"

definition TASK_TYPE_TO_CHAIN :: "(string, string) dict" where
  "TASK_TYPE_TO_CHAIN =
     [(task_type_value TT_AI_READINESS_AUDIT, ''ai_readiness_audit_chain''),
      (task_type_value TT_IMPLEMENTATION, ''implementation_chain''),
      (task_type_value TT_BUG_FIX, ''bug_fix_chain''),
      (task_type_value TT_SECURITY_REVIEW, ''security_review_chain''),
      (task_type_value TT_DEPENDENCY_UPDATE, ''dependency_update_chain''),
      (task_type_value TT_DOCUMENTATION_UPDATE, ''documentation_update_chain''),
      (task_type_value TT_CI_FAILURE_REPAIR, ''ci_failure_repair_chain''),
      (task_type_value TT_REFACTOR, ''implementation_chain''),
      (task_type_value TT_TEST_COVERAGE_EXPANSION, ''implementation_chain'')]"

definition resolve_chain :: "string \<Rightarrow> chain_definition option" where
  "resolve_chain task_type =
     (case map_of TASK_TYPE_TO_CHAIN task_type of
        None \<Rightarrow> None
      | Some chain_id \<Rightarrow> map_of CHAIN_DEFINITIONS chain_id)"

lemmas chain_defs = AI_READINESS_AUDIT_CHAIN_def IMPLEMENTATION_CHAIN_def BUG_FIX_CHAIN_def
  SECURITY_REVIEW_CHAIN_def DEPENDENCY_UPDATE_CHAIN_def DOCUMENTATION_UPDATE_CHAIN_def
  CI_FAILURE_REPAIR_CHAIN_def

lemmas resolve_defs = resolve_chain_def TASK_TYPE_TO_CHAIN_def CHAIN_DEFINITIONS_def

text \<open>Every member of the enum is routed, to the chain of its name.\<close>

fun chain_of :: "task_type \<Rightarrow> chain_definition" where
  "chain_of TT_AI_READINESS_AUDIT = AI_READINESS_AUDIT_CHAIN"
| "chain_of TT_IMPLEMENTATION = IMPLEMENTATION_CHAIN"
| "chain_of TT_BUG_FIX = BUG_FIX_CHAIN"
| "chain_of TT_SECURITY_REVIEW = SECURITY_REVIEW_CHAIN"
| "chain_of TT_DEPENDENCY_UPDATE = DEPENDENCY_UPDATE_CHAIN"
| "chain_of TT_DOCUMENTATION_UPDATE = DOCUMENTATION_UPDATE_CHAIN"
| "chain_of TT_CI_FAILURE_REPAIR = CI_FAILURE_REPAIR_CHAIN"
| "chain_of TT_REFACTOR = IMPLEMENTATION_CHAIN"
| "chain_of TT_TEST_COVERAGE_EXPANSION = IMPLEMENTATION_CHAIN"

lemma resolve_task_type: "resolve_chain (task_type_value t) = Some (chain_of t)"
  by (cases t) (simp_all add: resolve_defs chain_defs)

end
