(* ===== verification/Executor.thy ===== *)
theory Executor
  imports Handler_Base Chains
begin

text \<open>
  The chain executor (\<open>chains/chain_executor.py\<close>), generic in the handler registry: the loop
  over the registered handler names, the authority checks around each handler, the checkpoint
  after it and the decision at the end.  The locale \<open>harness\<close> states what the executor
  needs of the registered handlers and proves what it then guarantees whatever they do.
\<close>

section \<open>One handler\<close>

definition status_decision :: "handler_status \<Rightarrow> decision option" where
  "status_decision s =
     (case s of HS_PASS \<Rightarrow> Some D_PASS | HS_FAIL \<Rightarrow> Some D_FAIL | HS_BLOCKED \<Rightarrow> Some D_BLOCKED
      | HS_SKIPPED \<Rightarrow> None)"

definition authority_violation :: "string \<Rightarrow> handler_type \<Rightarrow> handler_result" where
  "authority_violation name t =
     \<lparr>h_handler_name = name, h_handler_type = t, h_status = HS_BLOCKED, h_decision = HD_BLOCKED,
      h_artifacts_created = [], h_gate_results = [],
      h_failure_reasons =
        [''authority violation: '' @ handler_type_value t @ '' modified the repository''],
      h_required_corrections = [], h_metadata = []\<rparr>"

definition repo_unchanged :: "ctx \<Rightarrow> bool" where
  "repo_unchanged c \<longleftrightarrow> same_dict (snapshot_repo (x_world c) (x_repo c)) (x_repo_snapshot c)"

definition enforce_no_repo_mutation :: "handler_type \<Rightarrow> ctx \<Rightarrow> handler_result \<Rightarrow> handler_result" where
  "enforce_no_repo_mutation t c result =
     (if can_modify_repo t \<or> \<not> path_exists (x_world c) (x_repo c) then result
      else if \<not> repo_unchanged c then authority_violation (h_handler_name result) t
      else result)"

definition next_pr_status :: "handler_result \<Rightarrow> pr_status \<Rightarrow> pr_status res" where
  "next_pr_status result current =
     (let value = dget (h_metadata result) ''pr_status'' in
      if truthy value
      then (case pr_status_of value of
              None \<Rightarrow> Inl (ValueError (py_str value @ '' is not a valid PrStatus''))
            | Some p \<Rightarrow> Inr p)
      else Inr current)"

definition checkpoint_name :: "nat \<Rightarrow> string \<Rightarrow> string" where
  "checkpoint_name index handler_name =
     ''checkpoint_'' @ zero_pad 2 index @ ''_'' @ handler_name @ ''.json''"

definition checkpoint_of :: "ctx \<Rightarrow> string \<Rightarrow> handler_result \<Rightarrow> checkpoint" where
  "checkpoint_of c handler_name result =
     (new_checkpoint (x_run_id c) ''EXECUTE_CHAIN'')
       \<lparr>k_task_id := x_task_id c, k_next_action := handler_name,
        k_verifier_decision := x_verifier_decision c, k_gate_results := h_gate_results result\<rparr>"

definition checkpoint_step :: "env \<Rightarrow> nat \<Rightarrow> string \<Rightarrow> handler_result \<Rightarrow> (ctx, artifact) comp" where
  "checkpoint_step v index handler_name result =
     bindC (getC id) (\<lambda>c.
     on_world (write_checkpoint (v_now v) (v_checkpoint_json v) (x_store c)
                 (checkpoint_of c handler_name result) (checkpoint_name index handler_name)
                 ''executor''))"

definition deferred_result :: "string \<Rightarrow> handler_result" where
  "deferred_result name =
     \<lparr>h_handler_name = name, h_handler_type = HT_PURE_CHECK, h_status = HS_BLOCKED,
      h_decision = HD_BLOCKED, h_artifacts_created = [], h_gate_results = [],
      h_failure_reasons = [''handler not implemented: '' @ name @ '' (deferred)''],
      h_required_corrections = [], h_metadata = []\<rparr>"

lemma deferred_blocked: "h_status (deferred_result n) = HS_BLOCKED"
  by (simp add: deferred_result_def)

definition inapplicable_result :: "string \<Rightarrow> handler_type \<Rightarrow> handler_result" where
  "inapplicable_result name t =
     \<lparr>h_handler_name = name, h_handler_type = t, h_status = HS_SKIPPED,
      h_decision = HD_SKIP_NOT_APPLICABLE, h_artifacts_created = [], h_gate_results = [],
      h_failure_reasons = [''handler not applicable''], h_required_corrections = [],
      h_metadata = []\<rparr>"

definition handler_outcome :: "handler \<Rightarrow> string \<Rightarrow> (ctx, handler_result) comp" where
  "handler_outcome h name =
     bindC (getC x_request) (\<lambda>q.
     if \<not> hd_can_handle h q then ret (inapplicable_result name (hd_type h))
     else
       bindC (hd_handle h) (\<lambda>result.
       bindC (getC id) (\<lambda>c.
       ret (enforce_no_repo_mutation (hd_type h) c result))))"

text \<open>Only a handler type that may decide PASS moves the verifier decision.\<close>

definition decide :: "handler_type \<Rightarrow> handler_result \<Rightarrow> ctx \<Rightarrow> ctx" where
  "decide t result c =
     (case status_decision (h_status result) of
        Some d \<Rightarrow> if can_decide_pass t then c\<lparr>x_verifier_decision := d\<rparr> else c
      | None \<Rightarrow> c)"

text \<open>The body of the loop up to its exits.\<close>

definition handler_step ::
    "env \<Rightarrow> handler_registry \<Rightarrow> nat \<Rightarrow> string \<Rightarrow> pr_status \<Rightarrow> (ctx, handler_result \<times> pr_status) comp" where
  "handler_step v reg index name pr =
     (case registry_get reg name of
        None \<Rightarrow>
          bindC (checkpoint_step v index name (deferred_result name)) (\<lambda>_.
          ret (deferred_result name, pr))
      | Some h \<Rightarrow>
          bindC (handler_outcome h name) (\<lambda>result.
          bindC (modC (decide (hd_type h) result)) (\<lambda>_.
          bindC (liftC (next_pr_status result pr)) (\<lambda>pr'.
          bindC (checkpoint_step v index name result) (\<lambda>_.
          ret (result, pr'))))))"

section \<open>The loop and the result\<close>

record loop_state =
  lo_results :: "handler_result list"
  lo_pr_status :: pr_status
  lo_final_status :: final_status
  lo_stopped :: bool

primrec run_handlers ::
    "env \<Rightarrow> handler_registry \<Rightarrow> (nat \<times> string) list \<Rightarrow> loop_state \<Rightarrow> (ctx, loop_state) comp" where
  "run_handlers v reg [] st = ret st"
| "run_handlers v reg (x # xs) st =
     bindC (handler_step v reg (fst x) (snd x) (lo_pr_status st)) (\<lambda>(result, pr).
     let st' = st\<lparr>lo_results := lo_results st @ [result], lo_pr_status := pr\<rparr> in
     case h_decision result of
       HD_FAIL \<Rightarrow> ret (st'\<lparr>lo_final_status := FS_FAIL, lo_stopped := True\<rparr>)
     | HD_BLOCKED \<Rightarrow> ret (st'\<lparr>lo_final_status := FS_BLOCKED, lo_stopped := True\<rparr>)
     | HD_STOP \<Rightarrow> ret st'
     | _ \<Rightarrow> run_handlers v reg xs st')"

definition start_loop :: loop_state where
  "start_loop =
     \<lparr>lo_results = [], lo_pr_status = PR_NOT_REQUIRED, lo_final_status = FS_PASS, lo_stopped = False\<rparr>"

definition final_status_of :: "loop_state \<Rightarrow> decision \<Rightarrow> final_status" where
  "final_status_of st d =
     (if lo_stopped st then lo_final_status st
      else if d = D_PASS then FS_PASS else if d = D_FAIL then FS_FAIL else FS_BLOCKED)"

definition run_chain ::
    "env \<Rightarrow> handler_registry \<Rightarrow> chain_definition \<Rightarrow> (ctx, chain_result) comp" where
  "run_chain v reg chain =
     bindC (run_handlers v reg (enumerate 0 (cd_handler_names chain)) start_loop) (\<lambda>st.
     bindC (getC id) (\<lambda>c.
     ret \<lparr>r_run_id = x_run_id c, r_task_id = x_task_id c,
          r_task_type = task_type_value (q_task_type (x_request c)),
          r_chain_id = cd_chain_id chain, r_mode = q_mode (x_request c),
          r_handler_results = lo_results st,
          r_final_status = final_status_of st (x_verifier_decision c),
          r_verifier_decision = x_verifier_decision c, r_eval_score = x_eval_score c,
          r_pr_status = lo_pr_status st,
          r_agent_self_certification_used = x_self_certification_used c,
          r_auto_merge = False, r_auto_deploy = False,
          r_evidence_artifacts = x_artifacts c\<rparr>))"

definition blocked_result :: "chain_request \<Rightarrow> string \<Rightarrow> chain_result" where
  "blocked_result q chain_id =
     \<lparr>r_run_id = q_run_id q, r_task_id = q_task_id q, r_task_type = task_type_value (q_task_type q),
      r_chain_id = chain_id, r_mode = q_mode q, r_handler_results = [],
      r_final_status = FS_BLOCKED, r_verifier_decision = D_BLOCKED, r_eval_score = None,
      r_pr_status = PR_BLOCKED, r_agent_self_certification_used = False, r_auto_merge = False,
      r_auto_deploy = False, r_evidence_artifacts = []\<rparr>"

text \<open>What the caller hands to the executor besides the request.\<close>

record services =
  sv_store :: artifact_store
  sv_repo :: ppath
  sv_manifest :: "run_manifest option"
  sv_scrum :: "scrum_mapping option"
  sv_agent_specs :: "model_spec list"
  sv_agent_adapters :: "(string, llm_adapter) dict"
  sv_tool_registry :: "tool_registry option"
  sv_tool_policy :: "tool_registry option"

definition start_context :: "chain_request \<Rightarrow> services \<Rightarrow> world \<Rightarrow> ctx" where
  "start_context q sv w =
     \<lparr>x_request = q, x_store = sv_store sv,
      x_evidence = new_ledger_writer (q_task_id q) (q_run_id q), x_world = w, x_repo = sv_repo sv,
      x_manifest = sv_manifest sv, x_scrum = sv_scrum sv, x_strategic = None, x_locked_dod = None,
      x_repo_snapshot = (if path_exists w (sv_repo sv) then snapshot_repo w (sv_repo sv) else []),
      x_changed_files = [], x_test_outcomes = [], x_coding_agent_run_id = JStr [],
      x_verifier_run_id = [], x_verifier_decision = D_PENDING, x_summary_quarantined = False,
      x_self_certification_used = False, x_eval_score = None, x_readiness_report = [],
      x_findings = [], x_artifacts = [], x_shared = no_shared,
      x_agent_specs = sv_agent_specs sv, x_agent_adapters = sv_agent_adapters sv,
      x_tool_registry = sv_tool_registry sv, x_tool_policy = sv_tool_policy sv\<rparr>"

definition execute ::
    "env \<Rightarrow> handler_registry \<Rightarrow> chain_request \<Rightarrow> services \<Rightarrow> (world, chain_result) comp" where
  "execute v reg q sv = (\<lambda>w.
     case resolve_chain (task_type_value (q_task_type q)) of
       None \<Rightarrow> (Inr (blocked_result q []), w)
     | Some chain \<Rightarrow>
         (case run_chain v reg chain (start_context q sv w) of (r, c) \<Rightarrow> (r, x_world c)))"

section \<open>What a whole run keeps\<close>

text \<open>Like \<open>evolves\<close>, but the harness may set the verifier decision.\<close>

definition progress :: "ctx \<Rightarrow> ctx \<Rightarrow> bool" where
  "progress c d \<longleftrightarrow>
     x_run_id d = x_run_id c \<and> x_task_id d = x_task_id c
   \<and> q_mode (x_request d) = q_mode (x_request c) \<and> q_scope (x_request d) = q_scope (x_request c)
   \<and> x_store d = x_store c \<and> x_repo d = x_repo c \<and> x_repo_snapshot d = x_repo_snapshot c
   \<and> prefix (x_entries c) (x_entries d) \<and> prefix (x_artifacts c) (x_artifacts d)
   \<and> (ctx_ok c \<longrightarrow> ctx_ok d)"

interpretation progressing: state_preorder progress
  by unfold_locales (auto simp: progress_def)

lemma evolves_progress: "evolves c d \<Longrightarrow> progress c d"
  by (simp add: evolves_def progress_def)

lemma progress_evolves [steps_rules]: "steps evolves m \<Longrightarrow> steps progress m"
  by (simp add: steps_def evolves_progress)

lemma progress_decide: "progress c (decide t r c)"
  by (auto simp: decide_def progress_def ctx_ok_def x_run_id_def x_task_id_def
      split: option.split)

lemma evolves_checkpoint [steps_rules]: "steps evolves (checkpoint_step v i n r)"
  by (auto simp: checkpoint_step_def intro!: steps_rules)

text \<open>The verifier decision as the results of the run determine it.\<close>

definition verdict_step :: "handler_result \<Rightarrow> decision \<Rightarrow> decision" where
  "verdict_step r d =
     (if h_handler_type r = HT_VERIFIER
      then (case status_decision (h_status r) of Some d' \<Rightarrow> d' | None \<Rightarrow> d) else d)"

definition verdict :: "handler_result list \<Rightarrow> decision" where
  "verdict rs = fold verdict_step rs D_PENDING"

definition halting :: "handler_result \<Rightarrow> bool" where
  "halting r \<longleftrightarrow> h_decision r = HD_FAIL \<or> h_decision r = HD_BLOCKED \<or> h_decision r = HD_STOP"

text \<open>A verdict of PASS was given by a verifier that passed.\<close>

lemma verdict_from_PASS:
  "fold verdict_step rs d = D_PASS \<Longrightarrow> d \<noteq> D_PASS \<Longrightarrow>
   \<exists>r \<in> set rs. h_handler_type r = HT_VERIFIER \<and> h_status r = HS_PASS"
proof (induction rs arbitrary: d)
  case Nil
  then show ?case by simp
next
  case (Cons r rs)
  show ?case
  proof (cases "verdict_step r d = D_PASS")
    case True
    with Cons.prems(2) have "h_handler_type r = HT_VERIFIER \<and> h_status r = HS_PASS"
      by (cases "h_status r") (auto simp: verdict_step_def status_decision_def split: if_splits)
    then show ?thesis by auto
  next
    case False
    with Cons show ?thesis by fastforce
  qed
qed

lemma verdict_PASS:
  "verdict rs = D_PASS \<Longrightarrow> \<exists>r \<in> set rs. h_handler_type r = HT_VERIFIER \<and> h_status r = HS_PASS"
  using verdict_from_PASS [of rs D_PENDING] by (simp add: verdict_def)

text \<open>The final status a stopping result forces, and the one the verdict gives otherwise.\<close>

definition exit_status :: "handler_result list \<Rightarrow> final_status option" where
  "exit_status rs =
     (if rs = [] then None
      else case h_decision (last rs) of
        HD_FAIL \<Rightarrow> Some FS_FAIL | HD_BLOCKED \<Rightarrow> Some FS_BLOCKED | _ \<Rightarrow> None)"

definition outcome_of :: "handler_result list \<Rightarrow> final_status" where
  "outcome_of rs =
     (case exit_status rs of
        Some f \<Rightarrow> f
      | None \<Rightarrow> (if verdict rs = D_PASS then FS_PASS else if verdict rs = D_FAIL then FS_FAIL
                 else FS_BLOCKED))"

text \<open>
  What a run of the loop from \<open>st\<close> in \<open>c\<close> to \<open>st'\<close> in \<open>d\<close> has done: new results for a prefix of the
  handlers, none of them halting but perhaps the last, the decision as the results give it.
\<close>

definition loop_results ::
    "(nat \<times> string) list \<Rightarrow> loop_state \<Rightarrow> ctx \<Rightarrow> loop_state \<Rightarrow> ctx \<Rightarrow> handler_result list \<Rightarrow> bool" where
  "loop_results xs st c st' d rs \<longleftrightarrow>
     lo_results st' = lo_results st @ rs
   \<and> map h_handler_name rs = take (length rs) (map snd xs)
   \<and> list_all (\<lambda>r. decision_fits (h_status r) (h_decision r)) rs
   \<and> list_all (\<lambda>r. \<not> halting r) (butlast rs)
   \<and> (length rs < length xs \<longrightarrow> rs \<noteq> [] \<and> halting (last rs))
   \<and> x_verifier_decision d = fold verdict_step rs (x_verifier_decision c)
   \<and> progress c d
   \<and> (case exit_status rs of
        Some f \<Rightarrow> lo_stopped st' \<and> lo_final_status st' = f
      | None \<Rightarrow> lo_stopped st' = lo_stopped st \<and> lo_final_status st' = lo_final_status st)"

text \<open>The type a name is registered with, and chains that report a PR only after their verifiers.\<close>

definition type_in :: "handler_registry \<Rightarrow> string \<Rightarrow> handler_type option" where
  "type_in reg n = map_option hd_type (registry_get reg n)"

fun verifiers_first :: "handler_registry \<Rightarrow> string list \<Rightarrow> bool" where
  "verifiers_first reg [] \<longleftrightarrow> True"
| "verifiers_first reg (n # ns) \<longleftrightarrow>
     (type_in reg n = Some HT_PR_ACTION \<longrightarrow> list_all (\<lambda>m. type_in reg m \<noteq> Some HT_VERIFIER) ns)
     \<and> verifiers_first reg ns"

section \<open>The contract of the harness\<close>

text \<open>
  What the executor relies on: the handlers of its registry are well behaved and carry the name
  they are registered under, and one reports a gated PR only where the verifier has passed.
\<close>

locale harness =
  fixes v :: env and reg :: handler_registry
  assumes registered: "registry_get reg n = Some h \<Longrightarrow> handler_ok h \<and> hd_name h = n"
    and gated_after_pass: "registry_get reg n = Some h \<Longrightarrow> hd_handle h c = (Inr r, d) \<Longrightarrow>
      pr_status_of (dget (h_metadata r) ''pr_status'') = Some PR_GATED \<Longrightarrow> x_verifier_decision c = D_PASS"
begin

lemma handle_spec:
  assumes "registry_get reg n = Some h" and "hd_handle h c = (Inr r, d)"
  shows "evolves c d" and "good_result (n, hd_type h) r"
  using registered [OF assms(1)] assms(2)
  by (auto simp: handler_ok_def dest: stepsD returnsD)

lemma outcome_spec:
  assumes reg: "registry_get reg n = Some h" and run: "handler_outcome h n c = (Inr r, d)"
  shows "evolves c d" and "good_result (n, hd_type h) r"
    and "pr_status_of (dget (h_metadata r) ''pr_status'') = Some PR_GATED \<Longrightarrow> x_verifier_decision c = D_PASS"
    and "\<not> can_modify_repo (hd_type h) \<Longrightarrow> path_exists (x_world d) (x_repo d) \<Longrightarrow>
           hd_can_handle h (x_request c) \<Longrightarrow> repo_unchanged d \<or> r = authority_violation n (hd_type h)"
proof -
  have "evolves c d \<and> good_result (n, hd_type h) r
    \<and> (pr_status_of (dget (h_metadata r) ''pr_status'') = Some PR_GATED \<longrightarrow> x_verifier_decision c = D_PASS)
    \<and> (\<not> can_modify_repo (hd_type h) \<and> path_exists (x_world d) (x_repo d)
       \<and> hd_can_handle h (x_request c) \<longrightarrow> repo_unchanged d \<or> r = authority_violation n (hd_type h))"
  proof (cases "hd_can_handle h (x_request c)")
    case False
    then show ?thesis using run
      by (auto simp: handler_outcome_def comp_defs inapplicable_result_def good_result_def
          pr_status_of_def pr_statuses_def evolving.R_refl)
  next
    case True
    then obtain r0 where r0: "hd_handle h c = (Inr r0, d)"
      and r: "r = enforce_no_repo_mutation (hd_type h) d r0"
      using run by (auto simp: handler_outcome_def elim!: bindC_Inr_E)
    have "evolves c d" and good: "good_result (n, hd_type h) r0"
      using handle_spec [OF reg r0] by auto
    moreover have "h_handler_name r0 = n" using good by (simp add: good_result_def)
    ultimately show ?thesis using gated_after_pass [OF reg r0] True
      by (auto simp: r enforce_no_repo_mutation_def authority_violation_def good_result_def
          pr_status_of_def pr_statuses_def)
  qed
  then show "evolves c d" "good_result (n, hd_type h) r"
    "pr_status_of (dget (h_metadata r) ''pr_status'') = Some PR_GATED \<Longrightarrow> x_verifier_decision c = D_PASS"
    "\<not> can_modify_repo (hd_type h) \<Longrightarrow> path_exists (x_world d) (x_repo d) \<Longrightarrow>
       hd_can_handle h (x_request c) \<Longrightarrow> repo_unchanged d \<or> r = authority_violation n (hd_type h)"
    by blast+
qed

lemma step_spec:
  assumes "handler_step v reg i n pr c = (Inr (r, pr'), d)"
  shows "h_handler_name r = n \<and> decision_fits (h_status r) (h_decision r) \<and> progress c d
    \<and> x_verifier_decision d = verdict_step r (x_verifier_decision c)
    \<and> (pr' = PR_GATED \<longrightarrow> pr = PR_GATED \<or> x_verifier_decision c = D_PASS \<and> h_handler_type r = HT_PR_ACTION)
    \<and> (type_in reg n = Some (h_handler_type r) \<or> type_in reg n = None \<and> h_handler_type r = HT_PURE_CHECK)"
proof (cases "registry_get reg n")
  case None
  then have "r = deferred_result n" "pr' = pr" "evolves c d"
    using assms
    by (auto simp: handler_step_def elim!: bindC_Inr_E intro: stepsD [OF evolves_checkpoint])
  then show ?thesis
    using None
    by (auto simp: deferred_result_def verdict_step_def evolves_progress type_in_def)
       (simp add: evolves_def)
next
  case (Some h)
  then obtain e where out: "handler_outcome h n c = (Inr r, e)"
    and pr: "next_pr_status r pr = Inr pr'"
    and cp: "evolves (decide (hd_type h) r e) d"
    using assms
    by (auto simp: handler_step_def elim!: bindC_Inr_E dest: stepsD [OF evolves_checkpoint])
  note spec = outcome_spec [OF Some out]
  have type: "h_handler_type r = hd_type h" and name: "h_handler_name r = n"
    and fits: "decision_fits (h_status r) (h_decision r)"
    using spec(2) by (auto simp: good_result_def)
  have "progress c d"
    using evolves_progress [OF spec(1)] progress_decide evolves_progress [OF cp]
    by (blast intro: progressing.R_trans)
  moreover have "x_verifier_decision d = verdict_step r (x_verifier_decision c)"
    using spec(1) cp
    by (auto simp: evolves_def decide_def verdict_step_def type can_decide_pass_iff split: option.splits)
  moreover have "pr' = PR_GATED \<longrightarrow> pr = PR_GATED \<or> x_verifier_decision c = D_PASS \<and> h_handler_type r = HT_PR_ACTION"
    using pr spec(2,3)
    by (auto simp: next_pr_status_def Let_def good_result_def type split: if_splits option.splits)
  ultimately show ?thesis using name fits Some type by (simp add: type_in_def)
qed

lemma loop_spec:
  "run_handlers v reg xs st c = (Inr st', d) \<Longrightarrow> \<exists>rs. loop_results xs st c st' d rs"
proof (induction xs arbitrary: st c)
  case Nil
  then show ?case
    by (intro exI [of _ "[]"]) (simp add: loop_results_def exit_status_def progressing.R_refl)
next
  case (Cons x xs)
  from Cons.prems obtain r pr e where step: "handler_step v reg (fst x) (snd x) (lo_pr_status st) c = (Inr (r, pr), e)"
    and rest: "(let st1 = st\<lparr>lo_results := lo_results st @ [r], lo_pr_status := pr\<rparr> in
     case h_decision r of
       HD_FAIL \<Rightarrow> ret (st1\<lparr>lo_final_status := FS_FAIL, lo_stopped := True\<rparr>)
     | HD_BLOCKED \<Rightarrow> ret (st1\<lparr>lo_final_status := FS_BLOCKED, lo_stopped := True\<rparr>)
     | HD_STOP \<Rightarrow> ret st1
     | _ \<Rightarrow> run_handlers v reg xs st1) e = (Inr st', d)"
    by (auto elim!: bindC_Inr_E)
  note spec = step_spec [OF step]
  show ?case
  proof (cases "halting r")
    case True
    then have "d = e" using rest by (auto simp: halting_def Let_def)
    then show ?thesis using True rest spec
      by (intro exI [of _ "[r]"])
         (auto simp: loop_results_def exit_status_def halting_def Let_def)
  next
    case False
    let ?st1 = "st\<lparr>lo_results := lo_results st @ [r], lo_pr_status := pr\<rparr>"
    have "run_handlers v reg xs ?st1 e = (Inr st', d)"
      using False rest by (cases "h_decision r") (auto simp: halting_def Let_def)
    then obtain rs where rs: "loop_results xs ?st1 e st' d rs" using Cons.IH by blast
    have exit: "exit_status (r # rs) = exit_status rs"
      using False by (cases "h_decision r") (auto simp: exit_status_def halting_def)
    have "loop_results (x # xs) st c st' d (r # rs)"
      using rs spec False
      by (auto simp: loop_results_def exit intro: progressing.R_trans split: option.splits)
    then show ?thesis by blast
  qed
qed

text \<open>
  Every result comes from running the handler registered under its name, or says that there is
  none, in a context the run has reached.
\<close>

definition result_of :: "ctx \<Rightarrow> ctx \<Rightarrow> handler_result \<Rightarrow> bool" where
  "result_of c c' r \<longleftrightarrow> progress c c' \<and>
     (case registry_get reg (h_handler_name r) of
        None \<Rightarrow> r = deferred_result (h_handler_name r)
      | Some h \<Rightarrow> \<exists>d'. handler_outcome h (h_handler_name r) c' = (Inr r, d'))"

lemma step_result:
  assumes "handler_step v reg i n pr c = (Inr (r, pr'), d)"
  shows "result_of c c r"
proof -
  have "h_handler_name r = n" using step_spec [OF assms] by simp
  then show ?thesis using assms
    by (cases "registry_get reg n")
       (auto simp: result_of_def handler_step_def progressing.R_refl elim!: bindC_Inr_E)
qed

lemma loop_trace:
  assumes "run_handlers v reg xs st c = (Inr st', d)" and "r \<in> set (lo_results st')"
    and "r \<notin> set (lo_results st)"
  shows "\<exists>c'. result_of c c' r"
  using assms
proof (induction xs arbitrary: st c)
  case Nil
  then show ?case by simp
next
  case (Cons x xs)
  from Cons.prems(1) obtain r0 pr e where
    step: "handler_step v reg (fst x) (snd x) (lo_pr_status st) c = (Inr (r0, pr), e)"
    and rest: "(let st1 = st\<lparr>lo_results := lo_results st @ [r0], lo_pr_status := pr\<rparr> in
     case h_decision r0 of
       HD_FAIL \<Rightarrow> ret (st1\<lparr>lo_final_status := FS_FAIL, lo_stopped := True\<rparr>)
     | HD_BLOCKED \<Rightarrow> ret (st1\<lparr>lo_final_status := FS_BLOCKED, lo_stopped := True\<rparr>)
     | HD_STOP \<Rightarrow> ret st1
     | _ \<Rightarrow> run_handlers v reg xs st1) e = (Inr st', d)"
    by (auto elim!: bindC_Inr_E)
  have ce: "progress c e" using step_spec [OF step] by simp
  let ?st1 = "st\<lparr>lo_results := lo_results st @ [r0], lo_pr_status := pr\<rparr>"
  show ?case
  proof (cases "r = r0")
    case True
    then show ?thesis using step_result [OF step] by blast
  next
    case False
    have "\<not> halting r0"
    proof
      assume "halting r0"
      then have "lo_results st' = lo_results st @ [r0]" using rest by (auto simp: halting_def Let_def)
      then show False using False Cons.prems(2,3) by simp
    qed
    then have "run_handlers v reg xs ?st1 e = (Inr st', d)"
      using rest by (cases "h_decision r0") (auto simp: halting_def Let_def)
    then obtain c' where "result_of e c' r" using Cons.IH [of ?st1 e] Cons.prems(2,3) False by auto
    then have "result_of c c' r" using ce by (auto simp: result_of_def intro: progressing.R_trans)
    then show ?thesis by blast
  qed
qed

lemma chain_trace:
  assumes "run_chain v reg chain c = (Inr res, d)" and "r \<in> set (r_handler_results res)"
  shows "\<exists>c'. result_of c c' r"
proof -
  obtain st where "run_handlers v reg (enumerate 0 (cd_handler_names chain)) start_loop c = (Inr st, d)"
    and "r_handler_results res = lo_results st"
    using assms(1) by (auto simp: run_chain_def elim!: bindC_Inr_E)
  then show ?thesis using loop_trace assms(2) by (simp add: start_loop_def)
qed

text \<open>A PASS of a verifier is the PASS its own body returned.\<close>

lemma outcome_pass:
  assumes "handler_outcome h n c = (Inr r, d)" and "h_status r = HS_PASS"
  shows "hd_handle h c = (Inr r, d)"
  using assms
  by (auto simp: handler_outcome_def inapplicable_result_def enforce_no_repo_mutation_def
      authority_violation_def split: if_splits elim!: bindC_Inr_E)

text \<open>What a run that returns has done.\<close>

lemma chain_spec:
  assumes "run_chain v reg chain c = (Inr res, d)" and "x_verifier_decision c = D_PENDING"
  defines "rs \<equiv> r_handler_results res" and "names \<equiv> cd_handler_names chain"
  shows "map h_handler_name rs = take (length rs) names"
    and "list_all (\<lambda>r. \<not> halting r) (butlast rs)"
    and "length rs < length names \<Longrightarrow> rs \<noteq> [] \<and> halting (last rs)"
    and "list_all (\<lambda>r. decision_fits (h_status r) (h_decision r)) rs"
    and "r_verifier_decision res = verdict rs" and "x_verifier_decision d = verdict rs"
    and "r_final_status res = outcome_of rs" and "progress c d"
    and "r_evidence_artifacts res = x_artifacts d"
proof -
  obtain st where run: "run_handlers v reg (enumerate 0 names) start_loop c = (Inr st, d)"
    and res: "rs = lo_results st" "r_verifier_decision res = x_verifier_decision d"
      "r_final_status res = final_status_of st (x_verifier_decision d)"
      "r_evidence_artifacts res = x_artifacts d"
    using assms(1) by (auto simp: run_chain_def names_def rs_def elim!: bindC_Inr_E)
  from loop_spec [OF run] obtain ss where ss: "loop_results (enumerate 0 names) start_loop c st d ss" ..
  then have "rs = ss" by (simp add: loop_results_def res start_loop_def)
  with ss have spec: "loop_results (enumerate 0 names) start_loop c st d rs" by simp
  then show "map h_handler_name rs = take (length rs) names"
    "list_all (\<lambda>r. \<not> halting r) (butlast rs)"
    "length rs < length names \<Longrightarrow> rs \<noteq> [] \<and> halting (last rs)"
    "list_all (\<lambda>r. decision_fits (h_status r) (h_decision r)) rs"
    "x_verifier_decision d = verdict rs" "r_verifier_decision res = verdict rs" "progress c d"
    "r_evidence_artifacts res = x_artifacts d"
    by (auto simp: loop_results_def verdict_def assms(2) res)
  show "r_final_status res = outcome_of rs"
    using spec by (auto simp: loop_results_def verdict_def assms(2) res outcome_of_def
        final_status_of_def start_loop_def split: option.splits)
qed

text \<open>A final PASS: the verifier passed, nothing failed, and the chain ran to its end.\<close>

lemma final_pass:
  assumes "run_chain v reg chain c = (Inr res, d)" and "x_verifier_decision c = D_PENDING"
    and "r_final_status res = FS_PASS"
  shows "r_verifier_decision res = D_PASS"
    and "\<exists>r \<in> set (r_handler_results res). h_handler_type r = HT_VERIFIER \<and> h_status r = HS_PASS"
    and "\<forall>r \<in> set (r_handler_results res). h_status r \<noteq> HS_FAIL \<and> h_status r \<noteq> HS_BLOCKED"
proof -
  let ?rs = "r_handler_results res"
  note spec = chain_spec [OF assms(1,2)]
  have none: "exit_status ?rs = None" and pass: "verdict ?rs = D_PASS"
    using spec(7) assms(3)
    by (auto simp: outcome_of_def exit_status_def split: option.splits if_splits handler_decision.splits)
  show "r_verifier_decision res = D_PASS" using spec(5) pass by simp
  show "\<exists>r \<in> set ?rs. h_handler_type r = HT_VERIFIER \<and> h_status r = HS_PASS"
    using pass by (rule verdict_PASS)
  have "h_decision r \<noteq> HD_FAIL \<and> h_decision r \<noteq> HD_BLOCKED" if "r \<in> set ?rs" for r
  proof (cases "r \<in> set (butlast ?rs)")
    case True
    then show ?thesis using spec(2) by (auto simp: list_all_iff halting_def)
  next
    case False
    then have "?rs \<noteq> []" "r = last ?rs" using that
      by (cases ?rs rule: rev_cases; auto)+
    then show ?thesis using none by (auto simp: exit_status_def)
  qed
  then show "\<forall>r \<in> set ?rs. h_status r \<noteq> HS_FAIL \<and> h_status r \<noteq> HS_BLOCKED"
    using spec(4) by (fastforce simp: list_all_iff)
qed

text \<open>A chain that passed was passed by one of its verifiers, in a context the run reached.\<close>

lemma final_pass_verifier:
  assumes run: "run_chain v reg chain c = (Inr res, d)" and "x_verifier_decision c = D_PENDING"
    and "r_final_status res = FS_PASS"
  obtains n h c' r d' where "n \<in> set (cd_handler_names chain)" and "registry_get reg n = Some h"
    and "hd_type h = HT_VERIFIER" and "progress c c'" and "hd_handle h c' = (Inr r, d')"
    and "h_status r = HS_PASS" and "r \<in> set (r_handler_results res)"
proof -
  from final_pass(2) [OF assms] obtain r where r: "r \<in> set (r_handler_results res)"
    "h_handler_type r = HT_VERIFIER" "h_status r = HS_PASS" by blast
  have "h_handler_name r \<in> set (map h_handler_name (r_handler_results res))" using r by simp
  then have n: "h_handler_name r \<in> set (cd_handler_names chain)"
    by (metis chain_spec(1) [OF run assms(2)] in_set_takeD)
  obtain c' where c': "result_of c c' r" using chain_trace [OF run r(1)] by blast
  have "r \<noteq> deferred_result (h_handler_name r)" using r(3) deferred_blocked by (metis handler_status.distinct(3))
  then obtain h d' where h: "registry_get reg (h_handler_name r) = Some h" "progress c c'"
    and out: "handler_outcome h (h_handler_name r) c' = (Inr r, d')"
    using c' by (auto simp: result_of_def split: option.splits)
  have "hd_handle h c' = (Inr r, d')" using out r(3) by (rule outcome_pass)
  moreover from this have "hd_type h = HT_VERIFIER"
    using handle_spec(2) [OF h(1)] r(2) by (simp add: good_result_def)
  ultimately show thesis using that n h r by blast
qed

text \<open>A gated PR is reported only where the verifier has passed.\<close>

lemma loop_gated:
  assumes "run_handlers v reg xs st c = (Inr st', d)" and "verifiers_first reg (map snd xs)"
    and "lo_pr_status st = PR_GATED \<Longrightarrow> x_verifier_decision c = D_PASS
           \<and> list_all (\<lambda>n. type_in reg n \<noteq> Some HT_VERIFIER) (map snd xs)"
    and "lo_pr_status st' = PR_GATED"
  shows "x_verifier_decision d = D_PASS"
  using assms
proof (induction xs arbitrary: st c)
  case Nil
  then show ?case by simp
next
  case (Cons x xs)
  from Cons.prems(1) obtain r pr e where
    step: "handler_step v reg (fst x) (snd x) (lo_pr_status st) c = (Inr (r, pr), e)"
    and rest: "(let st1 = st\<lparr>lo_results := lo_results st @ [r], lo_pr_status := pr\<rparr> in
     case h_decision r of
       HD_FAIL \<Rightarrow> ret (st1\<lparr>lo_final_status := FS_FAIL, lo_stopped := True\<rparr>)
     | HD_BLOCKED \<Rightarrow> ret (st1\<lparr>lo_final_status := FS_BLOCKED, lo_stopped := True\<rparr>)
     | HD_STOP \<Rightarrow> ret st1
     | _ \<Rightarrow> run_handlers v reg xs st1) e = (Inr st', d)"
    by (auto elim!: bindC_Inr_E)
  note spec = step_spec [OF step]
  have kept: "x_verifier_decision e = D_PASS
      \<and> list_all (\<lambda>n. type_in reg n \<noteq> Some HT_VERIFIER) (map snd xs)" if "pr = PR_GATED"
    using spec that Cons.prems(2,3) by (auto simp: verdict_step_def)
  show ?case
  proof (cases "halting r")
    case True
    then have "d = e \<and> lo_pr_status st' = pr" using rest by (auto simp: halting_def Let_def)
    then show ?thesis using kept Cons.prems(4) by simp
  next
    case False
    let ?st1 = "st\<lparr>lo_results := lo_results st @ [r], lo_pr_status := pr\<rparr>"
    have "run_handlers v reg xs ?st1 e = (Inr st', d)"
      using False rest by (cases "h_decision r") (auto simp: halting_def Let_def)
    then show ?thesis using Cons.IH [of ?st1 e] Cons.prems(2,4) kept by simp
  qed
qed

lemma gated_pass:
  assumes "run_chain v reg chain c = (Inr res, d)"
    and "verifiers_first reg (cd_handler_names chain)" and "r_pr_status res = PR_GATED"
  shows "r_verifier_decision res = D_PASS"
proof -
  obtain st where "run_handlers v reg (enumerate 0 (cd_handler_names chain)) start_loop c = (Inr st, d)"
    and res: "r_verifier_decision res = x_verifier_decision d" "r_pr_status res = lo_pr_status st"
    using assms(1) by (auto simp: run_chain_def elim!: bindC_Inr_E)
  then have "x_verifier_decision d = D_PASS"
    using assms(2,3) by (intro loop_gated) (auto simp: start_loop_def)
  then show ?thesis by (simp add: res)
qed

end

end
