(* ===== verification/Json_Parser.thy ===== *)
theory Json_Parser
  imports PyJson
begin

text \<open>
  \<open>json.loads\<close>, as \<open>parsing/structured_parser.py\<close> uses it: the result or none for the errors it
  raises.  A float is carried as the literal it was read from.  An escape for a character beyond
  the modelled alphabet gives none as well.  The recursion over nested values runs on fuel; the
  length of the text is always enough, since every level reads a character.
\<close>

section \<open>Strings\<close>

fun skip_ws :: "string \<Rightarrow> string" where
  "skip_ws [] = []"
| "skip_ws (c # s) = (if (of_char c :: nat) \<in> {9, 10, 13, 32} then skip_ws s else c # s)"

definition hex_value :: "char \<Rightarrow> nat option" where
  "hex_value c = (let n = (of_char c :: nat) in
     if 48 \<le> n \<and> n \<le> 57 then Some (n - 48)
     else if 97 \<le> n \<and> n \<le> 102 then Some (n - 87)
     else if 65 \<le> n \<and> n \<le> 70 then Some (n - 55)
     else None)"

text \<open>The four hex digits of an escape, when they denote a character of the alphabet.\<close>

definition hex4 :: "char \<Rightarrow> char \<Rightarrow> char \<Rightarrow> char \<Rightarrow> char option" where
  "hex4 a b c d =
     (case (hex_value a, hex_value b, hex_value c, hex_value d) of
        (Some 0, Some 0, Some x, Some y) \<Rightarrow> Some (char_of (16 * x + y))
      | _ \<Rightarrow> None)"

definition escape_value :: "char \<Rightarrow> char option" where
  "escape_value c = (let n = (of_char c :: nat) in
     if n = 34 \<or> n = 92 \<or> n = 47 then Some c
     else if n = 98 then Some (CHR 0x08)
     else if n = 102 then Some (CHR 0x0C)
     else if n = 110 then Some (CHR 0x0A)
     else if n = 114 then Some (CHR 0x0D)
     else if n = 116 then Some (CHR 0x09)
     else None)"

text \<open>The rest of a string literal after its opening quote, and what follows it.\<close>

fun json_string :: "string \<Rightarrow> (string \<times> string) option" where
  "json_string [] = None"
| "json_string (c # s) =
     (if c = CHR 0x22 then Some ([], s)
      else if c = backslash then
        (case s of
           [] \<Rightarrow> None
         | e # s' \<Rightarrow>
             if e = CHR ''u'' then
               (case s' of
                  h1 # h2 # h3 # h4 # t \<Rightarrow>
                    (case hex4 h1 h2 h3 h4 of
                       None \<Rightarrow> None
                     | Some x \<Rightarrow> map_option (\<lambda>(u, r). (x # u, r)) (json_string t))
                | _ \<Rightarrow> None)
             else
               (case escape_value e of
                  None \<Rightarrow> None
                | Some x \<Rightarrow> map_option (\<lambda>(u, r). (x # u, r)) (json_string s')))
      else if (of_char c :: nat) < 32 then None
      else map_option (\<lambda>(u, r). (c # u, r)) (json_string s))"

section \<open>Numbers\<close>

definition is_digit :: "char \<Rightarrow> bool" where
  "is_digit c \<longleftrightarrow> 48 \<le> (of_char c :: nat) \<and> (of_char c :: nat) \<le> 57"

definition digits_of :: "string \<Rightarrow> string \<times> string" where
  "digits_of s = (takeWhile is_digit s, dropWhile is_digit s)"

text \<open>The integer part: a zero stands alone.\<close>

definition int_part :: "string \<Rightarrow> (string \<times> string) option" where
  "int_part s =
     (case s of
        [] \<Rightarrow> None
      | c # r \<Rightarrow> if c = CHR ''0'' then Some ([c], r)
                 else if is_digit c then Some (digits_of s) else None)"

definition frac_part :: "string \<Rightarrow> string \<times> string" where
  "frac_part s =
     (case s of
        c # r \<Rightarrow> if c = CHR ''.'' \<and> fst (digits_of r) \<noteq> []
                 then (c # fst (digits_of r), snd (digits_of r)) else ([], s)
      | [] \<Rightarrow> ([], s))"

definition exp_part :: "string \<Rightarrow> string \<times> string" where
  "exp_part s =
     (case s of
        c # r \<Rightarrow>
          (let sg = takeWhile (\<lambda>x. x = CHR ''+'' \<or> x = CHR ''-'') (take 1 r);
               ds = digits_of (drop (length sg) r)
           in if (c = CHR ''e'' \<or> c = CHR ''E'') \<and> fst ds \<noteq> []
              then (c # sg @ fst ds, snd ds) else ([], s))
      | [] \<Rightarrow> ([], s))"

text \<open>An integer of more than 4300 digits is refused by \<open>int\<close>.\<close>

definition json_number :: "string \<Rightarrow> (json \<times> string) option" where
  "json_number s =
     (let neg = starts_with ''-'' s; body = (if neg then tl s else s) in
      case int_part body of
        None \<Rightarrow> None
      | Some (ds, r) \<Rightarrow>
          (let (fr, r1) = frac_part r; (ex, r2) = exp_part r1 in
           if fr = [] \<and> ex = []
           then (if length ds > 4300 then None
                 else Some (JInt (if neg then - int (undec ds) else int (undec ds)), r2))
           else Some (JFloat ((if neg then ''-'' else []) @ ds @ fr @ ex), r2)))"

definition json_word :: "string \<Rightarrow> (json \<times> string) option" where
  "json_word s =
     (if starts_with ''null'' s then Some (JNull, drop 4 s)
      else if starts_with ''true'' s then Some (JBool True, drop 4 s)
      else if starts_with ''false'' s then Some (JBool False, drop 5 s)
      else if starts_with ''NaN'' s then Some (JFloat ''nan'', drop 3 s)
      else if starts_with ''Infinity'' s then Some (JFloat ''inf'', drop 8 s)
      else if starts_with ''-Infinity'' s then Some (JFloat ''-inf'', drop 9 s)
      else None)"

section \<open>Values\<close>

text \<open>A key that occurs twice keeps its place and takes the later value.\<close>

definition dict_of_pairs :: "(string \<times> json) list \<Rightarrow> jdict" where
  "dict_of_pairs ps = fold (\<lambda>(k, v). dict_set k v) ps []"

fun json_value :: "nat \<Rightarrow> string \<Rightarrow> (json \<times> string) option"
  and json_items :: "nat \<Rightarrow> string \<Rightarrow> (json list \<times> string) option"
  and json_pairs :: "nat \<Rightarrow> string \<Rightarrow> ((string \<times> json) list \<times> string) option" where
  "json_value 0 s = None"
| "json_value (Suc n) s =
     (case s of
        [] \<Rightarrow> None
      | c # r \<Rightarrow>
          if c = CHR 0x22 then map_option (\<lambda>(u, t). (JStr u, t)) (json_string r)
          else if c = CHR ''{'' then
            (case skip_ws r of
               [] \<Rightarrow> None
             | d # t \<Rightarrow> if d = CHR ''}'' then Some (JObj [], t)
                        else map_option (\<lambda>(ps, u). (JObj (dict_of_pairs ps), u)) (json_pairs n (d # t)))
          else if c = CHR ''['' then
            (case skip_ws r of
               [] \<Rightarrow> None
             | d # t \<Rightarrow> if d = CHR '']'' then Some (JArr [], t)
                        else map_option (\<lambda>(xs, u). (JArr xs, u)) (json_items n (d # t)))
          else (case json_word s of Some w \<Rightarrow> Some w | None \<Rightarrow> json_number s))"
| "json_items 0 s = None"
| "json_items (Suc n) s =
     (case json_value n s of
        None \<Rightarrow> None
      | Some (x, r) \<Rightarrow>
          (case skip_ws r of
             [] \<Rightarrow> None
           | d # t \<Rightarrow> if d = CHR '']'' then Some ([x], t)
                      else if d = CHR '','' then
                        map_option (\<lambda>(xs, u). (x # xs, u)) (json_items n (skip_ws t))
                      else None))"
| "json_pairs 0 s = None"
| "json_pairs (Suc n) s =
     (case s of
        [] \<Rightarrow> None
      | q # r \<Rightarrow>
          if q \<noteq> CHR 0x22 then None
          else (case json_string r of
             None \<Rightarrow> None
           | Some (k, t) \<Rightarrow>
               (case skip_ws t of
                  [] \<Rightarrow> None
                | d # t' \<Rightarrow>
                    if d \<noteq> CHR '':'' then None
                    else (case json_value n (skip_ws t') of
                       None \<Rightarrow> None
                     | Some (x, u) \<Rightarrow>
                         (case skip_ws u of
                            [] \<Rightarrow> None
                          | e # u' \<Rightarrow>
                              if e = CHR ''}'' then Some ([(k, x)], u')
                              else if e = CHR '','' then
                                map_option (\<lambda>(ps, z). ((k, x) # ps, z)) (json_pairs n (skip_ws u'))
                              else None)))))"

text \<open>Twice the length: a nested value takes a step for its list and one for itself.\<close>

definition json_loads :: "string \<Rightarrow> json option" where
  "json_loads s =
     (let t = skip_ws s in
      case json_value (2 * length t + 2) t of
        Some (v, r) \<Rightarrow> if skip_ws r = [] then Some v else None
      | None \<Rightarrow> None)"

end
