(* ===== verification/Agents.thy ===== *)
theory Agents
  imports Context Json_Parser
begin

text \<open>
  The controlled model invocation: the invocation recorder (\<open>llm/recorder.py\<close>), the providers of
  the repository (\<open>agents/fake_provider.py\<close>, \<open>agents/manual_provider.py\<close>, \<open>llm/stub_adapter.py\<close>),
  the role-bound runtime (\<open>agents/provider.py\<close>, \<open>agents/runtime.py\<close>), the quarantine helper
  and the structured parser (\<open>parsing/\<close>).  An adapter is a computation on the world that may raise;
  the runtime turns any exception of it into BLOCKED.
\<close>

section \<open>The recorder\<close>

record recorder =
  rc_counter :: nat
  rc_evidence :: ledger_writer
  rc_world :: world

definition rc_write ::
    "env \<Rightarrow> artifact_store \<Rightarrow> string \<Rightarrow> string \<Rightarrow> string \<Rightarrow> string \<Rightarrow> (recorder, artifact) comp" where
  "rc_write v st run_id task_id name data =
     zoomC rc_world (\<lambda>w. rc_world_update (\<lambda>_. w))
       (store_write (v_now v) st run_id task_id name (Text data) ''LLM_INVOCATION'' ''model_router'')"

definition invocation_id :: "nat \<Rightarrow> string" where
  "invocation_id n = ''LLM'' @ zero_pad 4 n"

definition record_invocation ::
    "env \<Rightarrow> artifact_store \<Rightarrow> string \<Rightarrow> string \<Rightarrow> model_spec \<Rightarrow> string \<Rightarrow> llm_response \<Rightarrow> string
     \<Rightarrow> (recorder, llm_invocation_record) comp" where
  "record_invocation v st run_id task_id spec prompt response rate_limit_status =
     bindC (modC (\<lambda>s. s\<lparr>rc_counter := Suc (rc_counter s)\<rparr>)) (\<lambda>_.
     bindC (getC rc_counter) (\<lambda>n.
     let inv_id = invocation_id n in
     bindC (rc_write v st run_id task_id (''llm_request_'' @ inv_id @ ''.txt'') prompt) (\<lambda>req.
     bindC (rc_write v st run_id task_id (''llm_response_'' @ inv_id @ ''.txt'') (lr_text response)) (\<lambda>resp.
     bindC (zoomC rc_world (\<lambda>w. rc_world_update (\<lambda>_. w)) (read_clock (v_now v))) (\<lambda>now.
     let rec = \<lparr>li_invocation_id = inv_id, li_model_id = ms_model_id spec, li_role = ms_role spec,
          li_run_id = run_id, li_task_id = task_id, li_request_hash = a_hash req,
          li_response_hash = a_hash resp, li_request_artifact_path = a_path req,
          li_response_artifact_path = a_path resp, li_tokens_in = lr_tokens_in response,
          li_tokens_out = lr_tokens_out response, li_latency_ms = 0,
          li_rate_limit_status = rate_limit_status, li_used_as_evidence = False,
          li_claimed_status = ''IGNORED'', li_recorded_by = ''model_router'', li_timestamp = now\<rparr> in
     bindC (rc_write v st run_id task_id (''llm_invocation_'' @ inv_id @ ''.json'')
              (v_invocation_json v rec)) (\<lambda>rec_art.
     bindC (zoomC (\<lambda>s. (rc_evidence s, rc_world s)) (\<lambda>(ew, w) s. s\<lparr>rc_evidence := ew, rc_world := w\<rparr>)
              (ledger_append_artifact (v_now v) rec_art LR_INFO (JStr (''llm:'' @ ms_model_id spec)))) (\<lambda>_.
     ret rec)))))))"

section \<open>Providers\<close>

definition word_count :: "string \<Rightarrow> int" where
  "word_count s = int (length (split_ws s))"

definition fake_payload :: json where
  "fake_payload = JObj
     [(''summary'', JStr ''Deterministic stub analysis of repository AI-readiness.''),
      (''risks'', jstrs [''Stub provider in use; no live model reasoning performed.'']),
      (''recommended_actions'',
         jstrs [''Wire a real, allowlisted provider before relying on agent narrative.'']),
      (''confidence'', JFloat ''0.5'')]"

definition fake_analysis_adapter :: llm_adapter where
  "fake_analysis_adapter spec prompt =
     (let text = json_dumps fake_payload in
      ret \<lparr>lr_text = text, lr_tokens_in = word_count prompt, lr_tokens_out = word_count text\<rparr>)"

definition manual_analysis_adapter :: "(string, string) dict \<Rightarrow> string \<Rightarrow> llm_adapter" where
  "manual_analysis_adapter outputs fallback_text spec prompt =
     (let text = (case map_of outputs (ms_model_id spec) of Some t \<Rightarrow> t | None \<Rightarrow> fallback_text) in
      if text = [] then throw (RuntimeError (''no manual output supplied for '' @ ms_model_id spec))
      else ret \<lparr>lr_text = text, lr_tokens_in = word_count prompt, lr_tokens_out = word_count text\<rparr>)"

definition stub_llm_adapter :: "string list \<Rightarrow> llm_adapter" where
  "stub_llm_adapter fail_for spec prompt =
     (if ms_model_id spec \<in> set fail_for
      then throw (RuntimeError (''stub failure for '' @ ms_model_id spec))
      else ret \<lparr>lr_text = ''[stub:'' @ ms_model_id spec @ ''] '' @ take 80 prompt,
                lr_tokens_in = word_count prompt, lr_tokens_out = 8\<rparr>)"

section \<open>The runtime\<close>

record agent_invocation_request =
  aq_role :: model_role
  aq_prompt :: string

definition prompt_hash :: "agent_invocation_request \<Rightarrow> string" where
  "prompt_hash r = hash_bytes (utf8 (aq_prompt r))"

record agent_invocation_result =
  ai_status :: string
  ai_text :: string
  ai_record :: "llm_invocation_record option"
  ai_reason :: string
  ai_model_id_used :: string

definition ai_ok :: "agent_invocation_result \<Rightarrow> bool" where
  "ai_ok r \<longleftrightarrow> ai_status r = ''OK''"

definition ai_blocked :: "string \<Rightarrow> string \<Rightarrow> agent_invocation_result" where
  "ai_blocked reason model_id =
     \<lparr>ai_status = ''BLOCKED'', ai_text = [], ai_record = None, ai_reason = reason,
      ai_model_id_used = model_id\<rparr>"

definition select_spec :: "model_spec list \<Rightarrow> model_role \<Rightarrow> model_spec option" where
  "select_spec specs role = find (\<lambda>s. ms_role s = role) specs"

text \<open>The recorder a handler makes: a fresh counter over the context's ledger and world.\<close>

definition with_recorder :: "(recorder, 'a) comp \<Rightarrow> (ctx, 'a) comp" where
  "with_recorder =
     zoomC (\<lambda>c. \<lparr>rc_counter = 0, rc_evidence = x_evidence c, rc_world = x_world c\<rparr>)
       (\<lambda>s c. c\<lparr>x_evidence := rc_evidence s, x_world := rc_world s\<rparr>)"

definition agent_invoke ::
    "env \<Rightarrow> agent_invocation_request \<Rightarrow> (ctx, agent_invocation_result) comp" where
  "agent_invoke v r =
     bindC (getC id) (\<lambda>c.
     case select_spec (x_agent_specs c) (aq_role r) of
       None \<Rightarrow> ret (ai_blocked (''no model bound to role '' @ model_role_value (aq_role r)) [])
     | Some spec \<Rightarrow>
         if prompt_hash r = [] then ret (ai_blocked ''prompt hash required'' [])
         else (case map_of (x_agent_adapters c) (ms_provider spec) of
           None \<Rightarrow> ret (ai_blocked (''provider unavailable: no adapter for '' @ [CHR 0x27]
                         @ ms_provider spec @ [CHR 0x27]) (ms_model_id spec))
         | Some adapter \<Rightarrow>
             bindC (catchC (bindC (on_world (adapter spec (aq_prompt r))) (\<lambda>x. ret (Inr x)))
                      (\<lambda>e. ret (Inl e))) (\<lambda>answer.
             case answer of
               Inl e \<Rightarrow> ret (ai_blocked (''provider invocation failed: '' @ exn_text e) (ms_model_id spec))
             | Inr response \<Rightarrow>
                 bindC (with_recorder (record_invocation v (x_store c) (x_run_id c) (x_task_id c)
                          spec (aq_prompt r) response ''OK'')) (\<lambda>rec.
                 ret \<lparr>ai_status = ''OK'', ai_text = lr_text response, ai_record = Some rec,
                      ai_reason = [], ai_model_id_used = ms_model_id spec\<rparr>))))"

section \<open>Quarantine and parsing\<close>

definition quarantine_agent_output ::
    "env \<Rightarrow> string \<Rightarrow> string \<Rightarrow> string \<Rightarrow> (ctx, (string, string) dict) comp" where
  "quarantine_agent_output v raw_output summary recorded_by =
     bindC (write_quarantined v ''raw_agent_output.log'' raw_output recorded_by) (\<lambda>raw.
     bindC (write_quarantined v ''agent_summary.md'' summary recorded_by) (\<lambda>summ.
     ret [(''raw_agent_output.log'', a_path raw), (''agent_summary.md'', a_path summ)]))"

text \<open>The schema validation is Pydantic's.\<close>

definition parse_structured_output :: "env \<Rightarrow> string \<Rightarrow> analysis_agent_output option" where
  "parse_structured_output v raw =
     (if raw = [] \<or> strip raw = [] then None
      else case json_loads raw of
        Some (JObj payload) \<Rightarrow> v_output v payload
      | _ \<Rightarrow> None)"

section \<open>What an invocation may do to the context\<close>

lemma invocation_name_ok [simp]:
  "evidence_name (''llm_invocation_'' @ invocation_id n @ ''.json'')"
proof -
  have "plain_name (''llm_invocation_'' @ invocation_id n @ ''.json'')"
    unfolding plain_name_append invocation_id_def
    by (simp only: zero_pad_plain plain_name_append simp_thms) (simp add: plain_name_def)
  then show ?thesis
    by (simp add: evidence_name_def segment_def quarantined_basenames_def plain_name_def)
qed

text \<open>The recorder leaves one entry, for the record it hashed, and touches nothing else.\<close>

lemma record_invocation_entry:
  "\<exists>rec e w. record_invocation v st run task spec prompt resp status s =
     (Inr rec, \<lparr>rc_counter = Suc (rc_counter s),
        rc_evidence = push_entry e
          ((rc_evidence s)\<lparr>ew_counter := Suc (ew_counter (rc_evidence s))\<rparr>), rc_world = w\<rparr>)
   \<and> e_artifact_type e = AT_LLM_INVOCATION \<and> e_result e = LR_INFO
   \<and> e_artifact_path e = str_path (pjoin (run_dir st run)
       (''llm_invocation_'' @ invocation_id (Suc (rc_counter s)) @ ''.json''))
   \<and> e_hash e \<noteq> [] \<and> e_entry_id e = ''E'' @ zero_pad 4 (Suc (ew_counter (rc_evidence s)))
   \<and> \<not> li_used_as_evidence rec \<and> li_model_id rec = ms_model_id spec
   \<and> li_rate_limit_status rec = status"
  using artifact_type_of_value [of AT_LLM_INVOCATION]
  apply (cases s)
  apply (simp add: record_invocation_def rc_write_def comp_defs store_write_eq read_clock_def Let_def
      ledger_append_artifact_def ledger_append_ok hash_bytes_not_Nil)
  apply (rule exI, intro conjI, rule refl)
      apply (simp_all add: hash_bytes_not_Nil)
  done

lemma evolves_recorder [steps_rules]:
  "steps evolves (with_recorder (record_invocation v st run task spec prompt resp status))"
proof (rule stepsI)
  fix c r d
  assume run: "with_recorder (record_invocation v st run task spec prompt resp status) c = (r, d)"
  let ?s = "\<lparr>rc_counter = 0, rc_evidence = x_evidence c, rc_world = x_world c\<rparr>"
  let ?n = "''llm_invocation_'' @ invocation_id (Suc 0) @ ''.json''"
  obtain rec e w where "record_invocation v st run task spec prompt resp status ?s =
      (Inr rec, \<lparr>rc_counter = Suc 0, rc_evidence = push_entry e
          ((x_evidence c)\<lparr>ew_counter := Suc (ew_counter (x_evidence c))\<rparr>), rc_world = w\<rparr>)"
    and e: "e_artifact_path e = str_path (pjoin (run_dir st run) ?n)" "e_hash e \<noteq> []"
      "e_entry_id e = ''E'' @ zero_pad 4 (Suc (ew_counter (x_evidence c)))"
    using record_invocation_entry [of v st run task spec prompt resp status ?s] by auto
  then have d: "d = c\<lparr>x_evidence := push_entry e
      ((x_evidence c)\<lparr>ew_counter := Suc (ew_counter (x_evidence c))\<rparr>), x_world := w\<rparr>"
    using run by (simp add: with_recorder_def zoomC_def)
  have "evidence_name ?n" by (rule invocation_name_ok)
  then have "entry_ok e"
    using e by (simp add: entry_ok_def evidence_name_def basename_str_path str_path_not_Nil)
  then show "evolves c d"
    using ledger_wf_push [OF _ e(2,3)]
    by (auto simp: d evolves_def ctx_ok_def push_entry_def x_run_id_def x_task_id_def)
qed

lemma steps_res_case [steps_rules]:
  "(\<And>e. x = Inl e \<Longrightarrow> steps R (f e)) \<Longrightarrow> (\<And>y. x = Inr y \<Longrightarrow> steps R (g y)) \<Longrightarrow>
   steps R (case x of Inl e \<Rightarrow> f e | Inr y \<Rightarrow> g y)"
  by (simp split: sum.split)

lemma evolves_agent_invoke [steps_rules]: "steps evolves (agent_invoke v r)"
  by (auto simp: agent_invoke_def intro!: steps_rules)

lemma evolves_quarantine [steps_rules]: "steps evolves (quarantine_agent_output v raw summary by)"
  by (auto simp: quarantine_agent_output_def intro!: steps_rules)

text \<open>A provider that fails never gives an answer.\<close>

lemma agent_invoke_failed_provider:
  assumes "select_spec (x_agent_specs c) (aq_role r) = Some spec"
    and "map_of (x_agent_adapters c) (ms_provider spec) = Some adapter"
    and "adapter spec (aq_prompt r) (x_world c) = (Inl e, w)"
  shows "\<exists>res d. agent_invoke v r c = (Inr res, d) \<and> \<not> ai_ok res \<and> x_entries d = x_entries c"
  using assms
  by (simp add: agent_invoke_def comp_defs on_world_eq ai_blocked_def ai_ok_def prompt_hash_def
      hash_bytes_not_Nil)

lemma select_spec_role: "select_spec specs role = Some s \<Longrightarrow> s \<in> set specs \<and> ms_role s = role"
  by (simp add: select_spec_def find_Some_iff) (metis nth_mem)

section \<open>Properties\<close>

text \<open>
  C27: an agent invocation never raises.  It answers OK just when the adapter of the model bound
  to the role answered, with that text, a record that is no evidence and one informational entry
  in the ledger; when no model or adapter is there or the adapter raised, it is BLOCKED with no
  text and no record, and the ledger is as it was.
\<close>

theorem agent_answers_or_blocks:
  "\<exists>res d. agent_invoke v r c = (Inr res, d) \<and>
     (ai_status res = ''OK''
        \<and> (\<exists>spec adapter resp w rec e. select_spec (x_agent_specs c) (aq_role r) = Some spec
             \<and> map_of (x_agent_adapters c) (ms_provider spec) = Some adapter
             \<and> adapter spec (aq_prompt r) (x_world c) = (Inr resp, w)
             \<and> ai_text res = lr_text resp \<and> ai_record res = Some rec \<and> li_used_as_evidence rec = False
             \<and> x_entries d = x_entries c @ [e] \<and> e_artifact_type e = AT_LLM_INVOCATION \<and> e_result e = LR_INFO)
      \<or> ai_status res = ''BLOCKED'' \<and> ai_text res = [] \<and> ai_record res = None \<and> x_entries d = x_entries c
        \<and> (select_spec (x_agent_specs c) (aq_role r) = None
           \<or> (\<exists>spec. select_spec (x_agent_specs c) (aq_role r) = Some spec
                \<and> (map_of (x_agent_adapters c) (ms_provider spec) = None
                   \<or> (\<exists>adapter ex w. map_of (x_agent_adapters c) (ms_provider spec) = Some adapter
                        \<and> adapter spec (aq_prompt r) (x_world c) = (Inl ex, w))))))"
proof (cases "select_spec (x_agent_specs c) (aq_role r)")
  case None
  then show ?thesis by (simp add: agent_invoke_def comp_defs ai_blocked_def)
next
  case (Some spec)
  note spec = this
  show ?thesis
  proof (cases "map_of (x_agent_adapters c) (ms_provider spec)")
    case None
    with spec show ?thesis
      by (simp add: agent_invoke_def comp_defs ai_blocked_def prompt_hash_def hash_bytes_not_Nil)
  next
    case (Some adapter)
    obtain ans w where ans: "adapter spec (aq_prompt r) (x_world c) = (ans, w)" by force
    show ?thesis
    proof (cases ans)
      case (Inl ex)
      with spec Some ans show ?thesis
        by (simp add: agent_invoke_def comp_defs on_world_eq ai_blocked_def prompt_hash_def hash_bytes_not_Nil)
    next
      case (Inr resp)
      let ?s = "\<lparr>rc_counter = 0, rc_evidence = x_evidence c, rc_world = w\<rparr>"
      obtain rec e w' where "record_invocation v (x_store c) (x_run_id c) (x_task_id c) spec (aq_prompt r) resp ''OK'' ?s =
          (Inr rec, \<lparr>rc_counter = Suc (rc_counter ?s),
            rc_evidence = push_entry e ((rc_evidence ?s)\<lparr>ew_counter := Suc (ew_counter (rc_evidence ?s))\<rparr>), rc_world = w'\<rparr>)"
        and "e_artifact_type e = AT_LLM_INVOCATION" "e_result e = LR_INFO" "\<not> li_used_as_evidence rec"
        using record_invocation_entry [of v "x_store c" "x_run_id c" "x_task_id c" spec "aq_prompt r" resp "''OK''" ?s]
        by blast
      with spec Some ans Inr show ?thesis
        by (simp add: agent_invoke_def comp_defs on_world_eq prompt_hash_def hash_bytes_not_Nil with_recorder_def
            zoomC_def push_entry_def)
    qed
  qed
qed

end
