(* ===== verification/Analysis_Workflow.thy ===== *)
theory Analysis_Workflow
  imports Context
begin

text \<open>
  The read-only analysis logic (\<open>workflows/analysis_workflow.py\<close>): the inventory of a working
  tree, the discovery of its commands, the readiness assessment, and the stand-alone loop that
  records all three as evidence.
\<close>

definition SKIP_DIRS :: "string list" where
  "SKIP_DIRS =
     [''.git'', ''node_modules'', ''__pycache__'', ''.venv'', ''venv'', ''dist'', ''build'']"

text \<open>Paths sort by their parts.\<close>

definition inventory :: "world \<Rightarrow> ppath \<Rightarrow> string list" where
  "inventory w repo =
     map (py_join ''/'')
       (filter (\<lambda>rel. \<not> list_ex (\<lambda>part. part \<in> set SKIP_DIRS) rel)
         (sort (map fst (files_below w repo))))"

text \<open>
  The discovered commands as the dictionary the source builds; \<open>files\<close> lists the elements of a
  set.
\<close>

definition discover_commands :: "string list \<Rightarrow> jdict" where
  "discover_commands files =
     (let python = ''pyproject.toml'' \<in> set files \<or> ''requirements.txt'' \<in> set files;
          node = ''package.json'' \<in> set files
      in [(''test'', jstrs ((if python then [''python -m pytest''] else [])
                            @ (if node then [''npm test''] else []))),
          (''lint'', jstrs (if node then [''npm run lint''] else [])),
          (''build'', jstrs (if node then [''npm run build''] else []))])"

definition no_commands :: jdict where
  "no_commands = [(''test'', JArr []), (''lint'', JArr []), (''build'', JArr [])]"

definition has_tests :: "string list \<Rightarrow> jdict \<Rightarrow> bool" where
  "has_tests files commands \<longleftrightarrow>
     truthy (dget commands ''test'')
   \<or> list_ex (\<lambda>f. starts_with ''tests/'' f \<or> starts_with ''test/'' f \<or> ends_with ''_test.py'' f) files"

definition has_ci :: "string list \<Rightarrow> bool" where
  "has_ci files \<longleftrightarrow> list_ex (starts_with ''.github/workflows/'') files"

definition has_lint :: "string list \<Rightarrow> jdict \<Rightarrow> bool" where
  "has_lint files commands \<longleftrightarrow>
     truthy (dget commands ''lint'')
   \<or> list_ex (\<lambda>f. f \<in> {''.flake8'', ''.eslintrc'', ''.eslintrc.json'', ''ruff.toml''}) files"

definition no_tests_finding :: backlog_finding where
  "no_tests_finding =
     \<lparr>f_finding_id = ''F-NO-TESTS'', f_run_id = [], f_title = ''No automated tests detected'',
      f_description = ''No test command or test directory was discovered.'',
      f_severity = ''HIGH'', f_category = ''ai_safety_gap'', f_evidence_artifact_paths = [],
      f_recommended_action = ''Add a test suite so the harness can require passing tests.''\<rparr>"

definition no_ci_finding :: backlog_finding where
  "no_ci_finding =
     \<lparr>f_finding_id = ''F-NO-CI'', f_run_id = [], f_title = ''No CI workflow detected'',
      f_description = ''No .github/workflows pipeline was found.'',
      f_severity = ''MEDIUM'', f_category = ''ai_safety_gap'', f_evidence_artifact_paths = [],
      f_recommended_action = ''Add CI to run tests and static checks on every change.''\<rparr>"

definition assess_readiness :: "string list \<Rightarrow> jdict \<Rightarrow> jdict \<times> backlog_finding list" where
  "assess_readiness files commands =
     ([(''has_tests'', JBool (has_tests files commands)),
       (''has_ci'', JBool (has_ci files)),
       (''has_lint'', JBool (has_lint files commands)),
       (''file_count'', JInt (int (length files))),
       (''discovered_commands'', JObj commands)],
      (if \<not> has_tests files commands then [no_tests_finding] else [])
      @ (if \<not> has_ci files then [no_ci_finding] else []))"

section \<open>The stand-alone loop\<close>

record analysis_result =
  ar_run_id :: string
  ar_task_id :: string
  ar_artifacts :: "artifact list"
  ar_findings :: "backlog_finding list"
  ar_evidence_ledger :: "evidence_ledger option"
  ar_readiness_report :: jdict

text \<open>The loop's state: its own ledger writer and the world.\<close>

type_synonym workflow_state = "ledger_writer \<times> world"

definition workflow_write ::
    "env \<Rightarrow> artifact_store \<Rightarrow> string \<Rightarrow> string \<Rightarrow> string \<Rightarrow> string \<Rightarrow> string
     \<Rightarrow> (workflow_state, artifact) comp" where
  "workflow_write v st run_id task_id name data command =
     bindC (zoomC snd (\<lambda>w (ew, _). (ew, w))
       (store_write (v_now v) st run_id task_id name (Text data) ''ANALYSIS_REPORT''
          ''analysis_workflow'')) (\<lambda>a.
     bindC (ledger_append_artifact (v_now v) a LR_INFO (JStr command)) (\<lambda>_.
     ret a))"

definition run_readonly_analysis ::
    "env \<Rightarrow> ppath \<Rightarrow> artifact_store \<Rightarrow> string \<Rightarrow> string \<Rightarrow> (world, analysis_result) comp" where
  "run_readonly_analysis v repo st run_id task_id = (\<lambda>w0.
     case bindC (getC (\<lambda>s. inventory (snd s) repo)) (\<lambda>rows.
          bindC (workflow_write v st run_id task_id ''repo_tree.log''
                   (py_join [CHR 0x0A] rows @ [CHR 0x0A]) ''inventory'') (\<lambda>repo_tree.
          let files = remdups rows; commands = discover_commands files in
          bindC (workflow_write v st run_id task_id ''command_discovery.log''
                   (json_dumps2 (JObj commands)) ''discover_commands'') (\<lambda>discovery.
          let (report, found) = assess_readiness files commands;
              findings = map (\<lambda>f. f\<lparr>f_run_id := run_id,
                 f_evidence_artifact_paths := [a_path repo_tree, a_path discovery]\<rparr>) found in
          bindC (workflow_write v st run_id task_id ''codebase_ai_readiness_report.json''
                   (json_dumps2 (JObj report)) ''assess_readiness'') (\<lambda>readiness.
          bindC (getC (\<lambda>s. ew_ledger (fst s))) (\<lambda>ledger.
          ret \<lparr>ar_run_id = run_id, ar_task_id = task_id,
               ar_artifacts = [repo_tree, discovery, readiness], ar_findings = findings,
               ar_evidence_ledger = Some ledger, ar_readiness_report = report\<rparr>)))))
        (new_ledger_writer task_id run_id, w0)
     of (r, (_, w)) \<Rightarrow> (r, w))"

section \<open>What the assessment says\<close>

lemma inventory_files:
  "set (inventory w repo) =
     py_join ''/'' ` {rel. rel \<in> fst ` set (files_below w repo) \<and> set rel \<inter> set SKIP_DIRS = {}}"
  by (auto simp: inventory_def list_ex_iff)

lemma findings_iff:
  "no_tests_finding \<in> set (snd (assess_readiness files cmds)) \<longleftrightarrow> \<not> has_tests files cmds"
  "no_ci_finding \<in> set (snd (assess_readiness files cmds)) \<longleftrightarrow> \<not> has_ci files"
  by (auto simp: assess_readiness_def no_tests_finding_def no_ci_finding_def)

lemma workflow_write_eq:
  "workflow_write v st run task name data cmd (ew, w) =
     (let p = pjoin (run_dir st run) name;
          w1 = (write_file p (utf8 data) (make_dirs (run_dir st run) w))\<lparr>w_tick := Suc (w_tick w)\<rparr>;
          e = \<lparr>e_entry_id = ''E'' @ zero_pad 4 (Suc (ew_counter ew)), e_timestamp = v_now v (w_tick w1),
               e_artifact_type = AT_ANALYSIS_REPORT, e_artifact_path = str_path p, e_command = cmd,
               e_result = LR_INFO, e_hash = hash_bytes (utf8 data),
               e_recorded_by = ''analysis_workflow''\<rparr>
      in (Inr \<lparr>a_artifact_id = run @ '':'' @ name, a_run_id = run, a_task_id = task,
               a_artifact_type = ''ANALYSIS_REPORT'', a_path = str_path p,
               a_hash = hash_bytes (utf8 data), a_attempt_id = st_attempt_id st,
               a_created_at = v_now v (w_tick w), a_recorded_by = ''analysis_workflow''\<rparr>,
          (push_entry e (ew\<lparr>ew_counter := Suc (ew_counter ew)\<rparr>), w1\<lparr>w_tick := Suc (w_tick w1)\<rparr>)))"
  using artifact_type_of_value [of AT_ANALYSIS_REPORT]
  by (simp add: workflow_write_def comp_defs store_write_eq ledger_append_artifact_def
      ledger_append_ok hash_bytes_not_Nil Let_def)

lemma has_tests_files:
  "has_tests files (discover_commands files) \<longleftrightarrow>
     (\<exists>f \<in> set files. f \<in> {''pyproject.toml'', ''requirements.txt'', ''package.json''}
        \<or> starts_with ''tests/'' f \<or> starts_with ''test/'' f \<or> ends_with ''_test.py'' f)"
  by (auto simp: has_tests_def discover_commands_def dget_def dget_or_def Let_def list_ex_iff)

definition ANALYSIS_FILES :: "string list" where
  "ANALYSIS_FILES = [''repo_tree.log'', ''command_discovery.log'', ''codebase_ai_readiness_report.json'']"

text \<open>The texts of the three artifacts, over the rows of the inventory.\<close>

definition analysis_texts :: "string list \<Rightarrow> string list" where
  "analysis_texts rows =
     (let files = remdups rows; commands = discover_commands files in
      [py_join [CHR 0x0A] rows @ [CHR 0x0A], json_dumps2 (JObj commands),
       json_dumps2 (JObj (fst (assess_readiness files commands)))])"

lemma analysis_names:
  "segment ''repo_tree.log'' \<and> plain_name ''repo_tree.log''"
  "segment ''command_discovery.log'' \<and> plain_name ''command_discovery.log''"
  "segment ''codebase_ai_readiness_report.json'' \<and> plain_name ''codebase_ai_readiness_report.json''"
  by (simp_all add: segment_def plain_name_def)

section \<open>Properties\<close>

text \<open>
  C34: what the read-only analysis leaves.  It returns three artifacts, the inventory of the tree, the
  commands discovered from it and the readiness report, in this order: each lies in the store under its
  name with exactly these bytes, and is entered in the ledger, in the same order, under its path, the
  hash of its bytes and the step that made it.  No other file changes.  The findings are that there are
  no tests just when no file of the inventory is a project file or looks like a test, and that there is
  no CI just when none is a workflow, each with the first two artifacts as its evidence.  The evidence
  gate accepts the ledger just when the run and the task have ids.
\<close>

theorem readonly_analysis_evidence:
  "let rows = inventory w repo; texts = analysis_texts rows;
       places = map (pjoin (run_dir st run)) ANALYSIS_FILES in
   \<exists>res w' l. run_readonly_analysis v repo st run task w = (Inr res, w') \<and> ar_evidence_ledger res = Some l
     \<and> map a_path (ar_artifacts res) = map str_path places
     \<and> map a_hash (ar_artifacts res) = map (\<lambda>t. hash_bytes (utf8 t)) texts
     \<and> map (\<lambda>p. file_at w' (locate w p)) places = map (\<lambda>t. Some (utf8 t)) texts
     \<and> (\<forall>m. m \<notin> set (map (locate w) places) \<longrightarrow> file_at w' m = file_at w m)
     \<and> map e_artifact_path (l_entries l) = map str_path places
     \<and> map e_hash (l_entries l) = map (\<lambda>t. hash_bytes (utf8 t)) texts
     \<and> map e_command (l_entries l) = [''inventory'', ''discover_commands'', ''assess_readiness'']
     \<and> map (\<lambda>f. (f_finding_id f, f_run_id f, f_evidence_artifact_paths f)) (ar_findings res)
         = (if \<exists>f \<in> set rows. f \<in> {''pyproject.toml'', ''requirements.txt'', ''package.json''}
               \<or> starts_with ''tests/'' f \<or> starts_with ''test/'' f \<or> ends_with ''_test.py'' f
            then [] else [(''F-NO-TESTS'', run, map str_path (take 2 places))])
         @ (if \<exists>f \<in> set rows. starts_with ''.github/workflows/'' f
            then [] else [(''F-NO-CI'', run, map str_path (take 2 places))])
     \<and> (passed (evidence_gate l run task [''ANALYSIS_REPORT'']) \<longleftrightarrow> run \<noteq> [] \<and> task \<noteq> [])"
proof -
  let ?rows = "inventory w repo"
  let ?files = "remdups ?rows" and ?dir = "run_dir st run"
  let ?cmds = "discover_commands ?files"
  let ?report = "fst (assess_readiness ?files ?cmds)"
  define t where "t i = analysis_texts ?rows ! i" for i
  define p where "p i = pjoin ?dir (ANALYSIS_FILES ! i)" for i
  let ?art = "\<lambda>i k. \<lparr>a_artifact_id = run @ '':'' @ ANALYSIS_FILES ! i, a_run_id = run, a_task_id = task,
      a_artifact_type = ''ANALYSIS_REPORT'', a_path = str_path (p i), a_hash = hash_bytes (utf8 (t i)),
      a_attempt_id = st_attempt_id st, a_created_at = v_now v k, a_recorded_by = ''analysis_workflow''\<rparr>"
  let ?e = "\<lambda>i c k. \<lparr>e_entry_id = ''E'' @ zero_pad 4 (Suc i), e_timestamp = v_now v k,
      e_artifact_type = AT_ANALYSIS_REPORT, e_artifact_path = str_path (p i), e_command = c, e_result = LR_INFO,
      e_hash = hash_bytes (utf8 (t i)), e_recorded_by = ''analysis_workflow''\<rparr>"
  let ?w = "\<lambda>i u. (write_file (p i) (utf8 (t i)) (make_dirs ?dir u))\<lparr>w_tick := Suc (Suc (w_tick u))\<rparr>"
  let ?n = "w_tick w"
  let ?l = "(new_ledger task run)\<lparr>l_entries := [?e 0 ''inventory'' (Suc ?n),
      ?e 1 ''discover_commands'' (Suc (Suc (Suc ?n))), ?e 2 ''assess_readiness'' (Suc (Suc (Suc (Suc (Suc ?n)))))]\<rparr>"
  let ?found = "map (\<lambda>f. f\<lparr>f_run_id := run, f_evidence_artifact_paths := [str_path (p 0), str_path (p 1)]\<rparr>)
      (snd (assess_readiness ?files ?cmds))"
  have tick: "w_tick (?w i u) = Suc (Suc (w_tick u))" for i u by simp
  have run: "run_readonly_analysis v repo st run task w = (Inr
     \<lparr>ar_run_id = run, ar_task_id = task, ar_artifacts = [?art 0 ?n, ?art 1 (Suc (Suc ?n)), ?art 2 (Suc (Suc (Suc (Suc ?n))))],
      ar_findings = ?found, ar_evidence_ledger = Some ?l, ar_readiness_report = ?report\<rparr>, ?w 2 (?w 1 (?w 0 w)))"
    by (simp add: run_readonly_analysis_def comp_defs workflow_write_eq Let_def push_entry_def case_prod_beta
        new_ledger_writer_def new_ledger_def t_def p_def analysis_texts_def ANALYSIS_FILES_def numeral_2_eq_2)
  have gate: "passed (evidence_gate ?l run task [''ANALYSIS_REPORT'']) \<longleftrightarrow> run \<noteq> [] \<and> task \<noteq> []"
  proof -
    have "zero_pad 4 (Suc 0) \<noteq> zero_pad 4 (Suc (Suc 0))" "zero_pad 4 (Suc 0) \<noteq> zero_pad 4 (Suc (Suc (Suc 0)))"
      "zero_pad 4 (Suc (Suc 0)) \<noteq> zero_pad 4 (Suc (Suc (Suc 0)))" by simp_all
    then show ?thesis using analysis_names
      by (auto simp: evidence_gate_passed ledger_linked_def new_ledger_def entry_ok_def named_ids_def present_types_def
          hash_bytes_not_Nil p_def ANALYSIS_FILES_def str_path_not_Nil basename_str_path quarantined_basenames_def numeral_2_eq_2)
  qed
  have files: "file_at (?w 2 (?w 1 (?w 0 w))) m =
      (if m = locate w (p 2) then Some (utf8 (t 2)) else if m = locate w (p 1) then Some (utf8 (t 1))
       else if m = locate w (p 0) then Some (utf8 (t 0)) else file_at w m)" for m
    by simp
  have apart: "locate w (p 0) \<noteq> locate w (p 1)" "locate w (p 0) \<noteq> locate w (p 2)" "locate w (p 1) \<noteq> locate w (p 2)"
    using analysis_names by (simp_all add: p_def ANALYSIS_FILES_def numeral_2_eq_2)
  have lists: "map (pjoin ?dir) ANALYSIS_FILES = [p 0, p 1, p 2]" "analysis_texts ?rows = [t 0, t 1, t 2]"
    by (simp_all add: t_def p_def ANALYSIS_FILES_def analysis_texts_def Let_def numeral_2_eq_2)
  have findings: "map (\<lambda>f. (f_finding_id f, f_run_id f, f_evidence_artifact_paths f)) ?found
      = (if has_tests ?files ?cmds then [] else [(''F-NO-TESTS'', run, [str_path (p 0), str_path (p 1)])])
      @ (if has_ci ?files then [] else [(''F-NO-CI'', run, [str_path (p 0), str_path (p 1)])])"
    by (simp add: assess_readiness_def no_tests_finding_def no_ci_finding_def)
  have ci: "has_ci ?files \<longleftrightarrow> (\<exists>f \<in> set ?rows. starts_with ''.github/workflows/'' f)"
    by (simp add: has_ci_def list_ex_iff)
  show ?thesis unfolding Let_def lists
    by (rule exI, rule exI, rule exI [of _ ?l], rule conjI [OF run])
       (use gate files apart findings has_tests_files [of ?files] ci in \<open>simp add: numeral_2_eq_2\<close>)
qed

text \<open>A tree with a test and no workflow.\<close>

theorem readonly_analysis_evidence_witness:
  "\<forall>v. \<exists>res w'. run_readonly_analysis v (parse_path ''/repo'') \<lparr>st_root = parse_path ''/store'', st_attempt_id = None\<rparr>
       ''R1'' ''T1'' \<lparr>w_files = [([''repo'', ''tests'', ''a.py''], [])], w_dirs = [], w_cwd = [], w_tick = 0\<rparr> = (Inr res, w')
     \<and> map f_finding_id (ar_findings res) = [''F-NO-CI'']
     \<and> file_at w' [''store'', ''R1'', ''repo_tree.log''] = Some (''tests/a.py'' @ [CHR 0x0A])
     \<and> file_at w' [''repo'', ''tests'', ''a.py''] = Some []"
proof
  fix v
  let ?w = "\<lparr>w_files = [([''repo'', ''tests'', ''a.py''], [])], w_dirs = [], w_cwd = [], w_tick = 0\<rparr>"
  let ?st = "\<lparr>st_root = parse_path ''/store'', st_attempt_id = None\<rparr>"
  have rows: "inventory ?w (parse_path ''/repo'') = [''tests/a.py'']" by code_simp
  have places: "map (locate ?w) (map (pjoin (run_dir ?st ''R1'')) ANALYSIS_FILES)
      = map (\<lambda>n. [''store'', ''R1'', n]) ANALYSIS_FILES" by code_simp
  have kinds: "starts_with ''tests/'' ''tests/a.py''" "\<not> starts_with ''.github/workflows/'' ''tests/a.py''"
    by code_simp+
  have tree: "utf8 (analysis_texts [''tests/a.py''] ! 0) = ''tests/a.py'' @ [CHR 0x0A]" by code_simp
  have texts: "length (analysis_texts [''tests/a.py'']) = 3" "length ANALYSIS_FILES = 3"
    by (simp_all add: analysis_texts_def Let_def ANALYSIS_FILES_def)
  obtain res w' l where run: "run_readonly_analysis v (parse_path ''/repo'') ?st ''R1'' ''T1'' ?w = (Inr res, w')"
    and files: "map (\<lambda>p. file_at w' (locate ?w p)) (map (pjoin (run_dir ?st ''R1'')) ANALYSIS_FILES)
      = map (\<lambda>t. Some (utf8 t)) (analysis_texts [''tests/a.py''])"
    and same: "\<forall>m. m \<notin> set (map (locate ?w) (map (pjoin (run_dir ?st ''R1'')) ANALYSIS_FILES)) \<longrightarrow> file_at w' m = file_at ?w m"
    and found: "map (\<lambda>f. (f_finding_id f, f_run_id f, f_evidence_artifact_paths f)) (ar_findings res)
      = [(''F-NO-CI'', ''R1'', map str_path (take 2 (map (pjoin (run_dir ?st ''R1'')) ANALYSIS_FILES)))]"
    using readonly_analysis_evidence [of ?w "parse_path ''/repo''" ?st "''R1''" v "''T1''", unfolded Let_def rows] kinds
    by auto
  have "map f_finding_id (ar_findings res) = [''F-NO-CI'']"
    using arg_cong [OF found, of "map fst"] by (simp add: comp_def)
  moreover have "file_at w' [''store'', ''R1'', ''repo_tree.log''] = Some (''tests/a.py'' @ [CHR 0x0A])"
  proof -
    have "map (file_at w') (map (locate ?w) (map (pjoin (run_dir ?st ''R1'')) ANALYSIS_FILES)) ! 0
        = map (\<lambda>t. Some (utf8 t)) (analysis_texts [''tests/a.py'']) ! 0"
      using arg_cong [OF files, of "\<lambda>xs. xs ! 0"] by (simp add: comp_def)
    then show ?thesis unfolding places using tree texts by (simp add: ANALYSIS_FILES_def)
  qed
  moreover have "file_at w' [''repo'', ''tests'', ''a.py''] = file_at ?w [''repo'', ''tests'', ''a.py'']"
    using same unfolding places by (simp add: ANALYSIS_FILES_def)
  ultimately show "\<exists>res w'. run_readonly_analysis v (parse_path ''/repo'') ?st ''R1'' ''T1'' ?w = (Inr res, w')
     \<and> map f_finding_id (ar_findings res) = [''F-NO-CI'']
     \<and> file_at w' [''store'', ''R1'', ''repo_tree.log''] = Some (''tests/a.py'' @ [CHR 0x0A])
     \<and> file_at w' [''repo'', ''tests'', ''a.py''] = Some []"
    using run by (simp add: file_at_def)
qed

end
