(* ===== verification/Tools.thy ===== *)
theory Tools
  imports Analysis_Workflow
begin

text \<open>
  The read-only tool runtime (\<open>backend/app/tools/\<close>): the registry with the names that may never
  be registered, the policy and the executor that runs an admitted tool and records its output.
\<close>

section \<open>Registry\<close>

definition FORBIDDEN_TOOL_NAMES :: "string list" where
  "FORBIDDEN_TOOL_NAMES =
     [''merge'', ''deploy'', ''push_to_main'', ''force_pass'', ''delete_repo'', ''publish_package'']"

definition workflow_files :: "string list \<Rightarrow> string list" where
  "workflow_files files =
     sort (filter (\<lambda>f. starts_with ''.github/workflows/'' (norm_slashes f)) files)"

definition ci_inventory :: "string list \<Rightarrow> json" where
  "ci_inventory files = JObj
     [(''workflows'', jstrs (workflow_files files)),
      (''has_ci'', JBool (workflow_files files \<noteq> []))]"

definition DEPENDENCY_MARKERS :: "string list" where
  "DEPENDENCY_MARKERS =
     [''pyproject.toml'', ''requirements.txt'', ''package.json'', ''package-lock.json'',
      ''poetry.lock'']"

definition dependency_inventory :: "string list \<Rightarrow> json" where
  "dependency_inventory files = JObj
     [(''dependency_files'',
       jstrs (sort (filter (\<lambda>f. after_last CHR ''/'' f \<in> set DEPENDENCY_MARKERS) files)))]"

definition repo_tree_text :: "string list \<Rightarrow> string" where
  "repo_tree_text rows = py_join [CHR 0x0A] rows @ [CHR 0x0A]"

text \<open>A tool that reads the inventory of the tree and prints something of it.\<close>

definition inventory_tool :: "string \<Rightarrow> (string list \<Rightarrow> string) \<Rightarrow> tool" where
  "inventory_tool name show =
     \<lparr>tl_name = name, tl_run = (\<lambda>repo. getC (\<lambda>w. JStr (show (inventory w repo)))),
      tl_mutating = False\<rparr>"

definition DEFAULT_TOOLS :: "tool list" where
  "DEFAULT_TOOLS =
     [inventory_tool ''list_repo_tree'' repo_tree_text,
      inventory_tool ''discover_commands'' (\<lambda>rows. json_dumps2 (JObj (discover_commands rows))),
      inventory_tool ''inspect_ci_config'' (\<lambda>rows. json_dumps2 (ci_inventory rows)),
      inventory_tool ''inspect_dependencies'' (\<lambda>rows. json_dumps2 (dependency_inventory rows))]"

definition register_tool :: "tool \<Rightarrow> tool_registry \<Rightarrow> tool_registry res" where
  "register_tool t reg =
     (if tl_name t \<in> set FORBIDDEN_TOOL_NAMES
      then Inl (ValueError (''forbidden tool name cannot be registered: '' @ tl_name t))
      else Inr (dict_set (tl_name t) t reg))"

fun build_tool_registry :: "tool list \<Rightarrow> tool_registry \<Rightarrow> tool_registry res" where
  "build_tool_registry [] reg = Inr reg"
| "build_tool_registry (t # ts) reg =
     (case register_tool t reg of Inl e \<Rightarrow> Inl e | Inr reg' \<Rightarrow> build_tool_registry ts reg')"

definition tool_get :: "tool_registry \<Rightarrow> string \<Rightarrow> tool option" where
  "tool_get reg name = map_of reg name"

definition tool_has :: "tool_registry \<Rightarrow> string \<Rightarrow> bool" where
  "tool_has reg name \<longleftrightarrow> name \<in> fst ` set reg"

definition tool_names :: "tool_registry \<Rightarrow> string list" where
  "tool_names reg = sort (map fst reg)"

interpretation tools: kv_store dict_set tool_get
  by unfold_locales (simp_all add: tool_get_def)

text \<open>No registry that was built holds a forbidden name.\<close>

lemma register_tool_allowed:
  assumes "register_tool t reg = Inr reg'" and "fst ` set reg \<inter> set FORBIDDEN_TOOL_NAMES = {}"
  shows "fst ` set reg' \<inter> set FORBIDDEN_TOOL_NAMES = {}"
proof -
  have "reg' = dict_set (tl_name t) t reg" "tl_name t \<notin> set FORBIDDEN_TOOL_NAMES"
    using assms(1) by (auto simp: register_tool_def split: if_splits)
  then show ?thesis using assms(2) by (simp add: fst_dict_set)
qed

lemma build_tool_registry_allowed:
  assumes "build_tool_registry ts reg = Inr reg'" and "fst ` set reg \<inter> set FORBIDDEN_TOOL_NAMES = {}"
  shows "fst ` set reg' \<inter> set FORBIDDEN_TOOL_NAMES = {}"
  using assms
proof (induction ts arbitrary: reg)
  case Nil
  then show ?case by simp
next
  case (Cons t ts)
  then show ?case using register_tool_allowed by (auto split: sum.splits)
qed

section \<open>Policy\<close>

datatype tool_decision = ALLOWED | NOT_REGISTERED | NOT_ALLOWED_FOR_RUN_TYPE | FORBIDDEN

definition tool_decide :: "tool_registry \<Rightarrow> string \<Rightarrow> run_type \<Rightarrow> tool_decision \<times> string" where
  "tool_decide reg name rt =
     (let quoted = [CHR 0x27] @ name @ [CHR 0x27] in
      if name \<in> set FORBIDDEN_TOOL_NAMES then (FORBIDDEN, ''tool '' @ quoted @ '' is forbidden'')
      else case tool_get reg name of
        None \<Rightarrow> (NOT_REGISTERED, ''tool '' @ quoted @ '' is not registered'')
      | Some t \<Rightarrow>
          if tl_mutating t \<and> rt = RT_READ_ONLY_ANALYSIS
          then (NOT_ALLOWED_FOR_RUN_TYPE,
                ''mutating tool '' @ quoted @ '' not allowed in read-only run'')
          else (ALLOWED, []))"

lemma tool_decide_allowed:
  "fst (tool_decide reg name rt) = ALLOWED \<longleftrightarrow>
     name \<notin> set FORBIDDEN_TOOL_NAMES
   \<and> (\<exists>t. tool_get reg name = Some t \<and> \<not> (tl_mutating t \<and> rt = RT_READ_ONLY_ANALYSIS))"
  by (auto simp: tool_decide_def Let_def split: option.split)

section \<open>Executor\<close>

record tool_result =
  tr_tool_name :: string
  tr_status :: string
  tr_policy_decision :: tool_decision
  tr_input_hash :: string
  tr_output_hash :: string
  tr_artifact_path :: string
  tr_artifact_hash :: string
  tr_exit_code :: int
  tr_reason :: string

definition tr_ok :: "tool_result \<Rightarrow> bool" where
  "tr_ok r \<longleftrightarrow> tr_status r = ''OK''"

definition tool_failure ::
    "string \<Rightarrow> string \<Rightarrow> tool_decision \<Rightarrow> string \<Rightarrow> int \<Rightarrow> string \<Rightarrow> tool_result" where
  "tool_failure name status d input_hash code reason =
     \<lparr>tr_tool_name = name, tr_status = status, tr_policy_decision = d, tr_input_hash = input_hash,
      tr_output_hash = [], tr_artifact_path = [], tr_artifact_hash = [], tr_exit_code = code,
      tr_reason = reason\<rparr>"

text \<open>
  The registry of the executor and that of its policy are two parameters, as in the source; the
  tool that was admitted is looked up again.
\<close>

definition tool_run ::
    "env \<Rightarrow> tool_registry \<Rightarrow> tool_registry \<Rightarrow> string \<Rightarrow> run_type
     \<Rightarrow> (ctx, tool_result) comp" where
  "tool_run v reg policy name rt =
     (case tool_decide policy name rt of (d, reason) \<Rightarrow>
        if d \<noteq> ALLOWED then ret (tool_failure name ''BLOCKED'' d [] 0 reason)
        else
          bindC (getC x_repo) (\<lambda>repo.
          let input_hash = hash_bytes (utf8 (name @ ''|'' @ str_path repo)) in
          bindC (case tool_get reg name of
                   None \<Rightarrow> ret (Inl AttributeError)
                 | Some t \<Rightarrow> catchC (bindC (on_world (tl_run t repo)) (\<lambda>x. ret (Inr x)))
                              (\<lambda>e. ret (Inl e))) (\<lambda>out.
          case out of
            Inl e \<Rightarrow> ret (tool_failure name ''FAILED'' d input_hash 1 (''tool execution failed: '' @ exn_text e))
          | Inr data \<Rightarrow> (case data of
              JStr text \<Rightarrow>
                bindC (record_artifact v (''tool_'' @ name @ ''.log'') text AT_COMMAND_OUTPUT LR_INFO
                         (JStr (''tool:'' @ name)) ''tool_executor'') (\<lambda>a.
                if a_hash a = []
                then ret (tool_failure name ''FAILED'' d input_hash 0 ''tool output was not hashed'')
                else ret \<lparr>tr_tool_name = name, tr_status = ''OK'', tr_policy_decision = d,
                          tr_input_hash = input_hash, tr_output_hash = a_hash a,
                          tr_artifact_path = a_path a, tr_artifact_hash = a_hash a,
                          tr_exit_code = 0, tr_reason = []\<rparr>)
            | _ \<Rightarrow> ret (tool_failure name ''FAILED'' d input_hash 1
                       ''tool did not return text output'')))))"

lemma evolves_tool_run [steps_rules]:
  assumes "evidence_name (''tool_'' @ name @ ''.log'')"
  shows "steps evolves (tool_run v reg policy name rt)"
proof -
  have *: "steps evolves (case data of JStr t \<Rightarrow> f t | _ \<Rightarrow> m)"
    if "\<And>t. steps evolves (f t)" and "steps evolves m" for data f and m :: "(ctx, tool_result) comp"
    using that by (cases data) simp_all
  show ?thesis using assms
    by (auto simp: tool_run_def split: prod.split sum.split intro!: steps_rules *)
qed

text \<open>A tool the policy refuses does not run: the context is as before.\<close>

lemma tool_run_refused:
  assumes "fst (tool_decide policy name rt) \<noteq> ALLOWED"
  shows "\<exists>r. tool_run v reg policy name rt c = (Inr r, c) \<and> \<not> tr_ok r"
  using assms by (auto simp: tool_run_def comp_defs tool_failure_def tr_ok_def split: prod.split)

text \<open>A run that is reported OK left its output in the ledger under its hash.\<close>

lemma tool_run_ok_ledgered:
  assumes "tool_run v reg policy name rt c = (Inr r, d)" and "tr_ok r"
  shows "\<exists>es e. x_entries d = es @ [e] \<and> e_hash e = tr_artifact_hash r
           \<and> e_artifact_path e = tr_artifact_path r \<and> e_artifact_type e = AT_COMMAND_OUTPUT"
  using assms
  by (auto simp: tool_run_def tr_ok_def tool_failure_def Let_def record_artifact_eq push_entry_def
      artifact_of_def entry_of_def elim!: bindC_Inr_E split: prod.splits if_splits sum.splits json.splits)

section \<open>Properties\<close>

text \<open>
  C26: with a registry as the code builds it, a tool runs only when the policy admits it: an OK
  result means that the name is registered, not a forbidden one, not a mutating tool in a
  read-only run, and that the output stands at the end of the ledger under the hash it reports; a
  refusal leaves the context as it was.
\<close>

theorem tools_run_under_policy:
  assumes "build_tool_registry ts [] = Inr reg" and "tool_run v reg reg name rt c = (Inr r, d)"
  shows "(tr_ok r \<longrightarrow> name \<notin> set FORBIDDEN_TOOL_NAMES
       \<and> (\<exists>t. tool_get reg name = Some t \<and> \<not> (tl_mutating t \<and> rt = RT_READ_ONLY_ANALYSIS))
       \<and> (\<exists>es e. x_entries d = es @ [e] \<and> e_hash e = tr_artifact_hash r \<and> e_artifact_path e = tr_artifact_path r))
    \<and> (fst (tool_decide reg name rt) \<noteq> ALLOWED \<longrightarrow> d = c \<and> \<not> tr_ok r)
    \<and> (\<forall>n \<in> set FORBIDDEN_TOOL_NAMES. \<not> tool_has reg n)"
proof (intro conjI impI)
  assume ok: "tr_ok r"
  have "fst (tool_decide reg name rt) = ALLOWED"
    using tool_run_refused [of reg name rt v reg c] assms(2) ok by force
  then show "name \<notin> set FORBIDDEN_TOOL_NAMES"
    and "\<exists>t. tool_get reg name = Some t \<and> \<not> (tl_mutating t \<and> rt = RT_READ_ONLY_ANALYSIS)"
    by (simp_all add: tool_decide_allowed)
  show "\<exists>es e. x_entries d = es @ [e] \<and> e_hash e = tr_artifact_hash r \<and> e_artifact_path e = tr_artifact_path r"
    using tool_run_ok_ledgered [OF assms(2) ok] by blast
next
  assume "fst (tool_decide reg name rt) \<noteq> ALLOWED"
  from tool_run_refused [OF this, of v reg c] assms(2) show "d = c" "\<not> tr_ok r" by auto
next
  show "\<forall>n \<in> set FORBIDDEN_TOOL_NAMES. \<not> tool_has reg n"
    using build_tool_registry_allowed [OF assms(1)] by (auto simp: tool_has_def)
qed

theorem tools_run_under_policy_witness:
  "\<forall>v c. \<exists>reg r d. build_tool_registry DEFAULT_TOOLS [] = Inr reg
     \<and> tool_run v reg reg ''list_repo_tree'' RT_READ_ONLY_ANALYSIS c = (Inr r, d)
     \<and> (\<exists>es e. x_entries d = es @ [e] \<and> e_hash e = tr_artifact_hash r)"
proof (intro allI)
  fix v :: env and c :: ctx
  obtain reg where reg: "build_tool_registry DEFAULT_TOOLS [] = Inr reg"
    and get: "tool_get reg ''list_repo_tree'' = Some (inventory_tool ''list_repo_tree'' repo_tree_text)"
    by (simp add: DEFAULT_TOOLS_def inventory_tool_def register_tool_def FORBIDDEN_TOOL_NAMES_def tool_get_def)
  have "fst (tool_decide reg ''list_repo_tree'' RT_READ_ONLY_ANALYSIS) = ALLOWED"
    using get by (simp add: tool_decide_allowed FORBIDDEN_TOOL_NAMES_def inventory_tool_def)
  then obtain r d where run: "tool_run v reg reg ''list_repo_tree'' RT_READ_ONLY_ANALYSIS c = (Inr r, d)"
    and ok: "tr_ok r"
    using get by (cases "tool_decide reg ''list_repo_tree'' RT_READ_ONLY_ANALYSIS")
      (simp add: tool_run_def comp_defs Let_def inventory_tool_def on_world_eq record_artifact_eq
        artifact_of_def hash_bytes_not_Nil tr_ok_def)
  from tools_run_under_policy [OF reg run] ok reg run show "\<exists>reg r d. build_tool_registry DEFAULT_TOOLS [] = Inr reg
     \<and> tool_run v reg reg ''list_repo_tree'' RT_READ_ONLY_ANALYSIS c = (Inr r, d)
     \<and> (\<exists>es e. x_entries d = es @ [e] \<and> e_hash e = tr_artifact_hash r)" by blast
qed

end
