(* ===== verification/Analysis_Handlers.thy ===== *)
theory Analysis_Handlers
  imports Agents Tools Handler_Base
begin

text \<open>
  The analysis handlers (\<open>handlers/analysis.py\<close>): inventories of the working tree, the read-only
  compliance check, the optional analyst step with the parsing of its output, the readiness
  score and the backlog.
\<close>

section \<open>Inventories\<close>

abbreviation repo_inventory_id :: handler_id where
  "repo_inventory_id \<equiv> (''RepoInventoryHandler'', HT_READ_ONLY_COMMAND)"

definition set_files :: "string list \<Rightarrow> (ctx, unit) comp" where
  "set_files files = modC (\<lambda>c. c\<lparr>x_shared := (x_shared c)\<lparr>sh_files := Some files\<rparr>\<rparr>)"

definition the_files :: "ctx \<Rightarrow> string list" where
  "the_files c = (case sh_files (x_shared c) of Some fs \<Rightarrow> fs | None \<Rightarrow> [])"

text \<open>A handler's usual end: one evidence artifact, and PASS with its path.\<close>

definition record_and_pass ::
    "env \<Rightarrow> handler_id \<Rightarrow> string \<Rightarrow> string \<Rightarrow> artifact_type \<Rightarrow> string \<Rightarrow> (ctx, handler_result) comp" where
  "record_and_pass v i name data ty command =
     bindC (record_artifact v name data ty LR_INFO (JStr command) (fst i)) (\<lambda>a.
     ret (ok_artifacts i [a_path a]))"

definition repo_inventory_handler :: "env \<Rightarrow> handler" where
  "repo_inventory_handler v = handler_class repo_inventory_id
     (bindC (getC (\<lambda>c. inventory (x_world c) (x_repo c))) (\<lambda>rows.
      bindC (set_files (remdups rows)) (\<lambda>_.
      record_and_pass v repo_inventory_id ''repo_tree.log'' (repo_tree_text rows)
        AT_ANALYSIS_REPORT ''inventory'')))"

abbreviation command_discovery_id :: handler_id where
  "command_discovery_id \<equiv> (''CommandDiscoveryHandler'', HT_READ_ONLY_COMMAND)"

definition command_discovery_handler :: "env \<Rightarrow> handler" where
  "command_discovery_handler v = handler_class command_discovery_id
     (bindC (getC the_files) (\<lambda>files.
      let commands = discover_commands files in
      bindC (modC (\<lambda>c. c\<lparr>x_shared := (x_shared c)\<lparr>sh_commands := Some commands\<rparr>\<rparr>)) (\<lambda>_.
      record_and_pass v command_discovery_id ''command_discovery.log'' (json_dumps2 (JObj commands))
        AT_ANALYSIS_REPORT ''discover_commands'')))"

abbreviation ci_inventory_id :: handler_id where
  "ci_inventory_id \<equiv> (''CIInventoryHandler'', HT_READ_ONLY_COMMAND)"

definition ci_inventory_handler :: "env \<Rightarrow> handler" where
  "ci_inventory_handler v = handler_class ci_inventory_id
     (bindC (getC the_files) (\<lambda>files.
      record_and_pass v ci_inventory_id ''ci_inventory.log'' (json_dumps2 (ci_inventory files))
        AT_ANALYSIS_REPORT []))"

abbreviation dependency_inventory_id :: handler_id where
  "dependency_inventory_id \<equiv> (''DependencyInventoryHandler'', HT_READ_ONLY_COMMAND)"

definition dependency_inventory_handler :: "env \<Rightarrow> handler" where
  "dependency_inventory_handler v = handler_class dependency_inventory_id
     (bindC (getC the_files) (\<lambda>files.
      record_and_pass v dependency_inventory_id ''dependency_inventory.log''
        (json_dumps2 (dependency_inventory files)) AT_ANALYSIS_REPORT []))"

section \<open>Read-only compliance\<close>

abbreviation read_only_compliance_id :: handler_id where
  "read_only_compliance_id \<equiv> (''ReadOnlyComplianceHandler'', HT_PURE_CHECK)"

text \<open>The keys of one snapshot but not the other, and those with another hash now.\<close>

definition changed_paths :: "(string, string) dict \<Rightarrow> (string, string) dict \<Rightarrow> string list" where
  "changed_paths current before =
     sort (remdups
       (filter (\<lambda>k. map_of before k = None) (map fst current)
        @ filter (\<lambda>k. map_of current k = None) (map fst before)
        @ filter (\<lambda>k. map_of before k \<noteq> map_of current k) (map fst current)))"

definition read_only_compliance_handler :: handler where
  "read_only_compliance_handler = handler_class read_only_compliance_id
     (bindC (getC id) (\<lambda>c.
      let current = snapshot_repo (x_world c) (x_repo c) in
      if \<not> same_dict current (x_repo_snapshot c)
      then ret (fail_plain read_only_compliance_id
             [''read-only mode modified repository files: ''
              @ py_join '', '' (changed_paths current (x_repo_snapshot c))])
      else ret (ok_plain read_only_compliance_id)))"

section \<open>The analyst step\<close>

abbreviation analysis_agent_id :: handler_id where
  "analysis_agent_id \<equiv> (''AnalysisAgentInvocationHandler'', HT_READ_ONLY_COMMAND)"

definition AGENT_TOOLS :: "string list" where
  "AGENT_TOOLS = [''list_repo_tree'', ''discover_commands'', ''inspect_ci_config'', ''inspect_dependencies'']"

definition run_agent_tools :: "env \<Rightarrow> tool_registry \<Rightarrow> tool_registry \<Rightarrow> run_type \<Rightarrow> (ctx, string list) comp" where
  "run_agent_tools v reg policy mode =
     mapC (\<lambda>name.
       bindC (tool_run v reg policy name mode) (\<lambda>res.
       ret (name @ '': '' @ tr_status res @ '' ('' @ take 12 (tr_artifact_hash res) @ '')'')))
     (filter (tool_has reg) AGENT_TOOLS)"

definition analysis_prompt :: "string list \<Rightarrow> jdict \<Rightarrow> string" where
  "analysis_prompt tool_summaries readiness =
     (''Assess this repository'' @ [CHR 0x27] @ ''s AI-readiness. Respond as strict JSON with keys ''
      @ ''summary, risks, recommended_actions, confidence.'') @ [CHR 0x0A]
     @ ''tool_runs: '' @ json_dumps (jstrs tool_summaries) @ [CHR 0x0A]
     @ ''readiness: '' @ json_dumps (JObj readiness)"

definition analysis_agent_handler :: "env \<Rightarrow> handler" where
  "analysis_agent_handler v = handler_class analysis_agent_id
     (bindC (getC id) (\<lambda>c.
      if x_agent_specs c = []
      then ret (skip_result analysis_agent_id
             ''no analysis agent configured; deterministic analysis only'')
      else
        bindC (case (x_tool_registry c, x_tool_policy c) of
                 (Some reg, Some policy) \<Rightarrow> run_agent_tools v reg policy (q_mode (x_request c))
               | _ \<Rightarrow> ret []) (\<lambda>summaries.
        bindC (getC x_readiness_report) (\<lambda>readiness.
        bindC (agent_invoke v \<lparr>aq_role = MR_ANALYST, aq_prompt = analysis_prompt summaries readiness\<rparr>) (\<lambda>result.
        if \<not> ai_ok result then ret (blocked_plain analysis_agent_id [ai_reason result])
        else
          bindC (quarantine_agent_output v (ai_text result)
                   ''Advisory analyst output (context only, never evidence).''
                   (fst analysis_agent_id)) (\<lambda>_.
          bindC (modC (\<lambda>c. c\<lparr>x_shared := (x_shared c)\<lparr>sh_agent_raw_output := Some (ai_text result)\<rparr>\<rparr>)) (\<lambda>_.
          bindC (modC (\<lambda>c. c\<lparr>x_coding_agent_run_id :=
                   JStr (if ai_model_id_used result \<noteq> [] then ai_model_id_used result
                         else ''analysis-agent'')\<rparr>)) (\<lambda>_.
          ret (ok_result analysis_agent_id HD_CONTINUE [] []
            [(''used_as_evidence'', JBool False),
             (''model_id'', JStr (ai_model_id_used result))])))))))))"

abbreviation output_parser_id :: handler_id where
  "output_parser_id \<equiv> (''StructuredOutputParserHandler'', HT_READ_ONLY_COMMAND)"

definition output_parser_handler :: "env \<Rightarrow> handler" where
  "output_parser_handler v = handler_class output_parser_id
     (bindC (getC (\<lambda>c. sh_agent_raw_output (x_shared c))) (\<lambda>raw.
      case raw of
        None \<Rightarrow> ret (skip_result output_parser_id ''no agent output to parse (agent step skipped)'')
      | Some text \<Rightarrow>
          (case parse_structured_output v text of
             None \<Rightarrow> ret (blocked_plain output_parser_id
               [''malformed structured model output; cannot validate analyst response''])
           | Some parsed \<Rightarrow>
               bindC (modC (\<lambda>c. c\<lparr>x_shared := (x_shared c)\<lparr>sh_analysis_agent := Some parsed\<rparr>\<rparr>)) (\<lambda>_.
               bindC (write_quarantined v ''structured_agent_output.json'' (v_output_json v parsed)
                        (fst output_parser_id)) (\<lambda>_.
               ret (ok_result output_parser_id HD_CONTINUE [] []
                 [(''confidence'', JFloat (ao_confidence parsed))]))))))"

section \<open>Scoring and backlog\<close>

abbreviation readiness_scoring_id :: handler_id where
  "readiness_scoring_id \<equiv> (''AIReadinessScoringHandler'', HT_READ_ONLY_COMMAND)"

definition readiness_scoring_handler :: "env \<Rightarrow> handler" where
  "readiness_scoring_handler v = handler_class readiness_scoring_id
     (bindC (getC id) (\<lambda>c.
      let commands = (case sh_commands (x_shared c) of Some d \<Rightarrow> d | None \<Rightarrow> no_commands);
          (report, findings) = assess_readiness (the_files c) commands in
      bindC (modC (\<lambda>c. c\<lparr>x_readiness_report := report\<rparr>)) (\<lambda>_.
      bindC (modC (\<lambda>c. c\<lparr>x_findings := findings\<rparr>)) (\<lambda>_.
      record_and_pass v readiness_scoring_id ''codebase_ai_readiness_report.json''
        (json_dumps2 (JObj report)) AT_ANALYSIS_REPORT ''assess_readiness''))))"

abbreviation strategic_assessment_id :: handler_id where
  "strategic_assessment_id \<equiv> (''StrategicProgrammingAssessmentHandler'', HT_PURE_CHECK)"

definition strategic_assessment_handler :: "env \<Rightarrow> handler" where
  "strategic_assessment_handler v = handler_class strategic_assessment_id
     (bindC (getC x_readiness_report) (\<lambda>readiness.
      record_and_pass v strategic_assessment_id ''strategic_programming_assessment.json''
        (json_dumps2 (JObj
          [(''responsibility_owner'', JStr ''analysis_verifier''),
           (''summary'', JStr ''Read-only Strategic Programming assessment of AI readiness.''),
           (''readiness'', JObj readiness)]))
        AT_STRATEGIC_REVIEW []))"

abbreviation finding_generator_id :: handler_id where
  "finding_generator_id \<equiv> (''BacklogFindingGeneratorHandler'', HT_READ_ONLY_COMMAND)"

definition finding_json :: "backlog_finding \<Rightarrow> json" where
  "finding_json f = JObj
     [(''finding_id'', JStr (f_finding_id f)), (''run_id'', JStr (f_run_id f)),
      (''title'', JStr (f_title f)), (''description'', JStr (f_description f)),
      (''severity'', JStr (f_severity f)), (''category'', JStr (f_category f)),
      (''evidence_artifact_paths'', jstrs (f_evidence_artifact_paths f)),
      (''recommended_action'', JStr (f_recommended_action f))]"

definition back_finding :: "string \<Rightarrow> string list \<Rightarrow> backlog_finding \<Rightarrow> backlog_finding" where
  "back_finding run_id paths f = f\<lparr>f_run_id := run_id, f_evidence_artifact_paths := paths\<rparr>"

definition finding_generator_handler :: "env \<Rightarrow> handler" where
  "finding_generator_handler v = handler_class finding_generator_id
     (bindC (getC id) (\<lambda>c.
      let findings = map (back_finding (x_run_id c) (map a_path (x_artifacts c))) (x_findings c) in
      bindC (modC (\<lambda>c. c\<lparr>x_findings := findings\<rparr>)) (\<lambda>_.
      record_and_pass v finding_generator_id ''ai_safety_gap_backlog.json''
        (json_dumps2 (JArr (map finding_json findings))) AT_ANALYSIS_REPORT [])))"

abbreviation backlog_update_id :: handler_id where
  "backlog_update_id \<equiv> (''BacklogUpdateHandler'', HT_READ_ONLY_COMMAND)"

definition backlog_item_json :: "nat \<Rightarrow> backlog_finding \<Rightarrow> json" where
  "backlog_item_json i f = JObj
     [(''item_id'', JStr (''BLI-'' @ dec (i + 1))),
      (''source_finding_id'', JStr (f_finding_id f)),
      (''title'', JStr (f_title f)),
      (''acceptance_criteria'',
         jstrs (if f_recommended_action f \<noteq> [] then [f_recommended_action f] else [])),
      (''status'', JStr ''DRAFT'')]"

definition backlog_update_handler :: "env \<Rightarrow> handler" where
  "backlog_update_handler v = handler_class backlog_update_id
     (bindC (getC x_findings) (\<lambda>findings.
      record_and_pass v backlog_update_id ''recommended_sprint_plan.json''
        (json_dumps2 (JObj [(''backlog_items'',
           JArr (map (\<lambda>(i, f). backlog_item_json i f) (enumerate 0 findings)))]))
        AT_ANALYSIS_REPORT []))"

definition analysis_handlers :: "env \<Rightarrow> handler list" where
  "analysis_handlers v =
     [repo_inventory_handler v, command_discovery_handler v, ci_inventory_handler v,
      dependency_inventory_handler v, read_only_compliance_handler, analysis_agent_handler v,
      output_parser_handler v, readiness_scoring_handler v, strategic_assessment_handler v,
      finding_generator_handler v, backlog_update_handler v]"

section \<open>The harness can rely on them\<close>

lemma evolves_record_and_pass [steps_rules]:
  "evidence_name name \<Longrightarrow> steps evolves (record_and_pass v i name data ty command)"
  by (auto simp: record_and_pass_def intro!: steps_rules)

lemma returns_record_and_pass [simp]:
  "snd i \<noteq> HT_PR_ACTION \<Longrightarrow> returns (good_result i) (record_and_pass v i name data ty command)"
  by (auto simp: record_and_pass_def intro!: returns_rules)

lemma evolves_agent_tools [steps_rules]: "steps evolves (run_agent_tools v reg policy mode)"
proof -
  have names: "evidence_name (''tool_'' @ n @ ''.log'')" if "n \<in> set AGENT_TOOLS" for n
    using that by (auto simp: AGENT_TOOLS_def evidence_name_defs)
  have run: "steps evolves (mapC (\<lambda>name. bindC (tool_run v reg policy name mode) (f name)) ns)"
    if "set ns \<subseteq> set AGENT_TOOLS" "\<And>n r. steps evolves (f n r)" for ns and f :: "string \<Rightarrow> tool_result \<Rightarrow> (ctx, string) comp"
    using that by (induction ns) (auto intro!: steps_rules names)
  show ?thesis unfolding run_agent_tools_def
    by (rule run) (auto intro: evolving.steps_ret)
qed

lemmas analysis_handler_defs = repo_inventory_handler_def command_discovery_handler_def
  ci_inventory_handler_def dependency_inventory_handler_def read_only_compliance_handler_def
  readiness_scoring_handler_def strategic_assessment_handler_def finding_generator_handler_def
  backlog_update_handler_def set_files_def

lemma inventory_handlers_ok:
  "handler_ok (repo_inventory_handler v)" "handler_ok (command_discovery_handler v)"
  "handler_ok (ci_inventory_handler v)" "handler_ok (dependency_inventory_handler v)"
  "handler_ok read_only_compliance_handler" "handler_ok (readiness_scoring_handler v)"
  "handler_ok (strategic_assessment_handler v)" "handler_ok (finding_generator_handler v)"
  "handler_ok (backlog_update_handler v)"
  by (auto simp: analysis_handler_defs core_defs evidence_name_defs
      intro!: handler_okI steps_rules returns_rules)

lemma analysis_agent_ok: "handler_ok (analysis_agent_handler v)"
  by (auto simp: analysis_agent_handler_def core_defs split: prod.split option.split
      intro!: handler_okI steps_rules returns_rules)

lemma output_parser_ok: "handler_ok (output_parser_handler v)"
  by (auto simp: output_parser_handler_def core_defs intro!: handler_okI steps_rules returns_rules)

lemma analysis_handlers_ok: "list_all handler_ok (analysis_handlers v)"
  by (simp add: analysis_handlers_def inventory_handlers_ok analysis_agent_ok output_parser_ok)

end
