(* ===== verification/Control_Handlers.thy ===== *)
theory Control_Handlers
  imports Handler_Base
begin

text \<open>
  The control handlers (\<open>handlers/control.py\<close>), the evaluator and memory handlers
  (\<open>handlers/evaluation.py\<close>) and the pull-request handlers (\<open>handlers/pr.py\<close>).  Each definition
  is one handler; its lemma \<open>..._ok\<close> says that it keeps what the harness needs, and the lemmas
  after it say what its result means.
\<close>

section \<open>Control\<close>

abbreviation manifest_validation_id :: handler_id where
  "manifest_validation_id \<equiv> (''ManifestValidationHandler'', HT_PURE_CHECK)"

definition manifest_validation_handler :: handler where
  "manifest_validation_handler = handler_class manifest_validation_id
     (bindC (getC id) (\<lambda>c.
      let envelope = gate_of ''chain_envelope'' (canonical_violations (x_request c)) in
      case x_manifest c of
        None \<Rightarrow> ret (from_gates manifest_validation_id [envelope] False)
      | Some m \<Rightarrow>
          bindC (modC (\<lambda>c. c\<lparr>x_coding_agent_run_id := JStr (m_coding_agent_run_id m)\<rparr>)) (\<lambda>_.
          bindC (modC (\<lambda>c. c\<lparr>x_verifier_run_id := m_verifier_run_id m\<rparr>)) (\<lambda>_.
          ret (from_gates manifest_validation_id [envelope, manifest_gate m] False)))))"

abbreviation scrum_mapping_id :: handler_id where
  "scrum_mapping_id \<equiv> (''ScrumMappingHandler'', HT_PURE_CHECK)"

definition envelope_scrum :: "scrum_envelope \<Rightarrow> scrum_mapping" where
  "envelope_scrum e =
     \<lparr>s_product_backlog_item_id = se_product_backlog_item_id e, s_product_backlog_item_title = [],
      s_sprint_id = [], s_sprint_goal = se_sprint_goal e,
      s_sprint_backlog_task_id = se_sprint_backlog_task_id e,
      s_acceptance_criteria = se_acceptance_criteria e,
      s_definition_of_done_version = se_definition_of_done_version e,
      s_increment_candidate = False, s_supports_sprint_goal = True\<rparr>"

definition scrum_mapping_handler :: handler where
  "scrum_mapping_handler = handler_class scrum_mapping_id
     (bindC (getC id) (\<lambda>c.
      let mapping = (case x_scrum c of Some s \<Rightarrow> s | None \<Rightarrow> envelope_scrum (q_scrum (x_request c))) in
      bindC (modC (\<lambda>c. c\<lparr>x_scrum := Some mapping\<rparr>)) (\<lambda>_.
      ret (from_gates scrum_mapping_id [scrum_gate mapping (x_locked_dod c)] False))))"

abbreviation dod_lock_id :: handler_id where
  "dod_lock_id \<equiv> (''DefinitionOfDoneLockHandler'', HT_PURE_CHECK)"

definition dod_lock_json :: "string \<Rightarrow> string" where
  "dod_lock_json version =
     ''{'' @ [CHR 0x22] @ ''definition_of_done_version'' @ [CHR 0x22] @ '': '' @ [CHR 0x22]
     @ version @ [CHR 0x22] @ ''}''"

definition record_dod_lock :: "env \<Rightarrow> string \<Rightarrow> (ctx, handler_result) comp" where
  "record_dod_lock v locked =
     bindC (record_artifact v ''definition_of_done_lock.json'' (dod_lock_json locked)
              AT_SCRUM_MAPPING LR_INFO (JStr []) (fst dod_lock_id)) (\<lambda>_.
     ret (ok_plain dod_lock_id))"

definition dod_lock_handler :: "env \<Rightarrow> handler" where
  "dod_lock_handler v = handler_class dod_lock_id
     (bindC (getC id) (\<lambda>c.
      let version = se_definition_of_done_version (q_scrum (x_request c)) in
      if version = [] then ret (fail_plain dod_lock_id [''Definition of Done version missing''])
      else case x_locked_dod c of
        None \<Rightarrow> bindC (modC (\<lambda>c. c\<lparr>x_locked_dod := Some version\<rparr>)) (\<lambda>_. record_dod_lock v version)
      | Some locked \<Rightarrow>
          if locked \<noteq> version
          then ret (fail_plain dod_lock_id [''Definition of Done changed mid-run''])
          else record_dod_lock v locked))"

abbreviation scope_validation_id :: handler_id where
  "scope_validation_id \<equiv> (''ScopeValidationHandler'', HT_PURE_CHECK)"

definition scope_validation_handler :: handler where
  "scope_validation_handler = handler_class scope_validation_id
     (bindC (getC id) (\<lambda>c.
      if q_mode (x_request c) = RT_IMPLEMENTATION \<and> sc_files_in_scope (q_scope (x_request c)) = []
      then ret (fail_plain scope_validation_id [''files_in_scope empty for implementation run''])
      else ret (ok_plain scope_validation_id)))"

abbreviation evidence_gate_id :: handler_id where
  "evidence_gate_id \<equiv> (''EvidenceGateHandler'', HT_PURE_CHECK)"

definition tests_not_applicable :: "chain_request \<Rightarrow> bool" where
  "tests_not_applicable q \<longleftrightarrow> truthy (dget (q_metadata q) ''tests_not_applicable'')"

definition required_evidence :: "chain_request \<Rightarrow> string list" where
  "required_evidence q =
     (if q_mode q = RT_IMPLEMENTATION
      then (if tests_not_applicable q then [''DIFF''] else [''DIFF'', ''TEST''])
      else [''ANALYSIS_REPORT''])"

definition run_evidence_gate :: "ctx \<Rightarrow> string list \<Rightarrow> gate_result" where
  "run_evidence_gate c required =
     evidence_gate (ew_ledger (x_evidence c)) (x_run_id c) (x_task_id c) required"

definition evidence_gate_handler :: handler where
  "evidence_gate_handler = handler_class evidence_gate_id
     (bindC (getC id) (\<lambda>c.
      ret (from_gates evidence_gate_id [run_evidence_gate c (required_evidence (x_request c))] False)))"

abbreviation stop_or_loop_id :: handler_id where
  "stop_or_loop_id \<equiv> (''StopOrLoopHandler'', HT_PURE_CHECK)"

definition stop_or_loop_handler :: handler where
  "stop_or_loop_handler = handler_class stop_or_loop_id
     (bindC (getC x_verifier_decision) (\<lambda>d.
      bindC (modC (\<lambda>c. c\<lparr>x_evidence := ledger_finalize (if d \<noteq> D_PENDING then d else D_BLOCKED)
                                       (x_evidence c)\<rparr>)) (\<lambda>_.
      ret (ok_result stop_or_loop_id HD_STOP [] [] []))))"

definition control_handlers :: "env \<Rightarrow> handler list" where
  "control_handlers v =
     [manifest_validation_handler, scrum_mapping_handler, dod_lock_handler v,
      scope_validation_handler, evidence_gate_handler, stop_or_loop_handler]"

section \<open>Evaluation\<close>

text \<open>
  The score is \<open>round(non_fail / total, 4)\<close>.  The division rounds the quotient to 53 significant
  bits, and \<open>round\<close> rounds that exact binary value to four decimals; both round ties to even.
  The quotient is at most one here.
\<close>

definition round_half_even :: "nat \<Rightarrow> nat \<Rightarrow> nat" where
  "round_half_even n d =
     (let q = n div d; r = n mod d in
      if 2 * r < d then q else if d < 2 * r then q + 1 else if even q then q else q + 1)"

text \<open>How often the numerator doubles until the quotient is at least one.\<close>

function scale_up :: "nat \<Rightarrow> nat \<Rightarrow> nat" where
  "scale_up a b = (if a = 0 \<or> b \<le> a then 0 else Suc (scale_up (2 * a) b))"
  by pat_completeness auto
termination by (relation "measure (\<lambda>(a, b). b - a)") auto

declare scale_up.simps [simp del]

text \<open>The score in ten-thousandths.\<close>

definition score_ratio :: "nat \<Rightarrow> nat \<Rightarrow> nat" where
  "score_ratio a b =
     (let e = 52 + scale_up a b;
          m = round_half_even (a * 2 ^ e) b
      in round_half_even (m * 10000) (2 ^ e))"

definition drop_zeros :: "string \<Rightarrow> string" where
  "drop_zeros s = rev (dropWhile (\<lambda>c. c = CHR ''0'') (rev s))"

text \<open>The \<open>repr\<close> of the score.\<close>

definition score_text :: "nat \<Rightarrow> string" where
  "score_text n =
     dec (n div 10000) @ ''.'' @
     (let f = drop_zeros (zero_pad 4 (n mod 10000)) in if f = [] then ''0'' else f)"

definition eval_score :: "ledger_entry list \<Rightarrow> nat" where
  "eval_score es =
     (if es = [] then 0
      else score_ratio (length (filter (\<lambda>e. e_result e \<noteq> LR_FAIL) es)) (length es))"

abbreviation evaluator_id :: handler_id where
  "evaluator_id \<equiv> (''EvaluatorHandler'', HT_EVALUATOR)"

definition evaluation_report :: "nat \<Rightarrow> decision \<Rightarrow> json" where
  "evaluation_report score d = JObj
     [(''eval_score'', JFloat (score_text score)),
      (''verifier_decision'', JStr (decision_value d)),
      (''note'', JStr ''evaluator scores quality and cannot override the verifier'')]"

definition evaluator_handler :: "env \<Rightarrow> handler" where
  "evaluator_handler v = handler_class evaluator_id
     (bindC (getC id) (\<lambda>c.
      let score = eval_score (x_entries c) in
      bindC (modC (\<lambda>c. c\<lparr>x_eval_score := Some score\<rparr>)) (\<lambda>_.
      bindC (record_artifact v ''evaluation_report.json''
               (json_dumps2 (evaluation_report score (x_verifier_decision c)))
               AT_ANALYSIS_REPORT LR_INFO (JStr []) (fst evaluator_id)) (\<lambda>a.
      ret (ok_artifacts evaluator_id [a_path a])))))"

abbreviation memory_update_id :: handler_id where
  "memory_update_id \<equiv> (''MemoryUpdateHandler'', HT_PURE_CHECK)"

definition memory_update_handler :: "env \<Rightarrow> handler" where
  "memory_update_handler v = handler_class memory_update_id
     (bindC (getC x_verifier_decision) (\<lambda>d.
      bindC
       (if d = D_PASS
        then record_artifact v ''memory_update_record.json''
               (json_dumps2 (JObj [(''source'', JStr ''verified_evidence''),
                                   (''verifier_decision'', JStr ''PASS'')]))
               AT_ANALYSIS_REPORT LR_INFO (JStr []) (fst memory_update_id)
        else record_artifact v ''memory_update_skip_reason.json''
               (json_dumps2 (JObj [(''skipped'', JBool True),
                                   (''reason'', JStr ''no verifier PASS; memory not updated'')]))
               AT_ANALYSIS_REPORT LR_INFO (JStr []) (fst memory_update_id)) (\<lambda>a.
      ret (ok_artifacts memory_update_id [a_path a]))))"

definition evaluation_handlers :: "env \<Rightarrow> handler list" where
  "evaluation_handlers v = [evaluator_handler v, memory_update_handler v]"

section \<open>Pull requests\<close>

abbreviation newline :: string where
  "newline \<equiv> [CHR 0x0A]"

definition gated_pr_body :: "string \<Rightarrow> string \<Rightarrow> string" where
  "gated_pr_body run_id task_id =
     ''# Gated Pull Request (candidate)'' @ newline @ newline
     @ ''Run ID: '' @ run_id @ newline
     @ ''Task ID: '' @ task_id @ newline
     @ ''Verifier decision: PASS'' @ newline @ newline
     @ ''Auto-merge: NO'' @ newline
     @ ''Auto-deploy: NO'' @ newline
     @ ''Human or external authorized approval required: YES'' @ newline"

abbreviation pr_gate_id :: handler_id where
  "pr_gate_id \<equiv> (''PRGateHandler'', HT_PR_ACTION)"

definition local_pr_facts :: pr_facts where
  "local_pr_facts =
     no_pr_facts\<lparr>pf_pr_skip_reason := ''local gated PR body written; remote push deferred''\<rparr>"

definition pr_gate_report :: "gate_result \<Rightarrow> json" where
  "pr_gate_report gate = JObj
     [(''pr_status'', JStr (pr_status_value PR_GATED)), (''auto_merge'', JBool False),
      (''auto_deploy'', JBool False), (''human_approval_required'', JBool True),
      (''pr_gate'', gate_json gate)]"

definition pr_metadata :: "pr_status \<Rightarrow> jdict" where
  "pr_metadata p = [(''pr_status'', JStr (pr_status_value p))]"

definition pr_gate_handler :: "env \<Rightarrow> handler" where
  "pr_gate_handler v = handler_class pr_gate_id
     (bindC (getC id) (\<lambda>c.
      let decision = x_verifier_decision c in
      if decision \<noteq> D_PASS
      then ret (ok_result pr_gate_id HD_CONTINUE [] [pr_gate decision no_pr_facts]
                 (pr_metadata PR_NOT_READY))
      else
        bindC (record_artifact v ''pr_body.md'' (gated_pr_body (x_run_id c) (x_task_id c))
                 AT_PR LR_INFO (JStr []) (fst pr_gate_id)) (\<lambda>body.
        let gate = pr_gate decision local_pr_facts in
        bindC (record_artifact v ''pr_gate_report.json'' (json_dumps2 (pr_gate_report gate))
                 AT_PR LR_INFO (JStr []) (fst pr_gate_id)) (\<lambda>_.
        ret (ok_result pr_gate_id HD_CONTINUE [a_path body] [gate] (pr_metadata PR_GATED))))))"

abbreviation pr_creation_id :: handler_id where
  "pr_creation_id \<equiv> (''PRCreationHandler'', HT_PR_ACTION)"

definition pr_creation_handler :: "env \<Rightarrow> handler" where
  "pr_creation_handler v = handler_class pr_creation_id
     (bindC (getC x_verifier_decision) (\<lambda>d.
      if d \<noteq> D_PASS
      then ret (skip_result pr_creation_id ''verifier PASS required before PR creation'')
      else
        bindC (record_artifact v ''pr_url.txt''
                 ''PENDING: remote PR creation deferred; PR remains gated, no merge, no deploy''
                 AT_PR LR_INFO (JStr []) (fst pr_creation_id)) (\<lambda>a.
        ret (ok_result pr_creation_id HD_CONTINUE [a_path a] [] (pr_metadata PR_GATED)))))"

definition pr_handlers :: "env \<Rightarrow> handler list" where
  "pr_handlers v = [pr_gate_handler v, pr_creation_handler v]"

section \<open>The harness can rely on them\<close>

lemma evolves_finalize [steps_rules]:
  "steps evolves (modC (\<lambda>c. c\<lparr>x_evidence := ledger_finalize (f c) (x_evidence c)\<rparr>))"
  by (rule evolving.steps_modC)
     (simp add: evolves_def ctx_ok_def ledger_finalize_def ledger_wf_def x_run_id_def x_task_id_def)

lemma truthy_pr_metadata [simp]: "truthy (dget (pr_metadata p) ''pr_status'')"
  by (cases p) (simp_all add: pr_metadata_def)

lemma pr_metadata_status [simp]: "pr_status_of (dget (pr_metadata p) ''pr_status'') = Some p"
  by (simp add: pr_metadata_def)

lemma control_handlers_ok: "list_all handler_ok (control_handlers v)"
  by (auto simp: control_handlers_def manifest_validation_handler_def scrum_mapping_handler_def
      dod_lock_handler_def record_dod_lock_def scope_validation_handler_def
      evidence_gate_handler_def stop_or_loop_handler_def core_defs evidence_name_defs
      intro!: handler_okI steps_rules returns_rules)

lemma evaluation_handlers_ok: "list_all handler_ok (evaluation_handlers v)"
  by (auto simp: evaluation_handlers_def evaluator_handler_def memory_update_handler_def
      core_defs evidence_name_defs intro!: handler_okI steps_rules returns_rules)

lemma pr_handlers_ok: "list_all handler_ok (pr_handlers v)"
  by (auto simp: pr_handlers_def pr_gate_handler_def pr_creation_handler_def
      core_defs evidence_name_defs intro!: handler_okI steps_rules returns_rules)

section \<open>The two roundings of the score\<close>

lemma round_half_even_near:
  assumes "0 < d"
  shows "\<bar>2 * int d * int (round_half_even n d) - 2 * int n\<bar> \<le> int d"
proof -
  define q r where "q = n div d" and "r = n mod d"
  have "d * q + r = n" by (simp add: q_def r_def)
  then have n: "int n = int d * int q + int r" by (metis of_nat_add of_nat_mult)
  have "r < d" using assms by (simp add: r_def)
  have "round_half_even n d = q \<and> 2 * r \<le> d \<or> round_half_even n d = Suc q \<and> d \<le> 2 * r"
    by (auto simp: round_half_even_def Let_def q_def r_def)
  then show ?thesis unfolding n using \<open>r < d\<close> by (auto simp: distrib_left)
qed

lemma round_half_even_exact: "0 < d \<Longrightarrow> round_half_even (k * d) d = k"
  by (simp add: round_half_even_def)

lemma round_half_even_le:
  assumes "0 < d" and "n \<le> k * d"
  shows "round_half_even n d \<le> k"
proof (cases "n = k * d")
  case True
  then show ?thesis using assms by (simp add: round_half_even_exact)
next
  case False
  with assms have "n div d < k" by (simp add: div_less_iff_less_mult)
  then show ?thesis by (auto simp: round_half_even_def Let_def)
qed

lemma score_ratio_bounds:
  assumes "a \<le> b" and "0 < b"
  shows "score_ratio a b \<le> 10000"
    and "\<bar>10000 * int a - int (score_ratio a b) * int b\<bar> \<le> int b"
proof -
  define e where "e = 52 + scale_up a b"
  define m where "m = round_half_even (a * 2 ^ e) b"
  have score: "score_ratio a b = round_half_even (m * 10000) (2 ^ e)"
    by (simp add: score_ratio_def Let_def e_def m_def)
  have "m \<le> 2 ^ e" unfolding m_def using assms by (intro round_half_even_le) simp_all
  then show "score_ratio a b \<le> 10000" unfolding score by (intro round_half_even_le) simp_all
  let ?s = "int (score_ratio a b)" and ?P = "(2::int) ^ e"
  have 1: "\<bar>2 * int b * int m - 2 * (int a * ?P)\<bar> \<le> int b"
    using round_half_even_near [OF assms(2), of "a * 2 ^ e"] by (simp add: m_def)
  have 2: "\<bar>2 * ?P * ?s - 2 * (int m * 10000)\<bar> \<le> ?P"
    using round_half_even_near [of "2 ^ e" "m * 10000"] by (simp add: score)
  have tri: "\<bar>int b * x + 10000 * y\<bar> \<le> int b * \<bar>x\<bar> + 10000 * \<bar>y\<bar>" for x y
    using abs_triangle_ineq [of "int b * x" "10000 * y"] by (simp add: abs_mult)
  have "(2::int) ^ 14 \<le> ?P" by (rule power_increasing) (simp_all add: e_def)
  then have big: "10000 \<le> ?P" by simp
  have "\<bar>2 * ?P * (?s * int b) - 2 * ?P * (10000 * int a)\<bar>
      = \<bar>int b * (2 * ?P * ?s - 2 * (int m * 10000)) + 10000 * (2 * int b * int m - 2 * (int a * ?P))\<bar>"
    by (simp add: algebra_simps)
  also have "\<dots> \<le> int b * \<bar>2 * ?P * ?s - 2 * (int m * 10000)\<bar> + 10000 * \<bar>2 * int b * int m - 2 * (int a * ?P)\<bar>"
    by (rule tri)
  also have "\<dots> \<le> int b * ?P + 10000 * int b"
    using 1 2 by (intro add_mono mult_left_mono) simp_all
  also have "\<dots> \<le> 2 * ?P * int b"
    using mult_right_mono [OF big, of "int b"] by (simp add: algebra_simps)
  finally have "\<bar>2 * ?P * (?s * int b - 10000 * int a)\<bar> \<le> 2 * ?P * int b"
    by (simp only: right_diff_distrib)
  then have "2 * ?P * \<bar>?s * int b - 10000 * int a\<bar> \<le> 2 * ?P * int b"
    by (simp only: abs_mult abs_numeral power_abs)
  then show "\<bar>10000 * int a - ?s * int b\<bar> \<le> int b" by (simp add: abs_minus_commute)
qed

lemma score_ratio_full: "0 < b \<Longrightarrow> score_ratio b b = 10000"
  by (simp add: score_ratio_def scale_up.simps [of b b] round_half_even_exact mult.commute [of b])
     (simp add: round_half_even_def)

lemma score_ratio_none: "0 < b \<Longrightarrow> score_ratio 0 b = 0"
  by (simp add: score_ratio_def Let_def round_half_even_def)

section \<open>Properties\<close>

text \<open>
  C33: the evaluator always answers; it stores a score between 0 and 10000 ten-thousandths that is
  within one of the exact share of entries that are no failures, whatever the two roundings do,
  10000 when nothing failed and 0 when everything did, and it leaves the verifier's decision alone.
\<close>

theorem evaluator_scores_ledger:
  "\<exists>r d n. hd_handle (evaluator_handler v) c = (Inr r, d) \<and> x_eval_score d = Some n
    \<and> x_verifier_decision d = x_verifier_decision c \<and> h_status r = HS_PASS
    \<and> n \<le> 10000
    \<and> \<bar>10000 * int (length (filter (\<lambda>e. e_result e \<noteq> LR_FAIL) (x_entries c))) - int n * int (length (x_entries c))\<bar>
        \<le> int (length (x_entries c))
    \<and> (x_entries c \<noteq> [] \<and> list_all (\<lambda>e. e_result e \<noteq> LR_FAIL) (x_entries c) \<longrightarrow> n = 10000)
    \<and> (list_all (\<lambda>e. e_result e = LR_FAIL) (x_entries c) \<longrightarrow> n = 0)"
proof -
  define k where "k = length (filter (\<lambda>e. e_result e \<noteq> LR_FAIL) (x_entries c))"
  have k: "k \<le> length (x_entries c)" by (simp add: k_def)
  have score: "eval_score (x_entries c) = (if x_entries c = [] then 0 else score_ratio k (length (x_entries c)))"
    by (simp add: eval_score_def k_def)
  have "\<exists>r d. hd_handle (evaluator_handler v) c = (Inr r, d) \<and> x_eval_score d = Some (eval_score (x_entries c))
      \<and> x_verifier_decision d = x_verifier_decision c \<and> h_status r = HS_PASS"
    by (simp add: evaluator_handler_def comp_defs Let_def record_artifact_eq ok_result_def)
  moreover have "eval_score (x_entries c) \<le> 10000
    \<and> \<bar>10000 * int k - int (eval_score (x_entries c)) * int (length (x_entries c))\<bar> \<le> int (length (x_entries c))"
    using score_ratio_bounds [OF k] by (simp add: score k_def)
  moreover have "x_entries c \<noteq> [] \<and> list_all (\<lambda>e. e_result e \<noteq> LR_FAIL) (x_entries c) \<longrightarrow> eval_score (x_entries c) = 10000"
  proof (intro impI, elim conjE)
    assume ne: "x_entries c \<noteq> []" and ok: "list_all (\<lambda>e. e_result e \<noteq> LR_FAIL) (x_entries c)"
    then have "k = length (x_entries c)" by (simp add: k_def list_all_iff filter_id_conv)
    with ne show "eval_score (x_entries c) = 10000" by (simp add: score score_ratio_full)
  qed
  moreover have "list_all (\<lambda>e. e_result e = LR_FAIL) (x_entries c) \<longrightarrow> eval_score (x_entries c) = 0"
  proof
    assume "list_all (\<lambda>e. e_result e = LR_FAIL) (x_entries c)"
    then have "k = 0" by (auto simp: k_def list_all_iff filter_empty_conv)
    then show "eval_score (x_entries c) = 0" by (simp add: score score_ratio_none)
  qed
  ultimately show ?thesis unfolding k_def by blast
qed

definition graded_entry :: "nat \<Rightarrow> ledger_result \<Rightarrow> ledger_entry" where
  "graded_entry i result =
     \<lparr>e_entry_id = ''E'' @ zero_pad 4 i, e_timestamp = [], e_artifact_type = AT_TEST, e_artifact_path = [],
      e_command = [], e_result = result, e_hash = ''00'', e_recorded_by = ''sandbox''\<rparr>"

theorem evaluator_scores_ledger_witness:
  "\<forall>v (c :: ctx). \<exists>r d. hd_handle (evaluator_handler v)
      (ctx.x_evidence_update (\<lambda>_. push_entry (graded_entry 1 LR_FAIL) (new_ledger_writer ''T1'' ''R1'')) c) = (Inr r, d)
    \<and> x_eval_score d = Some 0"
proof (intro allI)
  fix v :: env and c :: ctx
  let ?c = "ctx.x_evidence_update (\<lambda>_. push_entry (graded_entry 1 LR_FAIL) (new_ledger_writer ''T1'' ''R1'')) c"
  have "list_all (\<lambda>e. e_result e = LR_FAIL) (x_entries ?c)"
    by (simp add: push_entry_def new_ledger_writer_def new_ledger_def graded_entry_def)
  then show "\<exists>r d. hd_handle (evaluator_handler v) ?c = (Inr r, d) \<and> x_eval_score d = Some 0"
    using evaluator_scores_ledger [of v ?c] by force
qed

end
