(* ===== verification/Verification_Handlers.thy ===== *)
theory Verification_Handlers
  imports Control_Handlers
begin

text \<open>
  The independent verifiers: those of \<open>handlers/verification.py\<close> and the verifier classes of
  \<open>handlers/documentation.py\<close> and \<open>handlers/security.py\<close>.  A verifier fixes its run id, runs
  its gates on the context, records its report and returns what the gates say.  The lemmas give
  the condition under which each verifier returns PASS.
\<close>

section \<open>Parts the verifiers share\<close>

definition set_verifier_run_id :: "string \<Rightarrow> (ctx, unit) comp" where
  "set_verifier_run_id preset =
     modC (\<lambda>c. c\<lparr>x_verifier_run_id :=
       (if x_verifier_run_id c \<noteq> [] then x_verifier_run_id c else preset)\<rparr>)"

text \<open>The scope gate as the handlers call it; a changed file that is no string raises.\<close>

definition request_scope :: "chain_request \<Rightarrow> scope_policy" where
  "request_scope q =
     \<lparr>sg_files_in_scope = sc_files_in_scope (q_scope q),
      sg_files_out_of_scope = sc_files_out_of_scope (q_scope q),
      sg_approved_scope_changes = [], sg_protected_files = [], sg_harness_files = [],
      sg_is_framework_change_task = False\<rparr>"

definition run_scope_gate :: "ctx \<Rightarrow> gate_result res" where
  "run_scope_gate c =
     (case as_strs (x_changed_files c) of
        Inl e \<Rightarrow> Inl e
      | Inr files \<Rightarrow> Inr (scope_gate files (request_scope (x_request c))))"

definition status_str :: "bool \<Rightarrow> string" where
  "status_str b = (if b then ''PASS'' else ''FAIL'')"

definition report_result :: "handler_result \<Rightarrow> ledger_result" where
  "report_result r = (if h_status r = HS_PASS then LR_PASS else LR_FAIL)"

text \<open>Reading the clock for the time stamp of a report.\<close>

definition report_now :: "env \<Rightarrow> (ctx, string) comp" where
  "report_now v = on_world (read_clock (v_now v))"

definition record_report :: "env \<Rightarrow> handler_id \<Rightarrow> json \<Rightarrow> handler_result \<Rightarrow> (ctx, handler_result) comp" where
  "record_report v i report result =
     bindC (record_artifact v ''verifier_report.json'' (json_dumps2 report) AT_VERIFIER_REPORT
              (report_result result) (JStr []) (fst i)) (\<lambda>_.
     ret result)"

section \<open>Analysis\<close>

abbreviation analysis_verifier_id :: handler_id where
  "analysis_verifier_id \<equiv> (''AnalysisVerifierHandler'', HT_VERIFIER)"

definition analysis_verifier_gates :: "ctx \<Rightarrow> gate_result list" where
  "analysis_verifier_gates c =
     [independence_gate (x_coding_agent_run_id c) (x_verifier_run_id c) False,
      run_evidence_gate c [''ANALYSIS_REPORT'']]"

definition analysis_report :: "ctx \<Rightarrow> gate_result list \<Rightarrow> string \<Rightarrow> json" where
  "analysis_report c gates now = JObj
     [(''task_id'', JStr (x_task_id c)),
      (''run_id'', JStr (x_run_id c)),
      (''verifier_run_id'', JStr (x_verifier_run_id c)),
      (''coding_agent_run_id'', x_coding_agent_run_id c),
      (''same_agent_verifier_check'',
         JStr (status_str (JStr (x_verifier_run_id c) \<noteq> x_coding_agent_run_id c))),
      (''decision'', JStr (status_str (list_all passed gates))),
      (''failure_reasons'', jstrs (gate_reasons gates)),
      (''timestamp'', JStr now)]"

definition analysis_verifier_handler :: "env \<Rightarrow> handler" where
  "analysis_verifier_handler v = handler_class analysis_verifier_id
     (bindC (set_verifier_run_id ''analysis-verifier'') (\<lambda>_.
      bindC (getC id) (\<lambda>c.
      let gates = analysis_verifier_gates c; result = from_gates analysis_verifier_id gates False in
      bindC (report_now v) (\<lambda>now.
      record_report v analysis_verifier_id (analysis_report c gates now) result))))"

section \<open>Implementation\<close>

abbreviation implementation_verifier_id :: handler_id where
  "implementation_verifier_id \<equiv> (''ImplementationVerifierHandler'', HT_VERIFIER)"

definition implementation_evidence :: "chain_request \<Rightarrow> string list" where
  "implementation_evidence q =
     (if tests_not_applicable q then [''DIFF''] else [''DIFF'', ''TEST''])"

text \<open>The gates in the order of the source; the last one may raise.\<close>

definition implementation_verifier_gates :: "ctx \<Rightarrow> gate_result list res" where
  "implementation_verifier_gates c =
     (let strategic = (case x_strategic c of Some s \<Rightarrow> s | None \<Rightarrow> default_strategic) in
      case run_scope_gate c of
        Inl e \<Rightarrow> Inl e
      | Inr scope \<Rightarrow> Inr
         [independence_gate (x_coding_agent_run_id c) (x_verifier_run_id c)
            (\<not> x_summary_quarantined c),
          test_gate (x_test_outcomes c) RT_IMPLEMENTATION (\<not> tests_not_applicable (x_request c)),
          run_evidence_gate c (implementation_evidence (x_request c)),
          strategic_programming_gate strategic,
          scope])"

text \<open>The gate a report line is about: the last one of that name.\<close>

definition gate_named :: "string \<Rightarrow> gate_result list \<Rightarrow> gate_result option" where
  "gate_named n gates = map_of (rev (map (\<lambda>g. (g_name g, g)) gates)) n"

definition named_passed :: "string \<Rightarrow> gate_result list \<Rightarrow> bool" where
  "named_passed n gates \<longleftrightarrow> (case gate_named n gates of Some g \<Rightarrow> passed g | None \<Rightarrow> False)"

definition implementation_report :: "ctx \<Rightarrow> gate_result list \<Rightarrow> bool \<Rightarrow> string \<Rightarrow> json" where
  "implementation_report c gates tests_applicable now = JObj
     [(''task_id'', JStr (x_task_id c)),
      (''run_id'', JStr (x_run_id c)),
      (''verifier_run_id'', JStr (x_verifier_run_id c)),
      (''coding_agent_run_id'', x_coding_agent_run_id c),
      (''same_agent_verifier_check'',
         JStr (status_str (named_passed ''no_self_certification_gate'' gates))),
      (''test_status'', JStr (if tests_applicable then status_str (named_passed ''test_gate'' gates)
                              else ''NOT_APPLICABLE'')),
      (''scope_status'', JStr (status_str (named_passed ''scope_gate'' gates))),
      (''evidence_status'', JStr (status_str (named_passed ''evidence_gate'' gates))),
      (''decision'', JStr (status_str (list_all passed gates))),
      (''failure_reasons'', jstrs (gate_reasons gates)),
      (''timestamp'', JStr now)]"

definition implementation_verifier_handler :: "env \<Rightarrow> handler" where
  "implementation_verifier_handler v = handler_class implementation_verifier_id
     (bindC (set_verifier_run_id ''impl-verifier'') (\<lambda>_.
      bindC (getC id) (\<lambda>c.
      bindC (liftC (implementation_verifier_gates c)) (\<lambda>gates.
      let result = from_gates implementation_verifier_id gates False in
      bindC (report_now v) (\<lambda>now.
      record_report v implementation_verifier_id
        (implementation_report c gates (\<not> tests_not_applicable (x_request c)) now) result)))))"

definition verification_handlers :: "env \<Rightarrow> handler list" where
  "verification_handlers v = [analysis_verifier_handler v, implementation_verifier_handler v]"

section \<open>Documentation and security\<close>

abbreviation documentation_verifier_id :: handler_id where
  "documentation_verifier_id \<equiv> (''DocumentationVerifierHandler'', HT_VERIFIER)"

abbreviation security_verifier_id :: handler_id where
  "security_verifier_id \<equiv> (''SecurityVerifierHandler'', HT_VERIFIER)"

text \<open>The security chain has no agent stage, so there is no narrative to quarantine.\<close>

definition diff_verifier_gates :: "bool \<Rightarrow> ctx \<Rightarrow> gate_result list res" where
  "diff_verifier_gates narrative c =
     (case run_scope_gate c of
        Inl e \<Rightarrow> Inl e
      | Inr scope \<Rightarrow> Inr
         [independence_gate (x_coding_agent_run_id c) (x_verifier_run_id c) narrative,
          run_evidence_gate c [''DIFF''],
          scope])"

definition diff_report :: "ctx \<Rightarrow> handler_result \<Rightarrow> gate_result list \<Rightarrow> string \<Rightarrow> json" where
  "diff_report c result gates now = JObj
     [(''task_id'', JStr (x_task_id c)),
      (''run_id'', JStr (x_run_id c)),
      (''verifier_run_id'', JStr (x_verifier_run_id c)),
      (''coding_agent_run_id'', x_coding_agent_run_id c),
      (''test_status'', JStr ''NOT_APPLICABLE''),
      (''decision'', JStr (status_str (h_status result = HS_PASS))),
      (''failure_reasons'', jstrs (gate_reasons gates)),
      (''timestamp'', JStr now)]"

definition documentation_verifier_handler :: "env \<Rightarrow> handler" where
  "documentation_verifier_handler v = handler_class documentation_verifier_id
     (bindC (set_verifier_run_id ''doc-verifier'') (\<lambda>_.
      bindC (getC id) (\<lambda>c.
      bindC (liftC (diff_verifier_gates (\<not> x_summary_quarantined c) c)) (\<lambda>gates.
      let result = from_gates documentation_verifier_id gates False in
      bindC (report_now v) (\<lambda>now.
      record_report v documentation_verifier_id (diff_report c result gates now) result)))))"

definition security_verifier_handler :: "env \<Rightarrow> handler" where
  "security_verifier_handler v = handler_class security_verifier_id
     (bindC (set_verifier_run_id ''security-verifier'') (\<lambda>_.
      bindC (getC id) (\<lambda>c.
      bindC (liftC (diff_verifier_gates False c)) (\<lambda>gates.
      let result = from_gates security_verifier_id gates False in
      bindC (report_now v) (\<lambda>now.
      record_report v security_verifier_id (diff_report c result gates now) result)))))"

section \<open>The harness can rely on them\<close>

lemmas verifier_defs = set_verifier_run_id_def report_now_def record_report_def

lemma verification_handlers_ok: "list_all handler_ok (verification_handlers v)"
  by (auto simp: verification_handlers_def analysis_verifier_handler_def
      implementation_verifier_handler_def verifier_defs core_defs evidence_name_defs
      intro!: handler_okI steps_rules returns_rules)

lemma documentation_verifier_ok: "handler_ok (documentation_verifier_handler v)"
  by (auto simp: documentation_verifier_handler_def verifier_defs core_defs evidence_name_defs
      intro!: handler_okI steps_rules returns_rules)

lemma security_verifier_ok: "handler_ok (security_verifier_handler v)"
  by (auto simp: security_verifier_handler_def verifier_defs core_defs evidence_name_defs
      intro!: handler_okI steps_rules returns_rules)

section \<open>What a verifier's PASS means\<close>

text \<open>The context a verifier's gates see: the one it was called on, with its run id filled in.\<close>

definition verifier_view :: "string \<Rightarrow> ctx \<Rightarrow> ctx" where
  "verifier_view preset c = c\<lparr>x_verifier_run_id :=
     (if x_verifier_run_id c \<noteq> [] then x_verifier_run_id c else preset)\<rparr>"

lemma record_report_result:
  "record_report v i report result c = (Inr r, d) \<Longrightarrow> r = result"
  by (auto simp: record_report_def elim!: bindC_Inr_E)

lemma implementation_verifier_result:
  assumes "hd_handle (implementation_verifier_handler v) c = (Inr r, d)"
  obtains gates where "implementation_verifier_gates (verifier_view ''impl-verifier'' c) = Inr gates"
    and "r = from_gates implementation_verifier_id gates False"
  using assms
  by (auto simp: implementation_verifier_handler_def handler_class_def set_verifier_run_id_def
      verifier_view_def Let_def elim!: bindC_Inr_E dest!: record_report_result)

text \<open>The facts an implementation PASS certifies.\<close>

definition implementation_certified :: "ctx \<Rightarrow> bool" where
  "implementation_certified c \<longleftrightarrow>
     x_coding_agent_run_id c \<noteq> JStr (x_verifier_run_id c) \<and> x_summary_quarantined c
   \<and> list_all outcome_ok (x_test_outcomes c)
   \<and> (\<not> tests_not_applicable (x_request c) \<longrightarrow> list_ex t_ran (x_test_outcomes c))
   \<and> passed (run_evidence_gate c (implementation_evidence (x_request c)))
   \<and> (\<exists>s. x_strategic c = Some s \<and> passed (strategic_programming_gate s))
   \<and> (\<exists>files. x_changed_files c = map JStr files
        \<and> list_all (file_admitted (request_scope (x_request c))) files)"

lemma default_strategic_fails [simp]: "\<not> passed (strategic_programming_gate default_strategic)"
  by (simp add: strategic_gate_passed default_strategic_def strip_def lstrip_def)

lemma as_strs_Inr: "as_strs xs = Inr ss \<longleftrightarrow> xs = map JStr ss"
proof
  assume "as_strs xs = Inr ss"
  then have "list_all2 (\<lambda>x y. as_str x = Inr y) xs ss" by (simp add: as_strs_def res_map_Inr)
  then show "xs = map JStr ss"
  proof (induction rule: list_all2_induct)
    case (Cons x xs y ys)
    then show ?case by (cases x) auto
  qed simp
qed simp

lemma implementation_verifier_pass:
  assumes "implementation_verifier_gates c = Inr gates" and "x_verifier_run_id c \<noteq> []"
  shows "h_status (from_gates i gates False) = HS_PASS \<longleftrightarrow> implementation_certified c"
proof -
  obtain files where files: "x_changed_files c = map JStr files"
    and gates: "gates =
      [independence_gate (x_coding_agent_run_id c) (x_verifier_run_id c) (\<not> x_summary_quarantined c),
       test_gate (x_test_outcomes c) RT_IMPLEMENTATION (\<not> tests_not_applicable (x_request c)),
       run_evidence_gate c (implementation_evidence (x_request c)),
       strategic_programming_gate (case x_strategic c of Some s \<Rightarrow> s | None \<Rightarrow> default_strategic),
       scope_gate files (request_scope (x_request c))]"
    using assms(1)
    by (auto simp: implementation_verifier_gates_def run_scope_gate_def as_strs_Inr
        split: sum.splits)
  have "list_all reasoned gates" by (simp add: gates run_evidence_gate_def)
  then have "h_status (from_gates i gates False) = HS_PASS \<longleftrightarrow> list_all passed gates"
    by (rule from_gates_pass)
  also have "\<dots> \<longleftrightarrow> implementation_certified c"
    using assms(2) files
    by (auto simp: gates implementation_certified_def no_self_certification_passed
        test_gate_passed scope_gate_passed split: option.splits)
  finally show ?thesis .
qed

end
