(* ===== verification/Documentation_Handlers.thy ===== *)
theory Documentation_Handlers
  imports Analysis_Handlers Verification_Handlers
begin

text \<open>
  The documentation handlers (\<open>handlers/documentation.py\<close>): the inventory of documents and the
  check of repository-relative links.  The verifier of that file is in
  \<open>Verification_Handlers\<close>.
\<close>

section \<open>Documents\<close>

definition is_doc :: "string \<Rightarrow> bool" where
  "is_doc path =
     (let norm = norm_slashes path; base = lower (after_last CHR ''/'' norm); low = lower norm in
      starts_with ''docs/'' norm \<or> starts_with ''readme'' base
    \<or> ends_with ''.md'' low \<or> ends_with ''.rst'' low \<or> ends_with ''.txt'' low)"

text \<open>The files known to the run, or the inventory, which is then remembered.\<close>

definition known_files :: "(ctx, string list) comp" where
  "known_files =
     bindC (getC id) (\<lambda>c.
     if the_files c \<noteq> [] then ret (the_files c)
     else
       let files = remdups (inventory (x_world c) (x_repo c)) in
       bindC (set_files files) (\<lambda>_. ret files))"

abbreviation documentation_gap_id :: handler_id where
  "documentation_gap_id \<equiv> (''DocumentationGapHandler'', HT_READ_ONLY_COMMAND)"

definition documentation_gap_handler :: "env \<Rightarrow> handler" where
  "documentation_gap_handler v = handler_class documentation_gap_id
     (bindC known_files (\<lambda>files.
      let docs = sort (filter is_doc files) in
      record_and_pass v documentation_gap_id ''documentation_gap.log''
        (json_dumps2 (JObj [(''doc_files'', jstrs docs), (''has_docs'', JBool (docs \<noteq> [])),
                            (''doc_count'', JInt (int (length docs)))]))
        AT_ANALYSIS_REPORT ''documentation_gap''))"

section \<open>Links\<close>

text \<open>
  The match of \<open>!?\[[^\]]*\]\(([^)]+)\)\<close> that starts at an opening bracket: the target and what
  follows the match.  The optional exclamation mark changes neither.
\<close>

definition link_at :: "string \<Rightarrow> (string \<times> string) option" where
  "link_at s =
     (if \<not> starts_with ''['' s then None
      else let after_label = dropWhile (\<lambda>c. c \<noteq> CHR '']'') (tl s) in
        if \<not> starts_with ''](''  after_label then None
        else let body = drop 2 after_label; target = takeWhile (\<lambda>c. c \<noteq> CHR '')'') body in
          if target = [] \<or> length target = length body then None
          else Some (target, drop (Suc (length target)) body))"

lemma link_at_shorter: "link_at s = Some (t, r) \<Longrightarrow> length r < length s"
proof -
  assume a: "link_at s = Some (t, r)"
  let ?d = "dropWhile (\<lambda>c. c \<noteq> CHR '']'') (tl s)"
  have "length ?d \<le> length (tl s)" by (rule length_dropWhile_le)
  moreover obtain k where "r = drop k ?d"
    using a by (auto simp: link_at_def Let_def split: if_splits)
  moreover have "s \<noteq> []" using a by (auto simp: link_at_def starts_with_def)
  ultimately show ?thesis by (cases s) auto
qed

text \<open>All matches from left to right (\<open>findall\<close>).\<close>

function find_links :: "string \<Rightarrow> string list" where
  "find_links s =
     (case link_at s of
        Some (target, rest) \<Rightarrow> target # find_links rest
      | None \<Rightarrow> (case s of [] \<Rightarrow> [] | _ # s' \<Rightarrow> find_links s'))"
  by pat_completeness auto
termination
  by (relation "measure length") (auto dest: link_at_shorter)

declare find_links.simps [simp del]

definition link_target :: "string \<Rightarrow> string" where
  "link_target raw = (if strip raw \<noteq> [] then hd (split_ws (strip raw)) else [])"

definition link_path :: "string \<Rightarrow> string" where
  "link_path raw = takeWhile (\<lambda>c. c \<noteq> CHR ''#'') (link_target raw)"

definition pparent :: "ppath \<Rightarrow> ppath" where
  "pparent p = p\<lparr>p_parts := butlast (p_parts p)\<rparr>"

record link_report =
  lk_checked :: "string list"
  lk_external :: "string list"
  lk_broken :: "string list"

definition no_links :: link_report where
  "no_links = \<lparr>lk_checked = [], lk_external = [], lk_broken = []\<rparr>"

definition is_external :: "string \<Rightarrow> bool" where
  "is_external link \<longleftrightarrow>
     starts_with ''http://'' link \<or> starts_with ''https://'' link \<or> starts_with ''mailto:'' link"

text \<open>One link of a document, and whether its target stays in the repository and exists.\<close>

definition link_ok :: "world \<Rightarrow> ppath \<Rightarrow> ppath \<Rightarrow> string \<Rightarrow> bool" where
  "link_ok w repo doc link \<longleftrightarrow>
     (let target = pjoin (pparent doc) link in
      prefix (locate w repo) (locate w target) \<and> path_exists w target)"

definition check_link :: "world \<Rightarrow> ppath \<Rightarrow> ppath \<Rightarrow> string \<Rightarrow> string \<Rightarrow> link_report \<Rightarrow> link_report" where
  "check_link w repo doc norm raw rep =
     (let link = link_path raw in
      if link = [] then rep
      else if is_external link
      then rep\<lparr>lk_external := lk_external rep @ [norm @ '' -> '' @ link_target raw]\<rparr>
      else
        let rep' = rep\<lparr>lk_checked := lk_checked rep @ [norm @ '' -> '' @ link]\<rparr> in
        if link_ok w repo doc link then rep'
        else rep'\<lparr>lk_broken := lk_broken rep' @ [norm @ '' -> '' @ link]\<rparr>)"

definition check_doc :: "world \<Rightarrow> ppath \<Rightarrow> string \<Rightarrow> link_report \<Rightarrow> link_report" where
  "check_doc w repo file rep =
     (let norm = norm_slashes file; doc = pjoin repo norm in
      if \<not> ends_with ''.md'' (lower norm) then rep
      else case read_text_replace w doc of
        Inl _ \<Rightarrow> rep
      | Inr text \<Rightarrow> fold (check_link w repo doc norm) (find_links text) rep)"

abbreviation link_check_id :: handler_id where
  "link_check_id \<equiv> (''LinkCheckHandler'', HT_PURE_CHECK)"

definition link_check_handler :: "env \<Rightarrow> handler" where
  "link_check_handler v = handler_class link_check_id
     (bindC (getC id) (\<lambda>c.
      bindC (liftC (as_strs (x_changed_files c))) (\<lambda>files.
      let rep = fold (check_doc (x_world c) (x_repo c)) files no_links in
      bindC (record_artifact v ''link_check.log''
               (json_dumps2 (JObj [(''checked_internal'', jstrs (lk_checked rep)),
                  (''external_not_applicable'', jstrs (lk_external rep)),
                  (''broken_internal'', jstrs (lk_broken rep))]))
               AT_COMMAND_OUTPUT LR_INFO (JStr ''link_check'') (fst link_check_id)) (\<lambda>_.
      if lk_broken rep \<noteq> []
      then ret (fail_plain link_check_id
             (map (\<lambda>b. ''broken internal documentation link: '' @ b) (lk_broken rep)))
      else ret (ok_plain link_check_id)))))"

definition documentation_handlers :: "env \<Rightarrow> handler list" where
  "documentation_handlers v =
     [documentation_gap_handler v, link_check_handler v, documentation_verifier_handler v]"

section \<open>The harness can rely on them\<close>

lemma evolves_known_files [steps_rules]: "steps evolves known_files"
  by (auto simp: known_files_def set_files_def core_defs intro!: steps_rules)

lemma documentation_handlers_ok: "list_all handler_ok (documentation_handlers v)"
  by (auto simp: documentation_handlers_def documentation_gap_handler_def link_check_handler_def
      documentation_verifier_ok core_defs evidence_name_defs
      intro!: handler_okI steps_rules returns_rules)

section \<open>What the link check finds\<close>



section \<open>Properties\<close>




end
