(* ===== verification/Runners.thy ===== *)
theory Runners
  imports Handler_Base
begin

text \<open>
  The runners of \<open>backend/app/runners/\<close>: the sandbox policy, the command runner that asks it
  before it reaches the shell, and the git runner that captures a diff.  The shell and git
  themselves are the parameters \<open>v_shell\<close> and \<open>v_git\<close>.
\<close>

section \<open>Sandbox policy\<close>

record sandbox_policy =
  sb_read_only :: bool
  sb_workspace_path :: string
  sb_network_enabled :: bool
  sb_allowed_commands :: "string list"
  sb_forbidden_commands :: "string list"
  sb_files_in_scope :: "string list"
  sb_files_out_of_scope :: "string list"
  sb_timeout_seconds :: nat

definition build_policy ::
    "run_type \<Rightarrow> string list \<Rightarrow> string list \<Rightarrow> string list \<Rightarrow> string list \<Rightarrow> string \<Rightarrow> sandbox_policy" where
  "build_policy rt in_scope out_of_scope allowed forbidden workspace =
     \<lparr>sb_read_only = (rt = RT_READ_ONLY_ANALYSIS), sb_workspace_path = workspace,
      sb_network_enabled = False, sb_allowed_commands = allowed,
      sb_forbidden_commands = forbidden, sb_files_in_scope = in_scope,
      sb_files_out_of_scope = out_of_scope, sb_timeout_seconds = 600\<rparr>"

definition check_write :: "sandbox_policy \<Rightarrow> string \<Rightarrow> gate_result" where
  "check_write p path =
     gate_of ''sandbox_write_policy''
       (if sb_read_only p then [''read-only mode must not modify repository files'']
        else if sb_files_in_scope p \<noteq> [] \<and> \<not> matches_any path (sb_files_in_scope p)
        then [''write outside approved scope: '' @ path]
        else if matches_any path (sb_files_out_of_scope p)
        then [''write to out-of-scope file: '' @ path]
        else [])"

definition check_command :: "sandbox_policy \<Rightarrow> string \<Rightarrow> gate_result" where
  "check_command p command =
     gate_of ''sandbox_write_policy''
       (if matches_any command (sb_forbidden_commands p) then [''forbidden command: '' @ command]
        else if sb_allowed_commands p \<noteq> [] \<and> \<not> matches_any command (sb_allowed_commands p)
        then [''command not allowlisted: '' @ command]
        else [])"

lemma check_write_passed [gate_passed]:
  "passed (check_write p path) \<longleftrightarrow>
     \<not> sb_read_only p \<and> (sb_files_in_scope p = [] \<or> matches_any path (sb_files_in_scope p))
   \<and> \<not> matches_any path (sb_files_out_of_scope p)"
  by (auto simp: check_write_def)

lemma check_command_passed [gate_passed]:
  "passed (check_command p cmd) \<longleftrightarrow>
     \<not> matches_any cmd (sb_forbidden_commands p)
   \<and> (sb_allowed_commands p = [] \<or> matches_any cmd (sb_allowed_commands p))"
  by (auto simp: check_command_def)

text \<open>
  A command list taken from metadata: a falsy value is the empty list, and Pydantic accepts
  nothing but a list of strings.
\<close>

definition command_list :: "json \<Rightarrow> string list res" where
  "command_list v =
     (if \<not> truthy v then Inr []
      else case v of
        JArr xs \<Rightarrow> (case as_strs xs of Inr ss \<Rightarrow> Inr ss | Inl _ \<Rightarrow> Inl ValidationError)
      | _ \<Rightarrow> Inl ValidationError)"

lemma command_list_jstrs [simp]: "command_list (jstrs ss) = Inr ss"
  by (simp add: command_list_def)

section \<open>Commands\<close>

record command_result =
  cr_command :: string
  cr_rejected :: bool
  cr_reason :: string
  cr_exit_code :: "int option"
  cr_stdout :: captured
  cr_stderr :: captured
  cr_timed_out :: bool

definition cr_ok :: "command_result \<Rightarrow> bool" where
  "cr_ok r \<longleftrightarrow> \<not> cr_rejected r \<and> \<not> cr_timed_out r \<and> cr_exit_code r = Some 0"

text \<open>\<open>out or ''''\<close>.\<close>

fun or_empty :: "captured \<Rightarrow> captured" where
  "or_empty NotCaptured = Captured []"
| "or_empty (CapturedBytes b) = (if b = [] then Captured [] else CapturedBytes b)"
| "or_empty (Captured s) = Captured s"

definition run_command ::
    "env \<Rightarrow> sandbox_policy \<Rightarrow> string \<Rightarrow> nat \<Rightarrow> string \<Rightarrow> (world, command_result) comp" where
  "run_command v p cwd timeout command =
     (let gate = check_command p command in
      if \<not> passed gate
      then ret \<lparr>cr_command = command, cr_rejected = True,
                cr_reason = py_join ''; '' (g_reasons gate), cr_exit_code = None,
                cr_stdout = Captured [], cr_stderr = Captured [], cr_timed_out = False\<rparr>
      else bindC (v_shell v cwd command timeout) (\<lambda>p.
        ret (case p of
          TimedOut out err \<Rightarrow>
            \<lparr>cr_command = command, cr_rejected = False, cr_reason = [], cr_exit_code = None,
             cr_stdout = or_empty out, cr_stderr = or_empty err, cr_timed_out = True\<rparr>
        | Finished code out err \<Rightarrow>
            \<lparr>cr_command = command, cr_rejected = False, cr_reason = [], cr_exit_code = Some code,
             cr_stdout = Captured out, cr_stderr = Captured err, cr_timed_out = False\<rparr>)))"

definition DEFAULT_COMMAND_TIMEOUT :: nat where
  "DEFAULT_COMMAND_TIMEOUT = 120"

text \<open>A command the policy refuses leaves the world as it is, whatever the shell does.\<close>

lemma run_command_rejected:
  assumes "\<not> passed (check_command p cmd)" and "run_command v p cwd t cmd w = (r, w')"
  shows "w' = w \<and> (\<exists>cr. r = Inr cr \<and> cr_rejected cr \<and> cr_exit_code cr = None)"
  using assms by (auto simp: run_command_def Let_def)

lemma run_command_executed:
  assumes "run_command v p cwd t cmd w = (Inr r, w')" and "\<not> cr_rejected r"
  shows "passed (check_command p cmd)"
  using assms by (auto simp: run_command_def Let_def split: if_splits)

section \<open>Git\<close>

record git_capture =
  gc_status :: string
  gc_diff :: string
  gc_diff_check :: string
  gc_diff_check_ok :: bool
  gc_changed_files :: "string list"

definition GIT_TIMEOUT :: nat where
  "GIT_TIMEOUT = 60"

definition git_run :: "env \<Rightarrow> ppath \<Rightarrow> string list \<Rightarrow> (world, int \<times> string \<times> string) comp" where
  "git_run v repo args = v_git v (str_path repo) args GIT_TIMEOUT"

text \<open>A git that is missing or too slow is answered with a default.\<close>

definition or_git_failure :: "'a \<Rightarrow> (world, 'a) comp \<Rightarrow> (world, 'a) comp" where
  "or_git_failure x m =
     catchC m (\<lambda>e. if e = TimeoutExpired \<or> e = FileNotFoundError then ret x else throw e)"

definition git_is_repo :: "env \<Rightarrow> ppath \<Rightarrow> (world, bool) comp" where
  "git_is_repo v repo =
     or_git_failure False
       (bindC (git_run v repo [''rev-parse'', ''--is-inside-work-tree'']) (\<lambda>(code, out, err).
        ret (code = 0 \<and> strip out = ''true'')))"

definition git_head_commit :: "env \<Rightarrow> ppath \<Rightarrow> (world, string option) comp" where
  "git_head_commit v repo =
     bindC (git_is_repo v repo) (\<lambda>is_repo.
     if \<not> is_repo then ret None
     else or_git_failure None
       (bindC (git_run v repo [''rev-parse'', ''HEAD'']) (\<lambda>(code, out, err).
        ret (if code \<noteq> 0 then None else if strip out = [] then None else Some (strip out)))))"

definition git_capture_run :: "env \<Rightarrow> ppath \<Rightarrow> (world, git_capture) comp" where
  "git_capture_run v repo =
     bindC (git_run v repo [''add'', ''-N'', ''.'']) (\<lambda>_.
     bindC (git_run v repo [''status'', ''--short'']) (\<lambda>(c1, status, e1).
     bindC (git_run v repo [''diff'']) (\<lambda>(c2, diff, e2).
     bindC (git_run v repo [''diff'', ''--check'']) (\<lambda>(c3, check, e3).
     bindC (git_run v repo [''diff'', ''--name-only'']) (\<lambda>(c4, names, e4).
     ret \<lparr>gc_status = status, gc_diff = diff, gc_diff_check = check, gc_diff_check_ok = (c3 = 0),
          gc_changed_files = filter (\<lambda>l. l \<noteq> []) (map strip (splitlines names))\<rparr>)))))"

section \<open>Properties\<close>

text \<open>
  C25: a command the sandbox policy refuses is never handed to the shell: whatever the shell
  does, the world is as before and the result is a rejection without an exit code; a result that is
  no rejection means that no forbidden pattern matches the command and that, where there is an
  allow list, one of its patterns does.
\<close>

theorem refused_command_never_runs:
  assumes "run_command v p cwd timeout cmd w = (r, w')"
  shows "(\<not> passed (check_command p cmd) \<longrightarrow>
            w' = w \<and> (\<exists>cr. r = Inr cr \<and> cr_rejected cr \<and> cr_exit_code cr = None \<and> \<not> cr_ok cr))
    \<and> (\<forall>cr. r = Inr cr \<and> \<not> cr_rejected cr \<longrightarrow>
          \<not> matches_any cmd (sb_forbidden_commands p)
          \<and> (sb_allowed_commands p = [] \<or> matches_any cmd (sb_allowed_commands p)))"
  using run_command_rejected [OF _ assms] run_command_executed assms
  by (auto simp: cr_ok_def check_command_passed)

definition quiet_env :: env where
  "quiet_env =
     \<lparr>v_now = (\<lambda>_. ''now''), v_shell = (\<lambda>_ _ _. ret (Finished 0 [] [])),
      v_git = (\<lambda>_ _ _. ret (1, [], [])), v_yaml_error = (\<lambda>_. None),
      v_checkpoint_json = (\<lambda>_. ''{}''), v_invocation_json = (\<lambda>_. ''{}''),
      v_output_json = (\<lambda>_. ''{}''), v_strategic = (\<lambda>_. None), v_output = (\<lambda>_. None),
      v_exit_code = (\<lambda>_. None)\<rparr>"

definition two_roots :: world where
  "two_roots = \<lparr>w_files = [], w_dirs = [[''ws'', ''repo''], [''etc'']], w_cwd = [], w_tick = 0\<rparr>"

definition no_removal :: sandbox_policy where
  "no_removal = \<lparr>sb_read_only = False, sb_workspace_path = [], sb_network_enabled = False, sb_allowed_commands = [], sb_forbidden_commands = [''rm *''], sb_files_in_scope = [], sb_files_out_of_scope = [], sb_timeout_seconds = 120\<rparr>"

theorem refused_command_never_runs_witness:
  "\<exists>cr. run_command quiet_env no_removal ''.'' 1 ''rm -rf x'' two_roots = (Inr cr, two_roots) \<and> cr_rejected cr"
proof -
  have refused: "\<not> passed (check_command no_removal ''rm -rf x'')" by code_simp
  obtain r w' where run: "run_command quiet_env no_removal ''.'' 1 ''rm -rf x'' two_roots = (r, w')" by force
  from refused_command_never_runs [OF run] refused run show ?thesis by blast
qed

end
