(* ===== verification/Implementation_Handlers.thy ===== *)
theory Implementation_Handlers
  imports Runners Verification_Handlers
begin

text \<open>
  The implementation handlers (\<open>handlers/implementation.py\<close>): the design gate, the agent step and
  the quarantine of its output, the capture of the diff, the test run, the scope check and the
  reproduction of a failure.  Free-form metadata is a JSON value, so every access that can raise
  in Python is a branch here.
\<close>

section \<open>Design and agent\<close>

abbreviation strategic_design_id :: handler_id where
  "strategic_design_id \<equiv> (''StrategicDesignGateHandler'', HT_PURE_CHECK)"

definition meta_get :: "string \<Rightarrow> (ctx, json) comp" where
  "meta_get k = getC (\<lambda>c. dget (q_metadata (x_request c)) k)"

definition strategic_design_handler :: "env \<Rightarrow> handler" where
  "strategic_design_handler v = handler_class strategic_design_id
     (bindC (meta_get ''strategic_design'') (\<lambda>design.
      if \<not> truthy design
      then ret (fail_result strategic_design_id [''strategic design not provided''] True []
                 [''supply request.metadata.strategic_design with >=2 options''])
      else case v_strategic v design of
        None \<Rightarrow> throw ValidationError
      | Some review \<Rightarrow>
          bindC (modC (\<lambda>c. c\<lparr>x_strategic := Some review\<rparr>)) (\<lambda>_.
          ret (from_gates strategic_design_id [strategic_programming_gate review] False))))"

abbreviation agent_invocation_id :: handler_id where
  "agent_invocation_id \<equiv> (''AgentInvocationHandler'', HT_AGENT_INVOCATION)"

definition set_coding_agent_run_id :: "json \<Rightarrow> (ctx, unit) comp" where
  "set_coding_agent_run_id r = modC (\<lambda>c. c\<lparr>x_coding_agent_run_id := r\<rparr>)"

definition agent_invocation_handler :: "env \<Rightarrow> handler" where
  "agent_invocation_handler v = handler_class agent_invocation_id
     (bindC (meta_get ''manual_candidate'') (\<lambda>candidate.
      if \<not> truthy candidate
      then bindC (meta_get ''coding_agent_run_id'') (\<lambda>agent_run_id.
        if truthy agent_run_id
        then bindC (set_coding_agent_run_id agent_run_id) (\<lambda>_.
          ret (skip_result agent_invocation_id
            ''live agent invocation deferred; capturing pre-existing working-tree changes''))
        else ret (blocked_plain agent_invocation_id
               [''no agent adapter configured; live Claude Code invocation deferred'']))
      else
        bindC (liftC (jget_or candidate ''summary'' (JStr []))) (\<lambda>summary.
        bindC (write_quarantined v ''agent_summary.md'' (py_str summary) (fst agent_invocation_id)) (\<lambda>_.
        bindC (liftC (jget_or candidate ''raw_output'' (JStr []))) (\<lambda>raw.
        bindC (write_quarantined v ''raw_agent_output.log'' (py_str raw) (fst agent_invocation_id)) (\<lambda>_.
        bindC (modC (\<lambda>c. c\<lparr>x_shared := (x_shared c)\<lparr>sh_candidate := Some candidate\<rparr>\<rparr>)) (\<lambda>_.
        bindC (liftC (jget candidate ''agent_run_id'')) (\<lambda>rid.
        bindC (getC x_coding_agent_run_id) (\<lambda>old.
        bindC (set_coding_agent_run_id (if truthy rid then rid else old)) (\<lambda>_.
        ret (ok_result agent_invocation_id HD_CONTINUE [] []
          [(''used_as_evidence'', JBool False), (''claimed_status'', JStr ''IGNORED'')]))))))))))) "

abbreviation output_quarantine_id :: handler_id where
  "output_quarantine_id \<equiv> (''AgentOutputQuarantineHandler'', HT_PURE_CHECK)"

definition leaked_output :: "ledger_entry list \<Rightarrow> string option" where
  "leaked_output es =
     find (\<lambda>b. b \<in> set quarantined_basenames) (map (basename \<circ> e_artifact_path) es)"

definition output_quarantine_handler :: handler where
  "output_quarantine_handler = handler_class output_quarantine_id
     (bindC (getC x_entries) (\<lambda>es.
      case leaked_output es of
        Some base \<Rightarrow> ret (fail_plain output_quarantine_id [''agent output used as evidence: '' @ base])
      | None \<Rightarrow>
          bindC (modC (\<lambda>c. c\<lparr>x_summary_quarantined := True\<rparr>)) (\<lambda>_.
          ret (ok_plain output_quarantine_id))))"

section \<open>The diff\<close>

abbreviation diff_capture_id :: handler_id where
  "diff_capture_id \<equiv> (''DiffCaptureHandler'', HT_READ_ONLY_COMMAND)"

text \<open>What either source of a diff gives: diff, status, check output, changed files, check verdict.\<close>

type_synonym diff_facts = "string \<times> string \<times> string \<times> json list \<times> bool"

definition candidate_diff :: "json \<Rightarrow> (ctx, diff_facts) comp" where
  "candidate_diff candidate =
     bindC (liftC (jget candidate ''diff'')) (\<lambda>diff.
     bindC (liftC (jget_or candidate ''git_status'' (JStr []))) (\<lambda>status.
     bindC (liftC (jget_or candidate ''diff_check'' (JStr []))) (\<lambda>check.
     bindC (liftC (jget_or candidate ''changed_files'' (JArr []))) (\<lambda>files.
     bindC (liftC (py_iter files)) (\<lambda>changed.
     ret (py_str diff, py_str status, py_str check, changed, True))))))"

definition record_diff :: "env \<Rightarrow> diff_facts \<Rightarrow> (ctx, handler_result) comp" where
  "record_diff v = (\<lambda>(diff, status, check, changed, check_ok).
     bindC (record_artifact v ''diff.patch'' diff AT_DIFF LR_INFO (JStr ''git diff'')
              (fst diff_capture_id)) (\<lambda>d.
     bindC (record_artifact v ''git_status.log'' status AT_COMMAND_OUTPUT LR_INFO
              (JStr ''git status --short'') (fst diff_capture_id)) (\<lambda>_.
     bindC (record_artifact v ''diff_check.log'' check AT_COMMAND_OUTPUT LR_INFO
              (JStr ''git diff --check'') (fst diff_capture_id)) (\<lambda>_.
     bindC (modC (\<lambda>c. c\<lparr>x_changed_files := changed\<rparr>)) (\<lambda>_.
     if \<not> check_ok
     then ret (fail_plain diff_capture_id
            [''git diff --check reported errors: '' @ take 200 (strip check)])
     else ret (ok_artifacts diff_capture_id [a_path d]))))))"

definition diff_capture_handler :: "env \<Rightarrow> handler" where
  "diff_capture_handler v = handler_class diff_capture_id
     (bindC (getC x_shared) (\<lambda>sh.
      let candidate = (case sh_candidate sh of
            Some cand \<Rightarrow> (if truthy cand then cand else JObj []) | None \<Rightarrow> JObj []) in
      bindC (liftC (jget candidate ''diff'')) (\<lambda>given.
      if truthy given
      then bindC (candidate_diff candidate) (record_diff v)
      else
        bindC (getC x_repo) (\<lambda>repo.
        bindC (on_world (git_is_repo v repo)) (\<lambda>is_repo.
        if \<not> is_repo
        then ret (blocked_plain diff_capture_id
               [''diff.patch required; not a git repository and no candidate diff provided''])
        else
          bindC (on_world (git_capture_run v repo)) (\<lambda>cap.
          if strip (gc_diff cap) = []
          then ret (blocked_plain diff_capture_id
                 [''diff.patch required; no changes detected in working tree''])
          else record_diff v (gc_diff cap, gc_status cap, gc_diff_check cap,
                 map JStr (gc_changed_files cap), gc_diff_check_ok cap)))))))"

section \<open>Running allowlisted commands\<close>

text \<open>
  The stretch of code the test runner, the reproduction and the build handler share: build the
  policy from the metadata at hand, run every command, and keep what was refused apart.
\<close>

definition run_commands :: "env \<Rightarrow> jdict \<Rightarrow> json \<Rightarrow> (ctx, command_result list) comp" where
  "run_commands v meta commands =
     bindC (getC id) (\<lambda>c.
     bindC (liftC (command_list (dget_or meta ''allowed_commands'' commands))) (\<lambda>allowed.
     bindC (liftC (command_list (dget_or meta ''forbidden_commands'' (JArr [])))) (\<lambda>forbidden.
     let policy = build_policy RT_IMPLEMENTATION (sc_files_in_scope (q_scope (x_request c))) []
                    allowed forbidden [] in
     bindC (liftC (py_iter commands)) (\<lambda>cmds.
     mapC (\<lambda>cmd.
       bindC (liftC (as_str cmd)) (\<lambda>s.
       on_world (run_command v policy (str_path (x_repo c)) DEFAULT_COMMAND_TIMEOUT s))) cmds))))"

definition rejections :: "command_result list \<Rightarrow> string list" where
  "rejections rs = map (\<lambda>r. cr_command r @ '': '' @ cr_reason r) (filter cr_rejected rs)"

definition not_allowed :: "handler_id \<Rightarrow> command_result list \<Rightarrow> handler_result" where
  "not_allowed i rs = blocked_plain i (map (\<lambda>r. ''command not allowed: '' @ r) (rejections rs))"

text \<open>Bytes cannot be printed as JSON: the output of a command that timed out may be bytes.\<close>

fun captured_json :: "captured \<Rightarrow> json res" where
  "captured_json (Captured s) = Inr (JStr s)"
| "captured_json _ = Inl TypeError"

definition log_json :: "command_result \<Rightarrow> json res" where
  "log_json r =
     (case (captured_json (cr_stdout r), captured_json (cr_stderr r)) of
        (Inr out, Inr err) \<Rightarrow> Inr (JObj
          [(''command'', JStr (cr_command r)),
           (''exit_code'', case cr_exit_code r of Some n \<Rightarrow> JInt n | None \<Rightarrow> JNull),
           (''timed_out'', JBool (cr_timed_out r)), (''stdout'', out), (''stderr'', err)])
      | _ \<Rightarrow> Inl TypeError)"

text \<open>\<open>''; ''.join(commands)\<close> after every command was run, hence is a string.\<close>

definition joined_commands :: "command_result list \<Rightarrow> json" where
  "joined_commands rs = JStr (py_join ''; '' (map cr_command rs))"

section \<open>Tests\<close>

abbreviation test_runner_id :: handler_id where
  "test_runner_id \<equiv> (''TestRunnerHandler'', HT_READ_ONLY_COMMAND)"

text \<open>\<open>all(...)\<close> and \<open>any(...)\<close> stop at the first element that decides them.\<close>

fun all_exit_zero :: "json list \<Rightarrow> bool res" where
  "all_exit_zero [] = Inr True"
| "all_exit_zero (x # xs) =
     (case jget x ''exit_code'' of
        Inl e \<Rightarrow> Inl e
      | Inr code \<Rightarrow> if equals_zero code then all_exit_zero xs else Inr False)"

definition nonzero_exit :: "json \<Rightarrow> bool" where
  "nonzero_exit code \<longleftrightarrow> \<not> equals_zero code \<and> code \<noteq> JNull"

fun any_exit_nonzero :: "json list \<Rightarrow> bool res" where
  "any_exit_nonzero [] = Inr False"
| "any_exit_nonzero (x # xs) =
     (case jget x ''exit_code'' of
        Inl e \<Rightarrow> Inl e
      | Inr code \<Rightarrow> if nonzero_exit code then Inr True else any_exit_nonzero xs)"

text \<open>The outcome of one log: a missing exit code counts as zero here.\<close>

definition test_outcome_of :: "env \<Rightarrow> json \<Rightarrow> string \<Rightarrow> json \<Rightarrow> test_outcome res" where
  "test_outcome_of v command path log =
     (case jget_or log ''command'' command of
        Inl e \<Rightarrow> Inl e
      | Inr cmd \<Rightarrow> (case jget_or log ''exit_code'' (JInt 0) of
          Inl e \<Rightarrow> Inl e
        | Inr code \<Rightarrow> (case (cmd, v_exit_code v code) of
            (JStr s, Some ec) \<Rightarrow> Inr \<lparr>t_command = s, t_ran = True, t_exit_code = ec,
              t_output_path = path, t_truncated = False, t_skipped = False,
              t_skip_approved = False\<rparr>
          | _ \<Rightarrow> Inl ValidationError)))"

definition record_tests :: "env \<Rightarrow> json \<Rightarrow> json \<Rightarrow> (ctx, handler_result) comp" where
  "record_tests v logs command =
     bindC (liftC (py_iter logs)) (\<lambda>items.
     bindC (liftC (all_exit_zero items)) (\<lambda>all_zero.
     bindC (record_artifact v ''test_output.log'' (json_dumps2 logs) AT_TEST
              (if all_zero then LR_PASS else LR_FAIL) command (fst test_runner_id)) (\<lambda>a.
     bindC (mapC (\<lambda>log.
              bindC (liftC (test_outcome_of v command (a_path a) log)) (\<lambda>outcome.
              modC (\<lambda>c. c\<lparr>x_test_outcomes := x_test_outcomes c @ [outcome]\<rparr>))) items) (\<lambda>_.
     ret (ok_artifacts test_runner_id [a_path a])))))"

definition test_runner_handler :: "env \<Rightarrow> handler" where
  "test_runner_handler v = handler_class test_runner_id
     (bindC (getC (\<lambda>c. q_metadata (x_request c))) (\<lambda>meta.
      if truthy (dget meta ''tests_not_applicable'')
      then skip_with test_runner_id
             (dget_or meta ''tests_not_applicable_reason'' (JStr ''tests not applicable''))
      else if truthy (dget meta ''test_outcomes'')
      then record_tests v (dget meta ''test_outcomes'') (JStr ''python -m pytest'')
      else if \<not> truthy (dget meta ''test_commands'')
      then ret (blocked_plain test_runner_id
             [''test output required; no test command or test evidence provided''])
      else
        bindC (run_commands v meta (dget meta ''test_commands'')) (\<lambda>rs.
        if rejections rs \<noteq> [] then ret (not_allowed test_runner_id rs)
        else
          bindC (liftC (res_map log_json rs)) (\<lambda>logs.
          record_tests v (JArr logs) (joined_commands rs)))))"

abbreviation static_check_id :: handler_id where
  "static_check_id \<equiv> (''StaticCheckHandler'', HT_READ_ONLY_COMMAND)"

definition static_check_handler :: handler where
  "static_check_handler = handler_class static_check_id
     (ret (skip_result static_check_id
        ''static checks deferred (command runner not implemented)''))"

abbreviation scope_diff_id :: handler_id where
  "scope_diff_id \<equiv> (''ScopeDiffHandler'', HT_PURE_CHECK)"

definition scope_diff_handler :: handler where
  "scope_diff_handler = handler_class scope_diff_id
     (bindC (getC id) (\<lambda>c.
      bindC (liftC (run_scope_gate c)) (\<lambda>gate.
      ret (from_gates scope_diff_id [gate] False))))"

section \<open>Reproducing a failure\<close>

definition judge_reproduction ::
    "env \<Rightarrow> handler_id \<Rightarrow> string \<Rightarrow> json \<Rightarrow> json \<Rightarrow> (ctx, handler_result \<times> bool \<times> json) comp" where
  "judge_reproduction v i artifact_name logs command =
     bindC (liftC (py_iter logs)) (\<lambda>items.
     bindC (liftC (any_exit_nonzero items)) (\<lambda>reproduced.
     bindC (record_artifact v artifact_name (json_dumps2 logs) AT_TEST
              (if reproduced then LR_FAIL else LR_PASS) command (fst i)) (\<lambda>a.
     if \<not> reproduced
     then ret (fail_plain i [''reproduction did not fail; no baseline bug to fix ''
                             @ ''(all reproduction commands exited 0)''], False, logs)
     else
       bindC (modC (\<lambda>c. c\<lparr>x_shared := (x_shared c)\<lparr>sh_reproduction := Some (JObj
                [(''command'', command), (''artifact'', JStr (a_path a)), (''outcomes'', logs)])\<rparr>\<rparr>)) (\<lambda>_.
       ret (ok_result i HD_CONTINUE [a_path a] [] [(''reproduced'', JBool True)], True, logs)))))"

definition run_reproduction ::
    "env \<Rightarrow> handler_id \<Rightarrow> json \<Rightarrow> string \<Rightarrow> string \<Rightarrow> (ctx, handler_result \<times> bool \<times> json) comp" where
  "run_reproduction v i repro artifact_name missing_reason =
     (if \<not> truthy repro
      then ret (fail_result i [missing_reason] True []
                  [''supply request.metadata.reproduction with a failing test_outcomes entry ''
                   @ ''or a test_commands list''], False, JArr [])
      else case repro of
        JObj d \<Rightarrow>
          if truthy (dget d ''test_outcomes'')
          then judge_reproduction v i artifact_name (dget d ''test_outcomes'')
                 (dget_or d ''command'' (JStr ''python -m pytest''))
          else if \<not> truthy (dget d ''test_commands'')
          then ret (blocked_plain i [''reproduction provided without test_outcomes or test_commands''],
                    False, JArr [])
          else
            bindC (run_commands v d (dget d ''test_commands'')) (\<lambda>rs.
            if rejections rs \<noteq> [] then ret (not_allowed i rs, False, JArr [])
            else
              bindC (liftC (res_map log_json rs)) (\<lambda>logs.
              judge_reproduction v i artifact_name (JArr logs) (joined_commands rs)))
      | _ \<Rightarrow> throw AttributeError)"

abbreviation failure_reproduction_id :: handler_id where
  "failure_reproduction_id \<equiv> (''FailureReproductionHandler'', HT_READ_ONLY_COMMAND)"

definition failure_reproduction_handler :: "env \<Rightarrow> handler" where
  "failure_reproduction_handler v = handler_class failure_reproduction_id
     (bindC (meta_get ''reproduction'') (\<lambda>repro.
      bindC (run_reproduction v failure_reproduction_id repro ''failure_reproduction.log''
               ''reproduction required; a bug fix must first reproduce the failure'')
        (\<lambda>(result, _, _). ret result)))"

definition implementation_handlers :: "env \<Rightarrow> handler list" where
  "implementation_handlers v =
     [strategic_design_handler v, agent_invocation_handler v, output_quarantine_handler,
      diff_capture_handler v, test_runner_handler v, static_check_handler, scope_diff_handler,
      failure_reproduction_handler v]"

section \<open>The harness can rely on them\<close>

lemma evolves_run_commands [steps_rules]: "steps evolves (run_commands v meta cmds)"
  by (auto simp: run_commands_def intro!: steps_rules)

lemma evolves_run_reproduction [steps_rules]:
  assumes "evidence_name n"
  shows "steps evolves (run_reproduction v i repro n m)"
  using assms
  by (cases repro)
     (auto simp: run_reproduction_def judge_reproduction_def core_defs intro!: steps_rules)

lemma returns_judge_reproduction:
  "snd i \<noteq> HT_PR_ACTION \<Longrightarrow> returns (\<lambda>(r, _, _). good_result i r) (judge_reproduction v i n logs cmd)"
  by (auto simp: judge_reproduction_def intro!: returns_rules)

lemma returns_run_reproduction:
  "snd i \<noteq> HT_PR_ACTION \<Longrightarrow> returns (\<lambda>(r, _, _). good_result i r) (run_reproduction v i repro n m)"
  by (cases repro)
     (auto simp: run_reproduction_def not_allowed_def
       intro!: returns_rules returns_judge_reproduction)

lemma returns_reproduction_result:
  assumes "snd i \<noteq> HT_PR_ACTION"
  shows "returns (good_result i) (bindC (run_reproduction v i repro n m) (\<lambda>(result, _, _). ret result))"
  by (rule returns_bind_strong [OF returns_run_reproduction [OF assms]]) auto

lemma strategic_design_ok: "handler_ok (strategic_design_handler v)"
  by (auto simp: strategic_design_handler_def meta_get_def core_defs
      intro!: handler_okI steps_rules returns_rules)

lemma agent_invocation_ok: "handler_ok (agent_invocation_handler v)"
  by (auto simp: agent_invocation_handler_def meta_get_def set_coding_agent_run_id_def core_defs
      intro!: handler_okI steps_rules returns_rules)

lemma output_quarantine_ok: "handler_ok output_quarantine_handler"
  by (auto simp: output_quarantine_handler_def core_defs intro!: handler_okI steps_rules returns_rules)

lemma diff_capture_ok: "handler_ok (diff_capture_handler v)"
  by (auto simp: diff_capture_handler_def candidate_diff_def record_diff_def core_defs
      evidence_name_defs intro!: handler_okI steps_rules returns_rules)

lemma test_runner_ok: "handler_ok (test_runner_handler v)"
  by (auto simp: test_runner_handler_def record_tests_def not_allowed_def core_defs
      evidence_name_defs intro!: handler_okI steps_rules returns_rules)

lemma static_check_ok: "handler_ok static_check_handler"
  by (auto simp: static_check_handler_def intro!: handler_okI steps_rules)

lemma scope_diff_ok: "handler_ok scope_diff_handler"
  by (auto simp: scope_diff_handler_def intro!: handler_okI steps_rules returns_rules)

lemma failure_reproduction_ok: "handler_ok (failure_reproduction_handler v)"
  by (auto simp: failure_reproduction_handler_def meta_get_def evidence_name_defs
      intro!: handler_okI steps_rules returns_bind returns_reproduction_result)

lemma implementation_handlers_ok: "list_all handler_ok (implementation_handlers v)"
  by (simp add: implementation_handlers_def strategic_design_ok agent_invocation_ok
      output_quarantine_ok diff_capture_ok test_runner_ok static_check_ok scope_diff_ok
      failure_reproduction_ok)

end
