(* ===== verification/CI_Handlers.thy ===== *)
theory CI_Handlers
  imports Documentation_Handlers Implementation_Handlers
begin

text \<open>
  The CI failure-repair handlers (\<open>handlers/ci_failure.py\<close>): parsing a supplied log, classifying
  the failure, reproducing it and validating the workflow files.  The YAML reader is the
  parameter \<open>v_yaml_error\<close>.
\<close>

section \<open>The log\<close>

definition FAILURE_MARKERS :: "string list" where
  "FAILURE_MARKERS = [''##[error]'', ''Traceback'', ''FAILED'', ''Error:'', ''error:'', ''exit code'']"

definition failing_line :: "string \<Rightarrow> bool" where
  "failing_line line \<longleftrightarrow> list_ex (\<lambda>m. contains (lower m) (lower line)) FAILURE_MARKERS"

definition failing_lines :: "string \<Rightarrow> string list" where
  "failing_lines log = map strip (filter failing_line (splitlines log))"

abbreviation ci_log_parser_id :: handler_id where
  "ci_log_parser_id \<equiv> (''CIFailureLogParserHandler'', HT_READ_ONLY_COMMAND)"

text \<open>\<open>(ci.get("log") or "").strip()\<close>.\<close>

definition supplied_log :: "json \<Rightarrow> string res" where
  "supplied_log ci =
     (case jget ci ''log'' of
        Inl e \<Rightarrow> Inl e
      | Inr log \<Rightarrow> if \<not> truthy log then Inr []
                   else (case as_str log of Inl e \<Rightarrow> Inl e | Inr s \<Rightarrow> Inr (strip s)))"

definition parsed_log :: "json \<Rightarrow> string \<Rightarrow> jdict res" where
  "parsed_log ci log =
     (case jget_or ci ''workflow'' (JStr []) of
        Inl e \<Rightarrow> Inl e
      | Inr workflow \<Rightarrow> (case jget_or ci ''job'' (JStr []) of
          Inl e \<Rightarrow> Inl e
        | Inr job \<Rightarrow> Inr
           [(''workflow'', workflow), (''job'', job),
            (''failing_lines'', jstrs (failing_lines log)),
            (''log_lines'', JInt (int (length (splitlines log))))]))"

definition ci_log_parser_handler :: "env \<Rightarrow> handler" where
  "ci_log_parser_handler v = handler_class ci_log_parser_id
     (bindC (meta_get ''ci_failure'') (\<lambda>given.
      let ci = (if truthy given then given else JObj []) in
      bindC (liftC (supplied_log ci)) (\<lambda>log.
      if log = []
      then ret (fail_result ci_log_parser_id
             [''CI failure log required; cannot repair a CI failure without it''] True []
             [''supply request.metadata.ci_failure with {workflow, job, log}''])
      else
        bindC (liftC (parsed_log ci log)) (\<lambda>parsed.
        bindC (modC (\<lambda>c. c\<lparr>x_shared := (x_shared c)\<lparr>sh_ci_failure := Some parsed\<rparr>\<rparr>)) (\<lambda>_.
        record_and_pass v ci_log_parser_id ''ci_failure_parsed.log'' (json_dumps2 (JObj parsed))
          AT_COMMAND_OUTPUT ''ci_failure_log_parse'')))))"

section \<open>Classification\<close>

definition CLASSIFIERS :: "(string \<times> string list) list" where
  "CLASSIFIERS =
     [(''TYPE'', [''mypy'', ''pyright'', ''type error'', ''incompatible type'']),
      (''LINT'', [''flake8'', ''ruff'', ''eslint'', ''lint'', ''pycodestyle'', ''black --check'']),
      (''DEPENDENCY'', [''modulenotfounderror'', ''no module named'', ''could not find a version'',
         ''npm err'', ''pip install'', ''unresolved dependency'']),
      (''BUILD'', [''build failed'', ''compilation'', ''webpack'', ''tsc '', ''make:'']),
      (''CONFIG'', [''yaml'', ''invalid workflow'', ''actions/'', ''workflow file'']),
      (''TEST'', [''pytest'', ''failed'', ''assertionerror'', ''test session'', ''npm test''])]"

definition classify :: "string \<Rightarrow> string" where
  "classify haystack =
     (case find (\<lambda>(cat, keywords). list_ex (\<lambda>k. contains k haystack) keywords) CLASSIFIERS of
        Some (cat, _) \<Rightarrow> cat | None \<Rightarrow> ''UNKNOWN'')"

text \<open>\<open>" ".join(...)\<close> of the failing lines.\<close>

definition join_lines :: "json \<Rightarrow> string res" where
  "join_lines v =
     (case py_iter v of
        Inl e \<Rightarrow> Inl e
      | Inr xs \<Rightarrow> (case as_strs xs of Inl _ \<Rightarrow> Inl TypeError | Inr ss \<Rightarrow> Inr (py_join '' '' ss)))"

abbreviation classification_id :: handler_id where
  "classification_id \<equiv> (''FailureClassificationHandler'', HT_PURE_CHECK)"

definition classification_handler :: "env \<Rightarrow> handler" where
  "classification_handler v = handler_class classification_id
     (bindC (getC (\<lambda>c. case sh_ci_failure (x_shared c) of Some p \<Rightarrow> p | None \<Rightarrow> [])) (\<lambda>parsed.
      let lines = dget_or parsed ''failing_lines'' (JArr []) in
      bindC (liftC (join_lines lines)) (\<lambda>joined.
      let category = classify (lower joined) in
      bindC (modC (\<lambda>c. c\<lparr>x_shared := (x_shared c)\<lparr>sh_ci_failure_category := Some category\<rparr>\<rparr>)) (\<lambda>_.
      bindC (record_artifact v ''ci_failure_classification.log''
               (json_dumps2 (JObj [(''category'', JStr category), (''evidence'', lines)]))
               AT_ANALYSIS_REPORT (if category \<noteq> ''UNKNOWN'' then LR_INFO else LR_FAIL)
               (JStr ''ci_failure_classify'') (fst classification_id)) (\<lambda>_.
      if category = ''UNKNOWN''
      then ret (fail_plain classification_id
             [''unable to classify CI failure; manual triage required (no blind fix)''])
      else ret (ok_result classification_id HD_CONTINUE [] [] [(''category'', JStr category)]))))))"

section \<open>Reproduction and configuration\<close>

abbreviation reproduction_id :: handler_id where
  "reproduction_id \<equiv> (''ReproductionHandler'', HT_READ_ONLY_COMMAND)"

definition reproduction_handler :: "env \<Rightarrow> handler" where
  "reproduction_handler v = handler_class reproduction_id
     (bindC (meta_get ''reproduction'') (\<lambda>repro.
      bindC (run_reproduction v reproduction_id repro ''ci_failure_reproduction.log''
               ''reproduction required; a CI failure must be reproduced locally before repair'')
        (\<lambda>(result, _, _). ret result)))"

definition workflow_configs :: "string list \<Rightarrow> string list" where
  "workflow_configs files =
     sort (filter (\<lambda>f. starts_with ''.github/workflows/'' (norm_slashes f)
                     \<and> (ends_with ''.yml'' (lower f) \<or> ends_with ''.yaml'' (lower f))) files)"

text \<open>The loop over the workflow files: those that parse and, with a reason, those that do not.\<close>

fun check_configs :: "env \<Rightarrow> world \<Rightarrow> ppath \<Rightarrow> string list \<Rightarrow> (string list \<times> string list) res" where
  "check_configs v w repo [] = Inr ([], [])"
| "check_configs v w repo (rel # rest) =
     (case read_text_replace w (pjoin repo rel) of
        Inl e \<Rightarrow> Inl e
      | Inr text \<Rightarrow>
          (case v_yaml_error v text of
             None \<Rightarrow> (case check_configs v w repo rest of
               Inl e \<Rightarrow> Inl e | Inr (checked, broken) \<Rightarrow> Inr (rel # checked, broken))
           | Some msg \<Rightarrow>
               (case splitlines msg of
                  [] \<Rightarrow> Inl IndexError
                | line # _ \<Rightarrow> (case check_configs v w repo rest of
                    Inl e \<Rightarrow> Inl e
                  | Inr (checked, broken) \<Rightarrow> Inr (checked, (rel @ '': '' @ line) # broken)))))"

abbreviation ci_config_id :: handler_id where
  "ci_config_id \<equiv> (''CIConfigValidationHandler'', HT_PURE_CHECK)"

definition ci_config_handler :: "env \<Rightarrow> handler" where
  "ci_config_handler v = handler_class ci_config_id
     (bindC known_files (\<lambda>files.
      let workflows = workflow_configs files in
      if workflows = []
      then
        bindC (record_artifact v ''ci_config_validation.log''
                 (json_dumps2 (JObj [(''workflows'', JArr []), (''status'', JStr ''NOT_APPLICABLE'')]))
                 AT_COMMAND_OUTPUT LR_INFO (JStr ''ci_config_validate'') (fst ci_config_id)) (\<lambda>_.
        ret (ok_plain ci_config_id))
      else
        bindC (getC id) (\<lambda>c.
        bindC (liftC (check_configs v (x_world c) (x_repo c) workflows)) (\<lambda>(checked, broken).
        bindC (record_artifact v ''ci_config_validation.log''
                 (json_dumps2 (JObj [(''checked'', jstrs checked), (''broken'', jstrs broken)]))
                 AT_COMMAND_OUTPUT (if broken \<noteq> [] then LR_FAIL else LR_PASS)
                 (JStr ''ci_config_validate'') (fst ci_config_id)) (\<lambda>_.
        if broken \<noteq> []
        then ret (fail_plain ci_config_id (map (\<lambda>b. ''invalid CI workflow: '' @ b) broken))
        else ret (ok_plain ci_config_id))))))"

definition ci_handlers :: "env \<Rightarrow> handler list" where
  "ci_handlers v =
     [ci_log_parser_handler v, classification_handler v, reproduction_handler v, ci_config_handler v]"

section \<open>The harness can rely on them\<close>

lemma ci_log_parser_ok: "handler_ok (ci_log_parser_handler v)"
  by (auto simp: ci_log_parser_handler_def meta_get_def core_defs evidence_name_defs
      intro!: handler_okI steps_rules returns_rules)

lemma classification_ok: "handler_ok (classification_handler v)"
  by (auto simp: classification_handler_def core_defs evidence_name_defs
      intro!: handler_okI steps_rules returns_rules)

lemma reproduction_ok: "handler_ok (reproduction_handler v)"
  by (auto simp: reproduction_handler_def meta_get_def evidence_name_defs
      intro!: handler_okI steps_rules returns_bind returns_reproduction_result)

lemma ci_config_ok: "handler_ok (ci_config_handler v)"
  by (auto simp: ci_config_handler_def core_defs evidence_name_defs
      intro!: handler_okI steps_rules returns_rules)

lemma ci_handlers_ok: "list_all handler_ok (ci_handlers v)"
  by (simp add: ci_handlers_def ci_log_parser_ok classification_ok reproduction_ok ci_config_ok)

end
