(* ===== verification/Dependency_Handlers.thy ===== *)
theory Dependency_Handlers
  imports Analysis_Handlers Implementation_Handlers
begin

text \<open>
  The dependency-update handlers (\<open>handlers/dependency.py\<close>): lockfiles, caller-supplied
  advisories, licenses and the build.  Sets of metadata values are lists without duplicates; the
  values in them are compared as Python compares them, except that a float is equal to no
  integer here.
\<close>

section \<open>Lockfiles\<close>

definition MANIFEST_LOCKS :: "(string \<times> string) list" where
  "MANIFEST_LOCKS =
     [(''package.json'', ''package-lock.json''), (''pyproject.toml'', ''poetry.lock'')]"

definition changed_basenames :: "json list \<Rightarrow> string list" where
  "changed_basenames paths = remdups (map (basename \<circ> py_str) paths)"

definition lock_violations :: "string list \<Rightarrow> string list" where
  "lock_violations changed =
     map (\<lambda>(manifest, lock). manifest @ '' changed without updating '' @ lock)
       (filter (\<lambda>(manifest, lock). manifest \<in> set changed \<and> lock \<notin> set changed) MANIFEST_LOCKS)"

abbreviation lockfile_id :: handler_id where
  "lockfile_id \<equiv> (''LockfileValidationHandler'', HT_PURE_CHECK)"

definition lockfile_handler :: "env \<Rightarrow> handler" where
  "lockfile_handler v = handler_class lockfile_id
     (bindC (getC (\<lambda>c. changed_basenames (x_changed_files c))) (\<lambda>changed.
      let missing = lock_violations changed in
      bindC (record_artifact v ''lockfile_validation.log''
               (json_dumps2 (JObj [(''changed'', jstrs (sort changed)),
                                   (''lockfile_violations'', jstrs missing)]))
               AT_COMMAND_OUTPUT (if missing \<noteq> [] then LR_FAIL else LR_PASS)
               (JStr ''lockfile_validation'') (fst lockfile_id)) (\<lambda>_.
      if missing \<noteq> [] then ret (fail_plain lockfile_id missing) else ret (ok_plain lockfile_id))))"

section \<open>Advisories\<close>

text \<open>Shared with the security handlers: which of the supplied advisories block.\<close>

definition blocking_advisory :: "json \<Rightarrow> bool res" where
  "blocking_advisory a =
     (case jget_or a ''severity'' (JStr []) of
        Inl e \<Rightarrow> Inl e
      | Inr severity \<Rightarrow> (case jget a ''waived'' of
          Inl e \<Rightarrow> Inl e
        | Inr waived \<Rightarrow>
            Inr (upper (py_str severity) \<in> {''HIGH'', ''CRITICAL''} \<and> \<not> truthy waived)))"

fun res_filter :: "('a \<Rightarrow> bool res) \<Rightarrow> 'a list \<Rightarrow> 'a list res" where
  "res_filter p [] = Inr []"
| "res_filter p (x # xs) =
     (case p x of
        Inl e \<Rightarrow> Inl e
      | Inr b \<Rightarrow> (case res_filter p xs of
          Inl e \<Rightarrow> Inl e | Inr ys \<Rightarrow> Inr (if b then x # ys else ys)))"

definition advisory_reason :: "string \<Rightarrow> json \<Rightarrow> string" where
  "advisory_reason kind a =
     (case a of
        JObj d \<Rightarrow> ''blocking '' @ kind @ '' '' @ py_str (dget_or d ''id'' (JStr ''?'')) @ '' (''
                  @ py_str (dget d ''severity'') @ '') for ''
                  @ py_str (dget_or d ''package'' (JStr ''?''))
      | _ \<Rightarrow> [])"

text \<open>
  The body both handlers run on the metadata value they find: artifact name, command, kind of
  advisory.
\<close>

definition assess_advisories ::
    "env \<Rightarrow> handler_id \<Rightarrow> json \<Rightarrow> string \<Rightarrow> string \<Rightarrow> string \<Rightarrow> (ctx, handler_result) comp" where
  "assess_advisories v i given name command kind =
     bindC (liftC (jget_or given ''advisories'' (JArr []))) (\<lambda>advisories.
     bindC (liftC (py_iter advisories)) (\<lambda>items.
     bindC (liftC (res_filter blocking_advisory items)) (\<lambda>blocking.
     bindC (record_artifact v name
              (json_dumps2 (JObj [(''advisories'', advisories), (''blocking'', JArr blocking)]))
              AT_ANALYSIS_REPORT (if blocking \<noteq> [] then LR_FAIL else LR_INFO)
              (JStr command) (fst i)) (\<lambda>_.
     if blocking \<noteq> [] then ret (fail_plain i (map (advisory_reason kind) blocking))
     else ret (ok_plain i)))))"

abbreviation dependency_risk_id :: handler_id where
  "dependency_risk_id \<equiv> (''DependencyRiskHandler'', HT_PURE_CHECK)"

definition dependency_risk_handler :: "env \<Rightarrow> handler" where
  "dependency_risk_handler v = handler_class dependency_risk_id
     (bindC (meta_get ''dependency_risk'') (\<lambda>risk.
      if \<not> truthy risk
      then ret (skip_result dependency_risk_id
             ''no advisory feed configured; dependency risk assessment deferred'')
      else assess_advisories v dependency_risk_id risk ''dependency_risk.log'' ''dependency_risk''
             ''advisory''))"

section \<open>Licenses\<close>

text \<open>Set elements: booleans are the integers they equal, containers cannot be hashed.\<close>

fun hash_key :: "json \<Rightarrow> json res" where
  "hash_key (JBool b) = Inr (JInt (if b then 1 else 0))"
| "hash_key (JArr _) = Inl TypeError"
| "hash_key (JObj _) = Inl TypeError"
| "hash_key v = Inr v"

text \<open>The first element of each value stays in the set.\<close>

fun set_insert_all :: "json list \<Rightarrow> json list \<Rightarrow> json list" where
  "set_insert_all acc [] = acc"
| "set_insert_all acc (x # xs) =
     set_insert_all (if hash_key x \<in> hash_key ` set acc then acc else acc @ [x]) xs"

definition py_set :: "json \<Rightarrow> json list res" where
  "py_set v =
     (case py_iter v of
        Inl e \<Rightarrow> Inl e
      | Inr xs \<Rightarrow> (case res_map hash_key xs of Inl e \<Rightarrow> Inl e | Inr _ \<Rightarrow> Inr (set_insert_all [] xs)))"

fun int_of_json :: "json \<Rightarrow> int option" where
  "int_of_json (JInt i) = Some i"
| "int_of_json (JBool b) = Some (if b then 1 else 0)"
| "int_of_json _ = None"

text \<open>\<open>sorted\<close> needs elements that compare: strings with strings, integers with integers.\<close>

definition py_sorted :: "json list \<Rightarrow> json list res" where
  "py_sorted xs =
     (case as_strs xs of
        Inr ss \<Rightarrow> Inr (map JStr (sort ss))
      | Inl _ \<Rightarrow>
          if length xs \<le> 1 then Inr xs
          else if list_all (\<lambda>x. int_of_json x \<noteq> None) xs
          then Inr (sort_key (\<lambda>x. the (int_of_json x)) xs)
          else Inl TypeError)"

text \<open>\<open>lic in denied or (allowed and lic not in allowed)\<close>.\<close>

definition license_violates :: "json list \<Rightarrow> json list \<Rightarrow> json \<Rightarrow> bool res" where
  "license_violates allowed denied lic =
     (case hash_key lic of
        Inl e \<Rightarrow> Inl e
      | Inr k \<Rightarrow> Inr (Inr k \<in> hash_key ` set denied
                     \<or> (allowed \<noteq> [] \<and> Inr k \<notin> hash_key ` set allowed)))"

fun py_items :: "json \<Rightarrow> jdict res" where
  "py_items (JObj d) = Inr d"
| "py_items _ = Inl AttributeError"

abbreviation license_check_id :: handler_id where
  "license_check_id \<equiv> (''LicenseCheckHandler'', HT_PURE_CHECK)"

definition license_check_handler :: "env \<Rightarrow> handler" where
  "license_check_handler v = handler_class license_check_id
     (bindC (meta_get ''license_check'') (\<lambda>lc.
      if \<not> truthy lc
      then ret (skip_result license_check_id ''no license data provided; license check deferred'')
      else
        bindC (liftC (jget_or lc ''licenses'' (JObj []))) (\<lambda>licenses.
        bindC (liftC (jget_or lc ''allowed'' (JArr []))) (\<lambda>allowed_list.
        bindC (liftC (py_set allowed_list)) (\<lambda>allowed.
        bindC (liftC (jget_or lc ''denied'' (JArr []))) (\<lambda>denied_list.
        bindC (liftC (py_set denied_list)) (\<lambda>denied.
        bindC (liftC (py_items licenses)) (\<lambda>items.
        bindC (liftC (res_filter (\<lambda>(_, lic). license_violates allowed denied lic) items)) (\<lambda>bad.
        let violations = map (\<lambda>(pkg, lic). pkg @ '': '' @ py_str lic) bad in
        bindC (liftC (py_sorted allowed)) (\<lambda>allowed_sorted.
        bindC (liftC (py_sorted denied)) (\<lambda>denied_sorted.
        bindC (record_artifact v ''license_check.log''
                 (json_dumps2 (JObj [(''licenses'', licenses), (''allowed'', JArr allowed_sorted),
                    (''denied'', JArr denied_sorted), (''violations'', jstrs violations)]))
                 AT_COMMAND_OUTPUT (if violations \<noteq> [] then LR_FAIL else LR_PASS)
                 (JStr ''license_check'') (fst license_check_id)) (\<lambda>_.
        if violations \<noteq> []
        then ret (fail_plain license_check_id (map (\<lambda>s. ''disallowed license: '' @ s) violations))
        else ret (ok_plain license_check_id)))))))))))))"

section \<open>The build\<close>

abbreviation build_id :: handler_id where
  "build_id \<equiv> (''BuildHandler'', HT_READ_ONLY_COMMAND)"

definition failed_log :: "json \<Rightarrow> bool res" where
  "failed_log log =
     (case jget log ''exit_code'' of Inl e \<Rightarrow> Inl e | Inr code \<Rightarrow> Inr (nonzero_exit code))"

definition build_failure :: "json \<Rightarrow> json \<Rightarrow> string" where
  "build_failure command log =
     (case log of
        JObj d \<Rightarrow> ''build failed with exit code '' @ py_str (dget d ''exit_code'') @ '': ''
                  @ py_str (dget_or d ''command'' command)
      | _ \<Rightarrow> [])"

definition record_build :: "env \<Rightarrow> json \<Rightarrow> json \<Rightarrow> (ctx, handler_result) comp" where
  "record_build v logs command =
     bindC (liftC (py_iter logs)) (\<lambda>items.
     bindC (liftC (res_filter failed_log items)) (\<lambda>failed.
     bindC (record_artifact v ''build_output.log'' (json_dumps2 logs) AT_BUILD
              (if failed = [] then LR_PASS else LR_FAIL) command (fst build_id)) (\<lambda>a.
     if failed \<noteq> [] then ret (fail_plain build_id (map (build_failure command) failed))
     else ret (ok_artifacts build_id [a_path a]))))"

definition build_handler :: "env \<Rightarrow> handler" where
  "build_handler v = handler_class build_id
     (bindC (getC (\<lambda>c. q_metadata (x_request c))) (\<lambda>meta.
      if truthy (dget meta ''build_not_applicable'')
      then skip_with build_id
             (dget_or meta ''build_not_applicable_reason'' (JStr ''build not applicable''))
      else if truthy (dget meta ''build_outcomes'')
      then record_build v (dget meta ''build_outcomes'')
             (dget_or meta ''build_command'' (JStr ''build''))
      else if \<not> truthy (dget meta ''build_commands'')
      then ret (skip_result build_id ''no build command or build evidence provided; build deferred'')
      else
        bindC (run_commands v meta (dget meta ''build_commands'')) (\<lambda>rs.
        if rejections rs \<noteq> [] then ret (not_allowed build_id rs)
        else
          bindC (liftC (res_map log_json rs)) (\<lambda>logs.
          record_build v (JArr logs) (joined_commands rs)))))"

definition dependency_handlers :: "env \<Rightarrow> handler list" where
  "dependency_handlers v =
     [lockfile_handler v, dependency_risk_handler v, license_check_handler v, build_handler v]"

section \<open>The harness can rely on them\<close>

lemma evolves_assess_advisories [steps_rules]:
  "evidence_name n \<Longrightarrow> steps evolves (assess_advisories v i given n cmd kind)"
  by (auto simp: assess_advisories_def intro!: steps_rules)

lemma returns_assess_advisories [simp]:
  "snd i \<noteq> HT_PR_ACTION \<Longrightarrow> returns (good_result i) (assess_advisories v i given n cmd kind)"
  by (auto simp: assess_advisories_def intro!: returns_rules)

lemma lockfile_ok: "handler_ok (lockfile_handler v)"
  by (auto simp: lockfile_handler_def evidence_name_defs
      intro!: handler_okI steps_rules returns_rules)

lemma dependency_risk_ok: "handler_ok (dependency_risk_handler v)"
  by (auto simp: dependency_risk_handler_def meta_get_def evidence_name_defs
      intro!: handler_okI steps_rules returns_rules)

lemma license_check_ok: "handler_ok (license_check_handler v)"
  by (auto simp: license_check_handler_def meta_get_def evidence_name_defs
      intro!: handler_okI steps_rules returns_rules)

lemma build_ok: "handler_ok (build_handler v)"
  by (auto simp: build_handler_def record_build_def not_allowed_def evidence_name_defs
      intro!: handler_okI steps_rules returns_rules)

lemma dependency_handlers_ok: "list_all handler_ok (dependency_handlers v)"
  by (simp add: dependency_handlers_def lockfile_ok dependency_risk_ok license_check_ok build_ok)

section \<open>What the checks mean\<close>

text \<open>A manifest that changed needs its lockfile.\<close>

lemma lock_violations_Nil:
  "lock_violations changed = [] \<longleftrightarrow>
     (\<forall>(manifest, lock) \<in> set MANIFEST_LOCKS. manifest \<in> set changed \<longrightarrow> lock \<in> set changed)"
  by (auto simp: lock_violations_def filter_empty_conv)

section \<open>The verdict of the lockfile check\<close>

text \<open>
  The lockfile check passes just when every changed dependency manifest comes with its
  lockfile, whatever directories the files are in, and it never raises.
\<close>

lemma lockfile_verdict:
  "\<exists>r d. hd_handle (lockfile_handler v) c = (Inr r, d)
    \<and> (h_status r = HS_PASS \<longleftrightarrow>
         (\<forall>(manifest, lock) \<in> {(''package.json'', ''package-lock.json''), (''pyproject.toml'', ''poetry.lock'')}.
            manifest \<in> (basename \<circ> py_str) ` set (x_changed_files c) \<longrightarrow>
            lock \<in> (basename \<circ> py_str) ` set (x_changed_files c)))
    \<and> (h_status r = HS_PASS \<or> h_status r = HS_FAIL)"
proof -
  let ?v = "lock_violations (changed_basenames (x_changed_files c))"
  have "\<exists>r d. hd_handle (lockfile_handler v) c = (Inr r, d) \<and> h_status r = (if ?v = [] then HS_PASS else HS_FAIL)"
    by (simp add: lockfile_handler_def comp_defs Let_def record_artifact_eq ok_result_def fail_result_def)
  then obtain r d where "hd_handle (lockfile_handler v) c = (Inr r, d)"
    and "h_status r = (if ?v = [] then HS_PASS else HS_FAIL)" by blast
  moreover from pass_fail_if [OF this(2)] have "h_status r = HS_PASS \<longleftrightarrow> ?v = []" "h_status r = HS_PASS \<or> h_status r = HS_FAIL"
    by blast+
  ultimately show ?thesis
    by (auto simp: lock_violations_Nil MANIFEST_LOCKS_def changed_basenames_def)
qed

end
