(* ===== verification/Regex.thy ===== *)
theory Regex
  imports PyStrings
begin

text \<open>
  The part of \<open>re\<close> the handlers use: searching a text for a pattern built from character
  classes, sequence, alternative, repetition, word boundaries and a negative look-ahead.  A
  pattern is data; \<open>re_ends\<close> computes the places where a match from a given place can end, and
  \<open>re_search\<close> tries every start.
\<close>

section \<open>Patterns\<close>

datatype re =
    Cls "char \<Rightarrow> bool"
  | Eps
  | Seq re re
  | Alt re re
  | Star re
  | Boundary
  | NotAhead re

text \<open>A place in the text: the character before it, if any, and the rest.\<close>

type_synonym place = "char option \<times> string"

definition is_word :: "char \<Rightarrow> bool" where
  "is_word c \<longleftrightarrow> (let n = (of_char c :: nat) in
     (48 \<le> n \<and> n \<le> 57) \<or> (65 \<le> n \<and> n \<le> 90) \<or> n = 95 \<or> (97 \<le> n \<and> n \<le> 122)
   \<or> n \<in> {170, 178, 179, 181, 185, 186, 188, 189, 190}
   \<or> (192 \<le> n \<and> n \<le> 214) \<or> (216 \<le> n \<and> n \<le> 246) \<or> 248 \<le> n)"

definition at_boundary :: "place \<Rightarrow> bool" where
  "at_boundary p \<longleftrightarrow>
     (case fst p of None \<Rightarrow> False | Some c \<Rightarrow> is_word c)
     \<noteq> (case snd p of [] \<Rightarrow> False | c # _ \<Rightarrow> is_word c)"

text \<open>
  The ends of the matches of a pattern from a place.  A round of a repetition has to move on; the
  filters only say so to the termination proof, as no pattern moves back.
\<close>

function re_ends :: "re \<Rightarrow> place \<Rightarrow> place list" where
  "re_ends (Cls P) p = (case snd p of c # s \<Rightarrow> (if P c then [(Some c, s)] else []) | [] \<Rightarrow> [])"
| "re_ends Eps p = [p]"
| "re_ends (Seq a b) p =
     concat (map (re_ends b) (filter (\<lambda>q. length (snd q) \<le> length (snd p)) (re_ends a p)))"
| "re_ends (Alt a b) p = re_ends a p @ re_ends b p"
| "re_ends (Star a) p =
     concat (map (re_ends (Star a)) (filter (\<lambda>q. length (snd q) < length (snd p)) (re_ends a p))) @ [p]"
| "re_ends Boundary p = (if at_boundary p then [p] else [])"
| "re_ends (NotAhead a) p = (if re_ends a p = [] then [p] else [])"
  by pat_completeness auto
termination
  by (relation "measures [\<lambda>(r, p). length (snd p), \<lambda>(r, p). size r]") auto

declare re_ends.simps(5) [simp del]

text \<open>Whether a match starts at a place or at any later one.\<close>

fun re_search_from :: "re \<Rightarrow> char option \<Rightarrow> string \<Rightarrow> bool" where
  "re_search_from r before [] \<longleftrightarrow> re_ends r (before, []) \<noteq> []"
| "re_search_from r before (c # s) \<longleftrightarrow>
     re_ends r (before, c # s) \<noteq> [] \<or> re_search_from r (Some c) s"

definition re_search :: "re \<Rightarrow> string \<Rightarrow> bool" where
  "re_search r s = re_search_from r None s"

section \<open>Common patterns\<close>

fun re_seq :: "re list \<Rightarrow> re" where
  "re_seq [] = Eps"
| "re_seq [r] = r"
| "re_seq (r # rs) = Seq r (re_seq rs)"

fun re_alt :: "re list \<Rightarrow> re" where
  "re_alt [] = Cls (\<lambda>_. False)"
| "re_alt [r] = r"
| "re_alt (r # rs) = Alt r (re_alt rs)"

definition re_char :: "char \<Rightarrow> re" where
  "re_char c = Cls (\<lambda>x. x = c)"

definition re_lit :: "string \<Rightarrow> re" where
  "re_lit s = re_seq (map re_char s)"

text \<open>A literal in small letters under \<open>(?i)\<close>.\<close>

definition re_ilit :: "string \<Rightarrow> re" where
  "re_ilit s = re_seq (map (\<lambda>c. Cls (\<lambda>x. lower_char x = c)) s)"

definition re_space :: re where
  "re_space = Cls is_space"

definition re_opt :: "re \<Rightarrow> re" where
  "re_opt r = Alt r Eps"

definition re_any :: re where
  "re_any = Cls (\<lambda>c. c \<noteq> CHR 0x0A)"

definition re_rep :: "nat \<Rightarrow> re \<Rightarrow> re" where
  "re_rep n r = re_seq (replicate n r)"

definition re_at_least :: "nat \<Rightarrow> re \<Rightarrow> re" where
  "re_at_least n r = Seq (re_rep n r) (Star r)"

section \<open>Facts\<close>

text \<open>No match moves back, so the filters drop nothing.\<close>

lemma re_ends_shorter: "q \<in> set (re_ends r p) \<Longrightarrow> length (snd q) \<le> length (snd p)"
proof (induction r p arbitrary: q rule: re_ends.induct)
  case (3 a b p)
  from "3.prems" obtain m where m: "m \<in> set (re_ends a p)" "length (snd m) \<le> length (snd p)"
      "q \<in> set (re_ends b m)" by auto
  then have "length (snd q) \<le> length (snd m)" by (intro "3.IH"(2)) simp
  with m(2) show ?case by simp
next
  case (5 a p)
  from "5.prems" consider "q = p" | m where "m \<in> set (re_ends a p)" "length (snd m) < length (snd p)"
      "q \<in> set (re_ends (Star a) m)"
    by (auto simp: re_ends.simps(5) [of a p])
  then show ?case
  proof cases
    case (2 m)
    then have "length (snd q) \<le> length (snd m)" by (intro "5.IH"(2)) simp
    with 2 show ?thesis by simp
  qed simp
qed (auto split: list.splits if_splits)

lemma re_ends_Seq: "re_ends (Seq a b) p = concat (map (re_ends b) (re_ends a p))"
proof -
  have "filter (\<lambda>q. length (snd q) \<le> length (snd p)) (re_ends a p) = re_ends a p"
    by (rule filter_True) (simp add: re_ends_shorter)
  then show ?thesis by simp
qed

text \<open>A search is a match at some place of the text.\<close>

lemma ex_split_Cons:
  "(\<exists>u t. c # s = u @ t \<and> P u t) \<longleftrightarrow> P [] (c # s) \<or> (\<exists>u t. s = u @ t \<and> P (c # u) t)"
  by (auto simp: Cons_eq_append_conv)

lemma re_search_from_iff:
  "re_search_from r before s \<longleftrightarrow>
     (\<exists>u t. s = u @ t \<and> re_ends r (if u = [] then before else Some (last u), t) \<noteq> [])"
proof (induction r before s rule: re_search_from.induct)
  case (1 r before)
  then show ?case by simp
next
  case (2 r before c s)
  have "last (c # u) = (if u = [] then c else last u)" for u by simp
  with 2 show ?case by (simp add: ex_split_Cons if_distrib [of Some] del: last.simps cong: if_cong)
qed

lemma re_search_iff:
  "re_search r s \<longleftrightarrow> (\<exists>u t. s = u @ t \<and> re_ends r (if u = [] then None else Some (last u), t) \<noteq> [])"
  by (simp add: re_search_def re_search_from_iff)

text \<open>Searching for a literal is the substring test.\<close>

lemma re_ends_char: "re_ends (re_char c) (b, s) = (if s \<noteq> [] \<and> hd s = c then [(Some c, tl s)] else [])"
  by (cases s) (simp_all add: re_char_def)

lemma re_ends_lit: "re_ends (re_lit w) (b, s) \<noteq> [] \<longleftrightarrow> prefix w s"
proof (induction w arbitrary: b s)
  case Nil
  then show ?case by (simp add: re_lit_def)
next
  case (Cons c w)
  show ?case
  proof (cases w)
    case Nil
    then show ?thesis by (cases s) (auto simp: re_lit_def re_ends_char)
  next
    case (Cons d w')
    have "re_ends (re_lit (c # w)) (b, s) \<noteq> [] \<longleftrightarrow>
        s \<noteq> [] \<and> hd s = c \<and> re_ends (re_lit w) (Some c, tl s) \<noteq> []"
      by (auto simp: re_lit_def Cons re_ends_Seq re_ends_char simp del: re_ends.simps(3))
    then show ?thesis using Cons.IH by (cases s) auto
  qed
qed

lemma re_search_lit: "re_search (re_lit w) s \<longleftrightarrow> (\<exists>u t. s = u @ w @ t)"
  by (auto simp: re_search_iff re_ends_lit prefix_def)

end
