(* ===== verification/Security_Handlers.thy ===== *)
theory Security_Handlers
  imports Dependency_Handlers Regex
begin

text \<open>
  The security-review handlers (\<open>handlers/security.py\<close>): the declaration that the chain has no
  tests, the scans of the changed files for secrets and dangerous sinks, advisories and changes
  that touch authentication.  The verifier of that file is in \<open>Verification_Handlers\<close>.
\<close>

section \<open>Patterns\<close>

abbreviation quote_cls :: "char \<Rightarrow> bool" where
  "quote_cls c \<equiv> c = CHR 0x27 \<or> c = CHR 0x22"

definition private_key_re :: re where
  "private_key_re = re_seq
     [re_lit ''-----BEGIN '',
      re_opt (re_alt [re_lit ''RSA '', re_lit ''EC '', re_lit ''OPENSSH '', re_lit ''DSA '',
                      re_lit ''PGP '']),
      re_lit ''PRIVATE KEY-----'']"

definition aws_key_re :: re where
  "aws_key_re = re_seq
     [Boundary, re_lit ''AKIA'',
      re_rep 16 (Cls (\<lambda>c. let n = (of_char c :: nat) in (48 \<le> n \<and> n \<le> 57) \<or> (65 \<le> n \<and> n \<le> 90))),
      Boundary]"

definition credential_re :: re where
  "credential_re = re_seq
     [Boundary,
      re_alt [re_seq [re_ilit ''api'', re_opt (Cls (\<lambda>c. c = CHR ''_'' \<or> c = CHR ''-'')), re_ilit ''key''],
              re_ilit ''secret'', re_ilit ''password'', re_ilit ''passwd'', re_ilit ''token''],
      Boundary, Star re_space, Cls (\<lambda>c. c = CHR '':'' \<or> c = CHR ''=''), Star re_space,
      Cls quote_cls, re_at_least 8 (Cls (\<lambda>c. \<not> quote_cls c)), Cls quote_cls]"

definition SECRET_PATTERNS :: "(string \<times> re) list" where
  "SECRET_PATTERNS =
     [(''private key'', private_key_re), (''aws access key id'', aws_key_re),
      (''hardcoded credential'', credential_re)]"

definition call_re :: "string \<Rightarrow> re" where
  "call_re name = re_seq [Boundary, re_lit name, Star re_space, re_lit ''('']"

definition DANGEROUS_SINKS :: "(string \<times> re) list" where
  "DANGEROUS_SINKS =
     [(''eval()'', call_re ''eval''),
      (''exec()'', call_re ''exec''),
      (''os.system()'', call_re ''os.system''),
      (''subprocess shell=True'',
         re_seq [re_lit ''shell'', Star re_space, re_lit ''='', Star re_space, re_lit ''True'']),
      (''pickle.loads()'', call_re ''pickle.loads''),
      (''yaml.load() without SafeLoader'',
         Seq (call_re ''yaml.load'') (NotAhead (Seq (Star re_any) (re_lit ''SafeLoader''))))]"

definition AUTH_KEYWORDS :: re where
  "AUTH_KEYWORDS = re_seq
     [Boundary,
      re_alt (map re_ilit [''password'', ''passwd'', ''login'', ''logout'', ''authenticate'',
        ''authorization'', ''session'', ''permission'', ''privilege'', ''jwt'', ''oauth'',
        ''credential'']),
      Boundary]"

section \<open>Scanning\<close>

text \<open>The changed files that exist, with their text.\<close>

definition changed_texts :: "ctx \<Rightarrow> (string \<times> string) list res" where
  "changed_texts c =
     (case as_strs (x_changed_files c) of
        Inl e \<Rightarrow> Inl e
      | Inr files \<Rightarrow> Inr (concat (map (\<lambda>f.
          (case read_text_replace (x_world c) (pjoin (x_repo c) (norm_slashes f)) of
             Inl _ \<Rightarrow> [] | Inr text \<Rightarrow> [(norm_slashes f, text)])) files)))"

definition scan_line :: "(string \<times> re) list \<Rightarrow> string \<Rightarrow> nat \<times> string \<Rightarrow> string list" where
  "scan_line patterns norm = (\<lambda>(lineno, line).
     map (\<lambda>(label, _). norm @ '':'' @ dec lineno @ '': '' @ label)
       (filter (\<lambda>(_, rx). re_search rx line) patterns))"

definition scan_text :: "(string \<times> re) list \<Rightarrow> string \<times> string \<Rightarrow> string list" where
  "scan_text patterns = (\<lambda>(norm, text).
     concat (map (scan_line patterns norm) (enumerate 1 (splitlines text))))"

definition scan :: "ctx \<Rightarrow> (string \<times> re) list \<Rightarrow> string list res" where
  "scan c patterns =
     (case changed_texts c of
        Inl e \<Rightarrow> Inl e | Inr texts \<Rightarrow> Inr (concat (map (scan_text patterns) texts)))"

text \<open>The body of the two scanning handlers.\<close>

definition scan_and_judge ::
    "env \<Rightarrow> handler_id \<Rightarrow> (string \<times> re) list \<Rightarrow> string \<Rightarrow> string \<Rightarrow> string \<Rightarrow> (ctx, handler_result) comp" where
  "scan_and_judge v i patterns name command reason =
     bindC (getC id) (\<lambda>c.
     bindC (liftC (scan c patterns)) (\<lambda>findings.
     bindC (record_artifact v name (json_dumps2 (JObj [(''findings'', jstrs findings)]))
              AT_COMMAND_OUTPUT (if findings \<noteq> [] then LR_FAIL else LR_PASS)
              (JStr command) (fst i)) (\<lambda>_.
     if findings \<noteq> [] then ret (fail_plain i (map (\<lambda>f. reason @ f) findings))
     else ret (ok_plain i))))"

abbreviation secret_scan_id :: handler_id where
  "secret_scan_id \<equiv> (''SecretScanHandler'', HT_READ_ONLY_COMMAND)"

definition secret_scan_handler :: "env \<Rightarrow> handler" where
  "secret_scan_handler v = handler_class secret_scan_id
     (scan_and_judge v secret_scan_id SECRET_PATTERNS ''secret_scan.log'' ''secret_scan''
        ''hardcoded secret detected: '')"

abbreviation input_validation_id :: handler_id where
  "input_validation_id \<equiv> (''InputValidationRiskHandler'', HT_PURE_CHECK)"

definition input_validation_handler :: "env \<Rightarrow> handler" where
  "input_validation_handler v = handler_class input_validation_id
     (scan_and_judge v input_validation_id DANGEROUS_SINKS ''input_validation_risk.log''
        ''input_validation_risk'' ''dangerous input sink: '')"

section \<open>Declarations and risks\<close>

abbreviation security_tests_id :: handler_id where
  "security_tests_id \<equiv> (''SecurityReviewTestsNotApplicableHandler'', HT_PURE_CHECK)"

definition SECURITY_TESTS_REASON :: string where
  "SECURITY_TESTS_REASON =
     ''SECURITY_REVIEW has no test runner in this chain; security evidence is ''
     @ ''supplied by security scan/risk handlers.''"

text \<open>\<open>d.setdefault(k, v)\<close>.\<close>

definition dict_setdefault :: "string \<Rightarrow> json \<Rightarrow> jdict \<Rightarrow> jdict" where
  "dict_setdefault k x d = (if k \<in> fst ` set d then d else dict_set k x d)"

definition declare_no_tests :: "jdict \<Rightarrow> jdict" where
  "declare_no_tests d =
     dict_setdefault ''tests_not_applicable_reason'' (JStr SECURITY_TESTS_REASON)
       (dict_set ''tests_not_applicable'' (JBool True) d)"

definition security_tests_handler :: "env \<Rightarrow> handler" where
  "security_tests_handler v = handler_class security_tests_id
     (bindC (getC x_request) (\<lambda>q.
      if q_task_type q \<noteq> TT_SECURITY_REVIEW
      then ret (skip_result security_tests_id ''only applies to SECURITY_REVIEW'')
      else
        bindC (modC (\<lambda>c. c\<lparr>x_request := (x_request c)\<lparr>q_metadata :=
                 declare_no_tests (q_metadata (x_request c))\<rparr>\<rparr>)) (\<lambda>_.
        bindC (modC (\<lambda>c. c\<lparr>x_shared := (x_shared c)\<lparr>sh_tests_not_applicable := Some True\<rparr>\<rparr>)) (\<lambda>_.
        bindC (record_artifact v ''security_review_tests_not_applicable.json''
                 (json_dumps2 (JObj [(''task_type'', JStr (task_type_value (q_task_type q))),
                    (''tests_not_applicable'', JBool True),
                    (''reason'', JStr SECURITY_TESTS_REASON)]))
                 AT_ANALYSIS_REPORT LR_INFO (JStr ''security_review_tests_not_applicable'')
                 (fst security_tests_id)) (\<lambda>a.
        ret (ok_result security_tests_id HD_CONTINUE [a_path a] []
               [(''tests_not_applicable'', JBool True)]))))))"

abbreviation vulnerability_id :: handler_id where
  "vulnerability_id \<equiv> (''DependencyVulnerabilityHandler'', HT_PURE_CHECK)"

definition vulnerability_handler :: "env \<Rightarrow> handler" where
  "vulnerability_handler v = handler_class vulnerability_id
     (bindC (meta_get ''dependency_vulnerabilities'') (\<lambda>vuln.
      if \<not> truthy vuln
      then ret (skip_result vulnerability_id
             ''no vulnerability feed configured; dependency vulnerability scan deferred'')
      else assess_advisories v vulnerability_id vuln ''dependency_vulnerability.log''
             ''dependency_vulnerability_scan'' ''vulnerability''))"

abbreviation auth_change_id :: handler_id where
  "auth_change_id \<equiv> (''AuthChangeRiskHandler'', HT_PURE_CHECK)"

definition auth_touching :: "(string \<times> string) list \<Rightarrow> string list" where
  "auth_touching texts =
     sort (remdups (map fst (filter (\<lambda>(_, text). re_search AUTH_KEYWORDS text) texts)))"

definition auth_change_handler :: "env \<Rightarrow> handler" where
  "auth_change_handler v = handler_class auth_change_id
     (bindC (getC id) (\<lambda>c.
      bindC (liftC (changed_texts c)) (\<lambda>texts.
      let touched = auth_touching texts in
      bindC (meta_get ''security_ack'') (\<lambda>ack.
      bindC (liftC (jget (if truthy ack then ack else JObj []) ''auth_change_reviewed'')) (\<lambda>reviewed.
      let bad = touched \<noteq> [] \<and> \<not> truthy reviewed in
      bindC (record_artifact v ''auth_change_risk.log''
               (json_dumps2 (JObj [(''auth_touching_files'', jstrs touched),
                                   (''acknowledged'', JBool (truthy reviewed))]))
               AT_ANALYSIS_REPORT (if bad then LR_FAIL else LR_PASS) (JStr ''auth_change_risk'')
               (fst auth_change_id)) (\<lambda>_.
      if bad
      then ret (fail_plain auth_change_id
             [''auth-affecting change requires reviewer acknowledgment ''
              @ ''(security_ack.auth_change_reviewed): '' @ py_join '', '' touched])
      else ret (ok_plain auth_change_id)))))))"

definition security_handlers :: "env \<Rightarrow> handler list" where
  "security_handlers v =
     [security_tests_handler v, secret_scan_handler v, vulnerability_handler v,
      auth_change_handler v, input_validation_handler v, security_verifier_handler v]"

section \<open>The harness can rely on them\<close>

lemma evolves_scan_and_judge [steps_rules]:
  "evidence_name n \<Longrightarrow> steps evolves (scan_and_judge v i ps n cmd why)"
  by (auto simp: scan_and_judge_def intro!: steps_rules)

lemma returns_scan_and_judge [simp]:
  "snd i \<noteq> HT_PR_ACTION \<Longrightarrow> returns (good_result i) (scan_and_judge v i ps n cmd why)"
  by (auto simp: scan_and_judge_def intro!: returns_rules)

lemma scan_handlers_ok: "handler_ok (secret_scan_handler v)" "handler_ok (input_validation_handler v)"
  by (auto simp: secret_scan_handler_def input_validation_handler_def evidence_name_defs
      intro!: handler_okI steps_rules)

lemma security_tests_ok: "handler_ok (security_tests_handler v)"
  by (auto simp: security_tests_handler_def core_defs evidence_name_defs
      intro!: handler_okI steps_rules returns_rules)

lemma vulnerability_ok: "handler_ok (vulnerability_handler v)"
  by (auto simp: vulnerability_handler_def meta_get_def evidence_name_defs
      intro!: handler_okI steps_rules returns_rules)

lemma auth_change_ok: "handler_ok (auth_change_handler v)"
  by (auto simp: auth_change_handler_def meta_get_def evidence_name_defs
      intro!: handler_okI steps_rules returns_rules)

lemma security_handlers_ok: "list_all handler_ok (security_handlers v)"
  by (simp add: security_handlers_def scan_handlers_ok security_tests_ok vulnerability_ok
      auth_change_ok security_verifier_ok)

section \<open>What a scan finds\<close>


lemma declare_no_tests_set [simp]: "truthy (dget (declare_no_tests d) ''tests_not_applicable'')"
  by (simp add: declare_no_tests_def dict_setdefault_def dget_def dget_or_def)

section \<open>Properties\<close>




end
