(* ===== verification/Default_Registry.thy ===== *)
theory Default_Registry
  imports Executor CI_Handlers Security_Handlers
begin

text \<open>
  The registry every executor is built with (\<open>handlers/base.py\<close>, \<open>build_default_registry\<close>): all
  handlers of the repository.  It meets the contract of the locale \<open>harness\<close>, so what the
  executor guarantees holds of the program as it is configured.
\<close>

definition default_handlers :: "env \<Rightarrow> handler list" where
  "default_handlers v =
     control_handlers v @ analysis_handlers v @ implementation_handlers v @ verification_handlers v
     @ evaluation_handlers v @ pr_handlers v @ documentation_handlers v @ ci_handlers v
     @ dependency_handlers v @ security_handlers v"

definition build_default_registry :: "env \<Rightarrow> handler_registry" where
  "build_default_registry v = build_registry (default_handlers v)"

section \<open>Names and types\<close>

lemmas handler_lists = control_handlers_def analysis_handlers_def implementation_handlers_def
  verification_handlers_def evaluation_handlers_def pr_handlers_def documentation_handlers_def
  ci_handlers_def dependency_handlers_def security_handlers_def

lemmas handler_defs = manifest_validation_handler_def scrum_mapping_handler_def dod_lock_handler_def
  scope_validation_handler_def evidence_gate_handler_def stop_or_loop_handler_def
  repo_inventory_handler_def command_discovery_handler_def ci_inventory_handler_def
  dependency_inventory_handler_def read_only_compliance_handler_def analysis_agent_handler_def
  output_parser_handler_def readiness_scoring_handler_def strategic_assessment_handler_def
  finding_generator_handler_def backlog_update_handler_def strategic_design_handler_def
  agent_invocation_handler_def output_quarantine_handler_def diff_capture_handler_def
  test_runner_handler_def static_check_handler_def scope_diff_handler_def
  failure_reproduction_handler_def analysis_verifier_handler_def implementation_verifier_handler_def
  evaluator_handler_def memory_update_handler_def pr_gate_handler_def pr_creation_handler_def
  documentation_gap_handler_def link_check_handler_def documentation_verifier_handler_def
  ci_log_parser_handler_def classification_handler_def reproduction_handler_def ci_config_handler_def
  lockfile_handler_def dependency_risk_handler_def license_check_handler_def build_handler_def
  security_tests_handler_def secret_scan_handler_def vulnerability_handler_def
  auth_change_handler_def input_validation_handler_def security_verifier_handler_def

text \<open>Every registered handler with its type, in the order of registration.\<close>

definition registered_types :: "(string \<times> handler_type) list" where
  "registered_types =
     [manifest_validation_id, scrum_mapping_id, dod_lock_id, scope_validation_id, evidence_gate_id,
      stop_or_loop_id, repo_inventory_id, command_discovery_id, ci_inventory_id,
      dependency_inventory_id, read_only_compliance_id, analysis_agent_id, output_parser_id,
      readiness_scoring_id, strategic_assessment_id, finding_generator_id, backlog_update_id,
      strategic_design_id, agent_invocation_id, output_quarantine_id, diff_capture_id,
      test_runner_id, static_check_id, scope_diff_id, failure_reproduction_id,
      analysis_verifier_id, implementation_verifier_id, evaluator_id, memory_update_id, pr_gate_id,
      pr_creation_id, documentation_gap_id, link_check_id, documentation_verifier_id,
      ci_log_parser_id, classification_id, reproduction_id, ci_config_id, lockfile_id,
      dependency_risk_id, license_check_id, build_id, security_tests_id, secret_scan_id,
      vulnerability_id, auth_change_id, input_validation_id, security_verifier_id]"

lemma default_types: "map (\<lambda>h. (hd_name h, hd_type h)) (default_handlers v) = registered_types"
  by (simp add: default_handlers_def handler_lists handler_defs registered_types_def)

lemma default_names: "map hd_name (default_handlers v) = map fst registered_types"
  by (simp flip: default_types [of v] add: comp_def)

lemma registered_distinct: "distinct (map fst registered_types)"
  by (simp add: registered_types_def)

lemma default_distinct: "distinct (map hd_name (default_handlers v))"
  by (simp only: default_names registered_distinct)

lemma default_handlers_ok: "list_all handler_ok (default_handlers v)"
  by (simp add: default_handlers_def control_handlers_ok analysis_handlers_ok
      implementation_handlers_ok verification_handlers_ok evaluation_handlers_ok pr_handlers_ok
      documentation_handlers_ok ci_handlers_ok dependency_handlers_ok security_handlers_ok)

lemma default_get:
  "registry_get (build_default_registry v) n = Some h \<Longrightarrow>
   h \<in> set (default_handlers v) \<and> hd_name h = n \<and> handler_ok h"
  using build_registry_mem [of "default_handlers v" n h] default_handlers_ok [of v]
  by (auto simp: build_default_registry_def list_all_iff)

lemma default_type_in: "type_in (build_default_registry v) n = map_of registered_types n"
proof (cases "registry_get (build_default_registry v) n")
  case None
  have "n \<notin> fst ` set registered_types"
  proof
    assume "n \<in> fst ` set registered_types"
    then have "n \<in> set (map hd_name (default_handlers v))" by (simp add: default_names)
    then obtain h where "h \<in> set (default_handlers v)" "hd_name h = n" by auto
    then show False using build_registry_get [OF default_distinct [of v]] None
      by (auto simp: build_default_registry_def)
  qed
  then have "map_of registered_types n = None" by (simp only: map_of_eq_None_iff not_False_eq_True)
  then show ?thesis using None by (simp add: type_in_def)
next
  case (Some h)
  then have "(n, hd_type h) \<in> set (map (\<lambda>h. (hd_name h, hd_type h)) (default_handlers v))"
    using default_get by fastforce
  then have "(n, hd_type h) \<in> set registered_types" by (simp only: default_types)
  then show ?thesis using Some registered_distinct by (simp add: type_in_def)
qed

text \<open>The pull-request handlers report a gated PR only on a verifier PASS.\<close>

lemma pr_gate_gated:
  assumes "hd_handle (pr_gate_handler v) c = (Inr r, d)"
    and "pr_status_of (dget (h_metadata r) ''pr_status'') = Some PR_GATED"
  shows "x_verifier_decision c = D_PASS"
proof (rule ccontr)
  assume "x_verifier_decision c \<noteq> D_PASS"
  then have "h_metadata r = pr_metadata PR_NOT_READY"
    using assms(1) by (auto simp: pr_gate_handler_def comp_defs ok_result_def)
  then show False using assms(2) by simp
qed

lemma pr_creation_gated:
  assumes "hd_handle (pr_creation_handler v) c = (Inr r, d)"
    and "pr_status_of (dget (h_metadata r) ''pr_status'') = Some PR_GATED"
  shows "x_verifier_decision c = D_PASS"
proof (rule ccontr)
  assume "x_verifier_decision c \<noteq> D_PASS"
  then have "h_metadata r = []"
    using assms(1) by (auto simp: pr_creation_handler_def comp_defs skip_result_def)
  then show False using assms(2) by (simp add: pr_status_of_def pr_statuses_def)
qed

lemma default_gated:
  assumes "registry_get (build_default_registry v) n = Some h" and "hd_handle h c = (Inr r, d)"
    and "pr_status_of (dget (h_metadata r) ''pr_status'') = Some PR_GATED"
  shows "x_verifier_decision c = D_PASS"
proof (cases "hd_type h = HT_PR_ACTION")
  case True
  have mem: "h \<in> set (default_handlers v)" using default_get [OF assms(1)] by simp
  then have "h = pr_gate_handler v \<or> h = pr_creation_handler v"
    using True by (auto simp: default_handlers_def handler_lists handler_defs)
  then show ?thesis using assms(2,3) pr_gate_gated pr_creation_gated by blast
next
  case False
  have "handler_ok h" using default_get [OF assms(1)] by simp
  then have "good_result (hd_name h, hd_type h) r"
    using assms(2) by (auto simp: handler_ok_def dest: returnsD)
  then show ?thesis using False assms(3)
    by (simp add: good_result_def pr_status_of_def pr_statuses_def)
qed

interpretation default: harness v "build_default_registry v" for v
  by unfold_locales (use default_get default_gated in blast)+

section \<open>The chains on this registry\<close>

text \<open>In every chain the pull-request handlers come after the last verifier.\<close>

definition pr_names :: "string list" where
  "pr_names = map fst (filter (\<lambda>p. snd p = HT_PR_ACTION) registered_types)"

definition verifier_names :: "string list" where
  "verifier_names = map fst (filter (\<lambda>p. snd p = HT_VERIFIER) registered_types)"

lemma default_pr_name:
  "type_in (build_default_registry v) n = Some HT_PR_ACTION \<Longrightarrow> n \<in> set pr_names"
  by (force simp: default_type_in pr_names_def dest: map_of_SomeD)

lemma default_verifier_name:
  "type_in (build_default_registry v) n = Some HT_VERIFIER \<Longrightarrow> n \<in> set verifier_names"
  by (force simp: default_type_in verifier_names_def dest: map_of_SomeD)

lemma verifiers_first_by_name:
  "list_all (\<lambda>n. n \<notin> set verifier_names) (dropWhile (\<lambda>n. n \<notin> set pr_names) ns) \<Longrightarrow>
   verifiers_first (build_default_registry v) ns"
proof (induction ns)
  case (Cons n ns)
  have "list_all (\<lambda>n. n \<notin> set verifier_names) ns \<Longrightarrow>
      list_all (\<lambda>n. n \<notin> set verifier_names) (dropWhile (\<lambda>n. n \<notin> set pr_names) ns)"
    by (auto simp: list_all_iff dest: set_dropWhileD)
  moreover have "list_all (\<lambda>n. n \<notin> set verifier_names) ns \<Longrightarrow>
      list_all (\<lambda>m. type_in (build_default_registry v) m \<noteq> Some HT_VERIFIER) ns"
    by (auto simp: list_all_iff dest: default_verifier_name)
  ultimately show ?case using Cons default_pr_name [of v n]
    by (auto split: if_splits)
qed simp

lemma chain_order:
  "list_all (\<lambda>n. n \<notin> set verifier_names)
     (dropWhile (\<lambda>n. n \<notin> set pr_names) (cd_handler_names (chain_of t)))"
  by (induction t; code_simp)

lemma chains_verifiers_first:
  "verifiers_first (build_default_registry v) (cd_handler_names (chain_of t))"
  by (rule verifiers_first_by_name) (rule chain_order)

lemma execute_run:
  "execute v reg q sv w =
     (case run_chain v reg (chain_of (q_task_type q)) (start_context q sv w) of
        (r, c) \<Rightarrow> (r, x_world c))"
  by (simp add: execute_def resolve_task_type)

lemma start_pending [simp]: "x_verifier_decision (start_context q sv w) = D_PENDING"
  by (simp add: start_context_def)

lemma start_ok [simp]: "ctx_ok (start_context q sv w)"
  by (simp add: ctx_ok_def start_context_def x_run_id_def x_task_id_def new_ledger_writer_def
      new_ledger_def ledger_wf_def)

end
