(* ===== verification/Chain_Steps.thy ===== *)
theory Chain_Steps
  imports Default_Registry
begin

text \<open>
  Lemmas on single steps of a run over the default registry: the registered handlers by name, the
  context the implementation verifier sees, what a handler's step does when it decides nothing, and
  the runs that end at the manifest or at the Scrum mapping.
\<close>

section \<open>The evidence of a run in order\<close>

text \<open>
  On a ledger its writer built, the evidence gate asks for no more than the identity of the run
  and the required types: everything else it checks holds by construction.
\<close>

lemma run_evidence_passed:
  assumes "ctx_ok c"
  shows "passed (run_evidence_gate c required) \<longleftrightarrow>
     x_run_id c \<noteq> [] \<and> x_task_id c \<noteq> []
     \<and> set required \<subseteq> set (map (artifact_type_value \<circ> e_artifact_type) (x_entries c))"
proof -
  have "distinct (named_ids (x_entries c))"
    using ledger_wf_distinct assms by (simp add: ctx_ok_def named_ids_def)
  then show ?thesis using assms
    by (auto simp: run_evidence_gate_def evidence_gate_passed ctx_ok_def ledger_linked_def
        ledger_wf_def present_types_def)
qed

lemma run_evidence_view [simp]: "run_evidence_gate (verifier_view p c) req = run_evidence_gate c req"
  by (simp add: run_evidence_gate_def verifier_view_def x_run_id_def x_task_id_def)

lemma verifier_view_sel [simp]:
  "x_request (verifier_view p c) = x_request c" "x_strategic (verifier_view p c) = x_strategic c"
  "x_summary_quarantined (verifier_view p c) = x_summary_quarantined c"
  "x_test_outcomes (verifier_view p c) = x_test_outcomes c"
  "x_changed_files (verifier_view p c) = x_changed_files c"
  "x_coding_agent_run_id (verifier_view p c) = x_coding_agent_run_id c"
  "x_verifier_run_id (verifier_view p c) = (if x_verifier_run_id c \<noteq> [] then x_verifier_run_id c else p)"
  by (simp_all add: verifier_view_def)

section \<open>Registered handlers\<close>

lemma default_registered:
  "h \<in> set (default_handlers v) \<Longrightarrow> registry_get (build_default_registry v) (hd_name h) = Some h"
  using build_registry_get [OF default_distinct] by (simp add: build_default_registry_def)

lemma implementation_registered:
  "registry_get (build_default_registry v) ''ImplementationVerifierHandler''
     = Some (implementation_verifier_handler v)"
  using default_registered [of "implementation_verifier_handler v" v]
  by (simp add: default_handlers_def verification_handlers_def implementation_verifier_handler_def)

lemma implementation_verifier_runs:
  assumes "implementation_verifier_gates (verifier_view ''impl-verifier'' c) = Inr gates"
  shows "\<exists>data. hd_handle (implementation_verifier_handler v) c =
     (Inr (from_gates implementation_verifier_id gates False),
      snd (record_artifact v ''verifier_report.json'' data AT_VERIFIER_REPORT
        (report_result (from_gates implementation_verifier_id gates False)) (JStr [])
        ''ImplementationVerifierHandler''
        ((verifier_view ''impl-verifier'' c)\<lparr>x_world := (x_world c)\<lparr>w_tick := Suc (w_tick (x_world c))\<rparr>\<rparr>)))"
  using assms
  by (simp add: implementation_verifier_handler_def set_verifier_run_id_def comp_defs on_world_eq
      report_now_def record_report_def read_clock_def Let_def record_artifact_eq verifier_view_def) blast

lemma from_gates_PASS:
  "h_status (from_gates i gs False) = HS_PASS \<Longrightarrow>
   h_decision (from_gates i gs False) = HD_CONTINUE \<and> h_metadata (from_gates i gs False) = []"
  by (auto simp: from_gates_def fail_result_def ok_result_def split: if_splits)

lemma implementation_verifiers_first:
  "verifiers_first (build_default_registry v) (cd_handler_names IMPLEMENTATION_CHAIN)"
  using chains_verifiers_first [of v TT_IMPLEMENTATION] by simp

lemma pr_gate_registered:
  "registry_get (build_default_registry v) ''PRGateHandler'' = Some (pr_gate_handler v)"
  using default_registered [of "pr_gate_handler v" v]
  by (simp add: default_handlers_def pr_handlers_def pr_gate_handler_def)

section \<open>Steps that decide nothing\<close>

text \<open>
  The step of a handler that decides nothing returns its result; its checkpoint changes files only.
\<close>

lemma undeciding_step:
  assumes reg: "registry_get reg n = Some h" and "hd_type h \<noteq> HT_VERIFIER"
    and out: "handler_outcome h n c = (Inr r, d)" and "h_metadata r = []"
  shows "\<exists>w. handler_step v reg i n pr c = (Inr (r, pr), d\<lparr>x_world := w\<rparr>)"
proof -
  have "decide (hd_type h) r d = d"
    using assms(2) by (simp add: decide_def can_decide_pass_iff split: option.split)
  moreover have "\<exists>a w. checkpoint_step v i n r d = (Inr a, d\<lparr>x_world := w\<rparr>)"
    by (auto simp add: checkpoint_step_def write_checkpoint_def stamp_created_def comp_defs on_world_eq
        store_write_eq read_clock_def Let_def checkpoint_of_def new_checkpoint_def)
  ultimately show ?thesis
    using assms by (auto simp add: handler_step_def comp_defs next_pr_status_def)
qed

lemma checkpoint_returns: "\<exists>a d. checkpoint_step v i n r c = (Inr a, d)
    \<and> x_verifier_decision d = x_verifier_decision c"
  by (simp add: checkpoint_step_def write_checkpoint_def stamp_created_def comp_defs on_world_eq
      store_write_eq read_clock_def Let_def checkpoint_of_def new_checkpoint_def)

section \<open>A chain that fails at once\<close>

text \<open>A chain ends after its first handler when that handler fails.\<close>

lemma chain_fails_first:
  assumes "cd_handler_names chain = n # ns" and "registry_get reg n = Some h"
    and out: "handler_outcome h n c = (Inr r, d)" and "hd_type h \<noteq> HT_VERIFIER"
    and r: "h_decision r = HD_FAIL" "h_metadata r = []"
  shows "\<exists>res e. run_chain v reg chain c = (Inr res, e) \<and> r_final_status res = FS_FAIL
    \<and> r_verifier_decision res = x_verifier_decision d \<and> r_handler_results res = [r]
    \<and> r_pr_status res = PR_NOT_REQUIRED"
proof -
  obtain w where "handler_step v reg 0 n PR_NOT_REQUIRED c = (Inr (r, PR_NOT_REQUIRED), d\<lparr>x_world := w\<rparr>)"
    using undeciding_step [OF assms(2,4) out r(2)] by blast
  then show ?thesis using r(1) assms(1)
    by (simp add: run_chain_def start_loop_def comp_defs final_status_of_def)
qed

lemma manifest_registered:
  "registry_get (build_default_registry v) ''ManifestValidationHandler'' = Some manifest_validation_handler"
  using default_registered [of manifest_validation_handler v]
  by (simp add: default_handlers_def control_handlers_def manifest_validation_handler_def)

lemma chains_start:
  "cd_handler_names (chain_of t) = ''ManifestValidationHandler'' # tl (cd_handler_names (chain_of t))"
  by (cases t) (simp_all add: chain_defs)

lemma start_unchanged:
  "path_exists (x_world (start_context q sv w)) (x_repo (start_context q sv w)) \<Longrightarrow>
   repo_unchanged (start_context q sv w)"
  by (simp add: start_context_def repo_unchanged_def same_dict_def)

lemma manifest_rejects:
  assumes "canonical_violations q \<noteq> []"
  obtains r d where "handler_outcome manifest_validation_handler ''ManifestValidationHandler''
      (start_context q sv w) = (Inr r, d)" and "x_verifier_decision d = D_PENDING"
    and "h_handler_name r = ''ManifestValidationHandler''" and "h_decision r = HD_FAIL"
    and "h_metadata r = []" and "set (canonical_violations q) \<subseteq> set (h_failure_reasons r)"
proof -
  let ?c = "start_context q sv w"
  let ?env = "gate_of ''chain_envelope'' (canonical_violations q)"
  obtain gates d where run: "hd_handle manifest_validation_handler ?c =
      (Inr (from_gates manifest_validation_id (?env # gates) False), d)"
    and d: "x_verifier_decision d = D_PENDING" "x_world d = x_world ?c" "x_repo d = x_repo ?c"
      "x_repo_snapshot d = x_repo_snapshot ?c"
    by (cases "x_manifest ?c")
       (auto simp: manifest_validation_handler_def comp_defs Let_def start_context_def)
  have reasons: "set (canonical_violations q) \<subseteq> set (gate_reasons (?env # gates))"
    "gate_reasons (?env # gates) \<noteq> []"
    using assms by (simp_all add: gate_reasons_def)
  let ?r = "fail_result manifest_validation_id (gate_reasons (?env # gates)) False (?env # gates) []"
  have res: "from_gates manifest_validation_id (?env # gates) False = ?r"
    using reasons(2) by (simp add: from_gates_def)
  have "handler_outcome manifest_validation_handler ''ManifestValidationHandler'' ?c = (Inr ?r, d)"
    using run start_unchanged [of q sv w] d unfolding res
    by (auto simp: handler_outcome_def comp_defs enforce_no_repo_mutation_def repo_unchanged_def
        manifest_validation_handler_def)
  then show thesis using that d(1) reasons by (simp add: fail_result_def)
qed

section \<open>A chain that stops at the Scrum mapping\<close>

lemma scrum_registered:
  "registry_get (build_default_registry v) ''ScrumMappingHandler'' = Some scrum_mapping_handler"
  using default_registered [of scrum_mapping_handler v]
  by (simp add: default_handlers_def control_handlers_def scrum_mapping_handler_def)

lemma chains_continue:
  "cd_handler_names (chain_of t) =
     ''ManifestValidationHandler'' # ''ScrumMappingHandler'' # tl (tl (cd_handler_names (chain_of t)))"
  by (cases t) (simp_all add: chain_defs)

lemma manifest_accepts:
  assumes "canonical_violations q = []" and "sv_manifest sv = None"
  shows "handler_outcome manifest_validation_handler ''ManifestValidationHandler'' (start_context q sv w)
    = (Inr (ok_result manifest_validation_id HD_CONTINUE [] [gate_of ''chain_envelope'' []] []),
       start_context q sv w)"
  using assms start_unchanged [of q sv w]
  by (auto simp: handler_outcome_def manifest_validation_handler_def comp_defs Let_def start_context_def
      from_gates_def gate_reasons_def enforce_no_repo_mutation_def)

lemma failed_gate_stops:
  assumes "\<not> passed (gate_of n rs)"
  shows "h_decision (enforce_no_repo_mutation t c (from_gates i [gate_of n rs] False)) \<in> {HD_FAIL, HD_BLOCKED}"
    and "h_metadata (enforce_no_repo_mutation t c (from_gates i [gate_of n rs] False)) = []"
  using assms
  by (auto simp: enforce_no_repo_mutation_def authority_violation_def from_gates_def fail_result_def gate_reasons_def)

lemma scrum_stops:
  assumes "x_scrum c = None" and "\<not> passed (scrum_gate (envelope_scrum (q_scrum (x_request c))) (x_locked_dod c))"
  shows "\<exists>r d. handler_outcome scrum_mapping_handler ''ScrumMappingHandler'' c = (Inr r, d)
    \<and> h_decision r \<in> {HD_FAIL, HD_BLOCKED} \<and> h_metadata r = [] \<and> x_verifier_decision d = x_verifier_decision c"
  using failed_gate_stops [OF assms(2) [unfolded scrum_gate_def], folded scrum_gate_def] assms(1)
  by (simp add: handler_outcome_def scrum_mapping_handler_def comp_defs Let_def)

lemma incomplete_scrum_run:
  assumes ok: "canonical_violations q = []" "sv_manifest sv = None" and scrum: "sv_scrum sv = None"
    and gate: "\<not> passed (scrum_gate (envelope_scrum (q_scrum q)) None)"
  shows "\<exists>res w'. execute v (build_default_registry v) q sv w = (Inr res, w')
    \<and> r_final_status res \<in> {FS_FAIL, FS_BLOCKED} \<and> r_verifier_decision res = D_PENDING
    \<and> r_pr_status res = PR_NOT_REQUIRED
    \<and> r_task_id res = q_task_id q
    \<and> map h_handler_name (r_handler_results res) = [''ManifestValidationHandler'', ''ScrumMappingHandler'']"
proof -
  let ?reg = "build_default_registry v" and ?c = "start_context q sv w"
  let ?r = "ok_result manifest_validation_id HD_CONTINUE [] [gate_of ''chain_envelope'' []] []"
  have types: "hd_type manifest_validation_handler \<noteq> HT_VERIFIER" "hd_type scrum_mapping_handler \<noteq> HT_VERIFIER"
    by (simp_all add: manifest_validation_handler_def scrum_mapping_handler_def)
  have "h_metadata ?r = []" by (simp add: ok_result_def)
  from undeciding_step [OF manifest_registered types(1) manifest_accepts [OF ok] this]
  obtain w1 where one: "handler_step v ?reg 0 ''ManifestValidationHandler'' PR_NOT_REQUIRED ?c
      = (Inr (?r, PR_NOT_REQUIRED), ?c\<lparr>x_world := w1\<rparr>)" by blast
  have "x_scrum (?c\<lparr>x_world := w1\<rparr>) = None"
    "\<not> passed (scrum_gate (envelope_scrum (q_scrum (x_request (?c\<lparr>x_world := w1\<rparr>)))) (x_locked_dod (?c\<lparr>x_world := w1\<rparr>)))"
    using scrum gate by (simp_all add: start_context_def)
  from scrum_stops [OF this] obtain r d where r: "handler_outcome scrum_mapping_handler ''ScrumMappingHandler''
      (?c\<lparr>x_world := w1\<rparr>) = (Inr r, d)" "h_decision r \<in> {HD_FAIL, HD_BLOCKED}" "h_metadata r = []"
    "x_verifier_decision d = D_PENDING" by auto
  from undeciding_step [OF scrum_registered types(2) r(1,3)]
  obtain w2 where two: "handler_step v ?reg 1 ''ScrumMappingHandler'' PR_NOT_REQUIRED (?c\<lparr>x_world := w1\<rparr>)
      = (Inr (r, PR_NOT_REQUIRED), d\<lparr>x_world := w2\<rparr>)" by blast
  have names: "h_handler_name ?r = ''ManifestValidationHandler''" "h_handler_name r = ''ScrumMappingHandler''"
    "h_decision ?r = HD_CONTINUE"
    using default.step_spec [OF two] by (simp_all add: ok_result_def)
  obtain ns where ns: "cd_handler_names (chain_of (q_task_type q)) = ''ManifestValidationHandler'' # ''ScrumMappingHandler'' # ns"
    using chains_continue by blast
  have "x_task_id (d\<lparr>x_world := w2\<rparr>) = q_task_id q"
    using default.step_spec [OF two] by (simp add: progress_def start_context_def x_task_id_def)
  then show ?thesis using r(2,4) one two names
    by (auto simp: execute_run run_chain_def ns start_loop_def comp_defs final_status_of_def Let_def)
qed

end
