(* ===== verification/Complete_Run.thy ===== *)
theory Complete_Run
  imports Chain_Steps
begin

text \<open>
  A request that carries everything the implementation chain asks for is passed and its pull request
  gated.  A stage of a run is a context and the types of the evidence recorded since: a handler
  leads from a stage to the next when, from every context at the first, its step returns, goes on and
  ends at the second; the relation \<open>brought\<close> composes the steps.  The evidence is written
  apart from the repository, so no step is taken for a change of it.
\<close>

section \<open>Writing away from the repository\<close>

text \<open>
  What may differ between two worlds when only files under a directory were written: what lies
  below it, and which directories lie above it, for these are made with it.
\<close>

definition apart :: "string list \<Rightarrow> string list \<Rightarrow> bool" where
  "apart l m \<longleftrightarrow> \<not> prefix l m \<and> \<not> prefix m l"

lemma apart_above: "apart l m \<Longrightarrow> prefix m f \<Longrightarrow> apart l f"
  by (auto simp: apart_def dest: prefix_same_cases prefix_order.trans)

lemma apart_below: "apart l m \<Longrightarrow> prefix m f \<Longrightarrow> \<not> prefix l f"
  by (auto simp: apart_def dest: prefix_same_cases)

definition writes_only :: "string list \<Rightarrow> world \<Rightarrow> world \<Rightarrow> bool" where
  "writes_only l w w' \<longleftrightarrow> w_cwd w' = w_cwd w
     \<and> filter (\<lambda>(m, _). \<not> prefix l m) (w_files w') = filter (\<lambda>(m, _). \<not> prefix l m) (w_files w)
     \<and> filter (apart l) (w_dirs w') = filter (apart l) (w_dirs w)"

interpretation writing: state_preorder "writes_only l" for l
  by unfold_locales (auto simp: writes_only_def)

lemma writes_only_tick [simp]: "writes_only l w (w'\<lparr>w_tick := t\<rparr>) = writes_only l w w'"
  by (simp add: writes_only_def)

lemma writes_only_locate: "writes_only l w w' \<Longrightarrow> locate w' p = locate w p"
  by (simp add: writes_only_def locate_def)

lemma filter_dict_set: "\<not> P (k, v) \<Longrightarrow> (\<And>u. P (k, u) = P (k, v)) \<Longrightarrow> filter P (dict_set k v d) = filter P d"
  by (induction k v d rule: dict_set.induct) auto

lemma writes_only_make_dirs: "prefix l (locate w p) \<Longrightarrow> writes_only l w (make_dirs p w)"
  by (auto simp: writes_only_def make_dirs_def filter_empty_conv apart_def dest: prefix_same_cases)

lemma writes_only_file: "prefix l (locate w p) \<Longrightarrow> writes_only l w (write_file p b w)"
  by (simp add: writes_only_def write_file_def filter_dict_set)

lemma writes_only_store:
  assumes "segment n"
  shows "writes_only (locate w dir) w (write_file (pjoin dir n) b (make_dirs dir w))"
proof (rule writing.R_trans)
  show "writes_only (locate w dir) w (make_dirs dir w)" by (simp add: writes_only_make_dirs)
  show "writes_only (locate w dir) (make_dirs dir w) (write_file (pjoin dir n) b (make_dirs dir w))"
    using assms by (simp add: writes_only_file)
qed

lemma filter_below:
  assumes "\<And>x. Q x \<Longrightarrow> P x" and "filter P xs = filter P ys"
  shows "filter Q xs = filter Q ys"
proof -
  have "filter Q zs = filter Q (filter P zs)" for zs
    using assms(1) by (auto intro: filter_cong)
  then show ?thesis using assms(2) by metis
qed

lemma path_exists_iff:
  "path_exists w p \<longleftrightarrow> locate w p = [] \<or> filter (\<lambda>(f, _). prefix (locate w p) f) (w_files w) \<noteq> []
     \<or> filter (prefix (locate w p)) (w_dirs w) \<noteq> []"
proof -
  define l where "l = locate w p"
  have "filter (\<lambda>(f, _). prefix l f) (w_files w) \<noteq> [] \<longleftrightarrow> (\<exists>f \<in> fst ` set (w_files w). prefix l f)"
    "filter (prefix l) (w_dirs w) \<noteq> [] \<longleftrightarrow> (\<exists>f \<in> set (w_dirs w). prefix l f)"
    by (simp_all add: filter_empty_conv case_prod_unfold)
  note filters = this
  have "file_at w l \<noteq> None \<longleftrightarrow> l \<in> fst ` set (w_files w)"
    by (simp add: file_at_def map_of_eq_None_iff)
  note found = this
  have dir: "list_ex (\<lambda>m. strict_prefix l m) (map fst (w_files w) @ w_dirs w) \<longleftrightarrow>
      (\<exists>f \<in> fst ` set (w_files w). strict_prefix l f) \<or> (\<exists>f \<in> set (w_dirs w). strict_prefix l f)"
    by (auto simp: list_ex_iff)
  have split: "(\<exists>f \<in> A. prefix l f) \<longleftrightarrow> l \<in> A \<or> (\<exists>f \<in> A. strict_prefix l f)" for A
    by (auto simp: strict_prefix_def)
  show ?thesis
    unfolding path_exists_def is_file_def is_dir_def dir_at_def l_def [symmetric] filters found dir split by blast
qed

lemma writes_only_snapshot:
  assumes w: "writes_only l w w'" and apart: "apart l (locate w p)"
  shows "snapshot_repo w' p = snapshot_repo w p" and "path_exists w' p = path_exists w p"
proof -
  let ?r = "locate w p"
  have r: "locate w' p = ?r" using w by (rule writes_only_locate)
  have files: "filter (\<lambda>(f, _). prefix ?r f) (w_files w') = filter (\<lambda>(f, _). prefix ?r f) (w_files w)"
    by (rule filter_below [where P = "\<lambda>(m, _). \<not> prefix l m"])
       (use w apart_below [OF apart] in \<open>auto simp: writes_only_def\<close>)
  have dirs: "filter (prefix ?r) (w_dirs w') = filter (prefix ?r) (w_dirs w)"
    by (rule filter_below [where P = "apart l"])
       (use w apart_above [OF apart] in \<open>auto simp: writes_only_def\<close>)
  have strict: "filter (\<lambda>(f, _). strict_prefix ?r f) (w_files w') = filter (\<lambda>(f, _). strict_prefix ?r f) (w_files w)"
    by (rule filter_below [OF _ files]) auto
  show "snapshot_repo w' p = snapshot_repo w p"
    by (simp add: snapshot_repo_def files_below_def Let_def r strict)
  show "path_exists w' p = path_exists w p"
    by (simp add: path_exists_iff r files dirs)
qed

section \<open>A run that goes on\<close>

text \<open>
  The context \<open>d\<close> is \<open>c\<close> but for the score and the evidence: entries of the given types were added,
  in order, and files written below the directory of the run.
\<close>

definition evidence_place :: "ctx \<Rightarrow> string list" where
  "evidence_place c = locate (x_world c) (run_dir (x_store c) (x_run_id c))"

definition adds :: "artifact_type list \<Rightarrow> ctx \<Rightarrow> ctx \<Rightarrow> bool" where
  "adds ts c d \<longleftrightarrow> d = c\<lparr>x_evidence := x_evidence d, x_world := x_world d, x_artifacts := x_artifacts d,
       x_eval_score := x_eval_score d\<rparr>
     \<and> writes_only (evidence_place c) (x_world c) (x_world d)
     \<and> map e_artifact_type (x_entries d) = map e_artifact_type (x_entries c) @ ts
     \<and> ctx_ok d"

lemma adds_cases:
  assumes "adds ts s c"
  obtains ev w as k where "c = s\<lparr>x_evidence := ev, x_world := w, x_artifacts := as, x_eval_score := k\<rparr>"
  using assms unfolding adds_def by blast

lemma adds_place:
  assumes "adds ts s c"
  shows "evidence_place c = evidence_place s" and "locate (x_world c) p = locate (x_world s) p"
proof -
  show *: "locate (x_world c) p = locate (x_world s) p" for p
    using assms writes_only_locate by (auto simp: adds_def)
  obtain ev w as k where "c = s\<lparr>x_evidence := ev, x_world := w, x_artifacts := as, x_eval_score := k\<rparr>"
    using assms by (rule adds_cases)
  then show "evidence_place c = evidence_place s"
    using * by (simp add: evidence_place_def x_run_id_def)
qed

lemma adds_refl: "ctx_ok c \<Longrightarrow> adds [] c c"
  by (simp add: adds_def writing.R_refl)

lemma adds_world:
  assumes "adds ts s c" and "writes_only (evidence_place s) (x_world c) w"
  shows "adds ts s (c\<lparr>x_world := w\<rparr>)"
proof -
  obtain ev u as k where c: "c = s\<lparr>x_evidence := ev, x_world := u, x_artifacts := as, x_eval_score := k\<rparr>"
    using assms(1) by (rule adds_cases)
  have "writes_only (evidence_place s) (x_world s) w"
    using assms writing.R_trans by (auto simp: adds_def)
  moreover have "ctx_ok (c\<lparr>x_world := w\<rparr>) = ctx_ok c" by (simp add: ctx_ok_def x_run_id_def x_task_id_def)
  ultimately show ?thesis using assms(1) by (simp add: adds_def c)
qed

lemma adds_record:
  assumes "adds ts s c" and "evidence_name n"
  shows "adds (ts @ [ty]) s (snd (record_artifact v n data ty r (JStr cmd) by c))"
proof -
  let ?d = "snd (record_artifact v n data ty r (JStr cmd) by c)"
  have "segment n" using assms(2) by (simp add: evidence_name_def)
  then have "writes_only (evidence_place c) (x_world c) (x_world ?d)"
    by (simp add: record_artifact_eq written_def evidence_place_def writes_only_store)
  then have "writes_only (evidence_place s) (x_world s) (x_world ?d)"
    using assms(1) writing.R_trans adds_place(1) [OF assms(1)] by (auto simp: adds_def)
  moreover have "ctx_ok ?d"
    using record_artifact_evolves [OF assms(2)] assms(1) by (auto simp: adds_def evolves_def)
  moreover have "map e_artifact_type (x_entries ?d) = map e_artifact_type (x_entries s) @ ts @ [ty]"
    using assms(1) by (simp add: adds_def record_artifact_eq push_entry_def entry_of_def)
  moreover obtain ev w as k where "c = s\<lparr>x_evidence := ev, x_world := w, x_artifacts := as, x_eval_score := k\<rparr>"
    using assms(1) by (rule adds_cases)
  then have "?d = s\<lparr>x_evidence := x_evidence ?d, x_world := x_world ?d, x_artifacts := x_artifacts ?d,
      x_eval_score := x_eval_score ?d\<rparr>"
    by (simp add: record_artifact_eq)
  ultimately show ?thesis by (simp add: adds_def)
qed

lemma adds_quarantined:
  assumes "adds ts s c" and "segment n"
  shows "adds ts s (snd (write_quarantined v n data by c))"
proof -
  have "writes_only (evidence_place c) (x_world c) (written n data c)"
    using assms(2) by (simp add: written_def evidence_place_def writes_only_store)
  then show ?thesis using adds_world [OF assms(1)] adds_place(1) [OF assms(1)]
    by (simp add: write_quarantined_eq)
qed

lemma ctx_ok_updates [simp]:
  "ctx_ok (c\<lparr>x_scrum := a1\<rparr>) = ctx_ok c" "ctx_ok (c\<lparr>x_locked_dod := a2\<rparr>) = ctx_ok c"
  "ctx_ok (c\<lparr>x_strategic := a3\<rparr>) = ctx_ok c" "ctx_ok (c\<lparr>x_shared := a4\<rparr>) = ctx_ok c"
  "ctx_ok (c\<lparr>x_coding_agent_run_id := a5\<rparr>) = ctx_ok c" "ctx_ok (c\<lparr>x_summary_quarantined := a6\<rparr>) = ctx_ok c"
  "ctx_ok (c\<lparr>x_changed_files := a7\<rparr>) = ctx_ok c" "ctx_ok (c\<lparr>x_test_outcomes := a8\<rparr>) = ctx_ok c"
  "ctx_ok (c\<lparr>x_verifier_run_id := a9\<rparr>) = ctx_ok c" "ctx_ok (c\<lparr>x_verifier_decision := a10\<rparr>) = ctx_ok c"
  "ctx_ok (c\<lparr>x_eval_score := a11\<rparr>) = ctx_ok c"
  by (simp_all add: ctx_ok_def x_run_id_def x_task_id_def)

lemma evidence_place_updates [simp]:
  "evidence_place (c\<lparr>x_scrum := a1\<rparr>) = evidence_place c" "evidence_place (c\<lparr>x_locked_dod := a2\<rparr>) = evidence_place c"
  "evidence_place (c\<lparr>x_strategic := a3\<rparr>) = evidence_place c" "evidence_place (c\<lparr>x_shared := a4\<rparr>) = evidence_place c"
  "evidence_place (c\<lparr>x_coding_agent_run_id := a5\<rparr>) = evidence_place c" "evidence_place (c\<lparr>x_summary_quarantined := a6\<rparr>) = evidence_place c"
  "evidence_place (c\<lparr>x_changed_files := a7\<rparr>) = evidence_place c" "evidence_place (c\<lparr>x_test_outcomes := a8\<rparr>) = evidence_place c"
  "evidence_place (c\<lparr>x_verifier_run_id := a9\<rparr>) = evidence_place c" "evidence_place (c\<lparr>x_verifier_decision := a10\<rparr>) = evidence_place c"
  "evidence_place (c\<lparr>x_eval_score := a11\<rparr>) = evidence_place c"
  by (simp_all add: evidence_place_def x_run_id_def)

lemma adds_update:
  assumes "adds ts s c"
  shows "adds ts (s\<lparr>x_scrum := a1\<rparr>) (c\<lparr>x_scrum := a1\<rparr>)" "adds ts (s\<lparr>x_locked_dod := a2\<rparr>) (c\<lparr>x_locked_dod := a2\<rparr>)"
    "adds ts (s\<lparr>x_strategic := a3\<rparr>) (c\<lparr>x_strategic := a3\<rparr>)" "adds ts (s\<lparr>x_shared := a4\<rparr>) (c\<lparr>x_shared := a4\<rparr>)"
    "adds ts (s\<lparr>x_coding_agent_run_id := a5\<rparr>) (c\<lparr>x_coding_agent_run_id := a5\<rparr>)"
    "adds ts (s\<lparr>x_summary_quarantined := a6\<rparr>) (c\<lparr>x_summary_quarantined := a6\<rparr>)"
    "adds ts (s\<lparr>x_changed_files := a7\<rparr>) (c\<lparr>x_changed_files := a7\<rparr>)"
    "adds ts (s\<lparr>x_test_outcomes := a8\<rparr>) (c\<lparr>x_test_outcomes := a8\<rparr>)"
    "adds ts (s\<lparr>x_verifier_run_id := a9\<rparr>) (c\<lparr>x_verifier_run_id := a9\<rparr>)"
    "adds ts (s\<lparr>x_verifier_decision := a10\<rparr>) (c\<lparr>x_verifier_decision := a10\<rparr>)"
    "adds ts s (c\<lparr>x_eval_score := a11\<rparr>)"
proof -
  obtain ev w as k where c: "c = s\<lparr>x_evidence := ev, x_world := w, x_artifacts := as, x_eval_score := k\<rparr>"
    using assms by (rule adds_cases)
  note facts = assms [unfolded adds_def]
  show "adds ts (s\<lparr>x_scrum := a1\<rparr>) (c\<lparr>x_scrum := a1\<rparr>)" "adds ts (s\<lparr>x_locked_dod := a2\<rparr>) (c\<lparr>x_locked_dod := a2\<rparr>)"
    "adds ts (s\<lparr>x_strategic := a3\<rparr>) (c\<lparr>x_strategic := a3\<rparr>)" "adds ts (s\<lparr>x_shared := a4\<rparr>) (c\<lparr>x_shared := a4\<rparr>)"
    "adds ts (s\<lparr>x_coding_agent_run_id := a5\<rparr>) (c\<lparr>x_coding_agent_run_id := a5\<rparr>)"
    "adds ts (s\<lparr>x_summary_quarantined := a6\<rparr>) (c\<lparr>x_summary_quarantined := a6\<rparr>)"
    "adds ts (s\<lparr>x_changed_files := a7\<rparr>) (c\<lparr>x_changed_files := a7\<rparr>)"
    "adds ts (s\<lparr>x_test_outcomes := a8\<rparr>) (c\<lparr>x_test_outcomes := a8\<rparr>)"
    "adds ts (s\<lparr>x_verifier_run_id := a9\<rparr>) (c\<lparr>x_verifier_run_id := a9\<rparr>)"
    "adds ts (s\<lparr>x_verifier_decision := a10\<rparr>) (c\<lparr>x_verifier_decision := a10\<rparr>)"
    "adds ts s (c\<lparr>x_eval_score := a11\<rparr>)"
    using facts by (simp_all add: adds_def c)
qed

lemma adds_keeps:
  assumes "adds ts s c"
  shows "x_request c = x_request s" "x_store c = x_store s" "x_repo c = x_repo s" "x_repo_snapshot c = x_repo_snapshot s"
    "x_manifest c = x_manifest s" "x_scrum c = x_scrum s" "x_strategic c = x_strategic s"
    "x_locked_dod c = x_locked_dod s" "x_changed_files c = x_changed_files s" "x_test_outcomes c = x_test_outcomes s"
    "x_coding_agent_run_id c = x_coding_agent_run_id s" "x_verifier_run_id c = x_verifier_run_id s"
    "x_verifier_decision c = x_verifier_decision s" "x_summary_quarantined c = x_summary_quarantined s"
    "x_shared c = x_shared s" "x_run_id c = x_run_id s" "x_task_id c = x_task_id s"
proof -
  obtain ev w as k where c: "c = s\<lparr>x_evidence := ev, x_world := w, x_artifacts := as, x_eval_score := k\<rparr>"
    using assms by (rule adds_cases)
  show "x_request c = x_request s" "x_store c = x_store s" "x_repo c = x_repo s" "x_repo_snapshot c = x_repo_snapshot s"
    "x_manifest c = x_manifest s" "x_scrum c = x_scrum s" "x_strategic c = x_strategic s"
    "x_locked_dod c = x_locked_dod s" "x_changed_files c = x_changed_files s" "x_test_outcomes c = x_test_outcomes s"
    "x_coding_agent_run_id c = x_coding_agent_run_id s" "x_verifier_run_id c = x_verifier_run_id s"
    "x_verifier_decision c = x_verifier_decision s" "x_summary_quarantined c = x_summary_quarantined s"
    "x_shared c = x_shared s" "x_run_id c = x_run_id s" "x_task_id c = x_task_id s"
    by (simp_all add: c x_run_id_def x_task_id_def)
qed

text \<open>The contexts the two writers leave, as functions of what they write.\<close>

definition recorded :: "env \<Rightarrow> string \<Rightarrow> string \<Rightarrow> artifact_type \<Rightarrow> ledger_result \<Rightarrow> string \<Rightarrow> string \<Rightarrow> ctx \<Rightarrow> ctx" where
  "recorded v n data ty r cmd by c = snd (record_artifact v n data ty r (JStr cmd) by c)"

definition quarantined :: "env \<Rightarrow> string \<Rightarrow> string \<Rightarrow> string \<Rightarrow> ctx \<Rightarrow> ctx" where
  "quarantined v n data by c = snd (write_quarantined v n data by c)"

lemma record_recorded:
  "record_artifact v n data ty r (JStr cmd) by c =
     (Inr (artifact_of v n data (artifact_type_value ty) by c), recorded v n data ty r cmd by c)"
  "write_quarantined v n data by c = (Inr (artifact_of v n data ''COMMAND_OUTPUT'' by c), quarantined v n data by c)"
  by (simp_all add: recorded_def quarantined_def record_artifact_eq write_quarantined_eq)

lemma adds_recorded:
  "adds ts s c \<Longrightarrow> evidence_name n \<Longrightarrow> ts' = ts @ [ty] \<Longrightarrow> adds ts' s (recorded v n data ty r cmd by c)"
  by (simp add: recorded_def adds_record)

lemma adds_quarantined_by: "adds ts s c \<Longrightarrow> segment n \<Longrightarrow> adds ts s (quarantined v n data by c)"
  by (simp add: quarantined_def adds_quarantined)

lemmas adds_intros = adds_recorded adds_quarantined_by adds_update

lemma kept_by_writers [simp]:
  "x_request (recorded v n data ty r cmd by c) = x_request c" "x_request (quarantined v n data by c) = x_request c"
  "x_shared (recorded v n data ty r cmd by c) = x_shared c" "x_shared (quarantined v n data by c) = x_shared c"
  "x_test_outcomes (recorded v n data ty r cmd by c) = x_test_outcomes c"
  "x_store (recorded v n data ty r cmd by c) = x_store c" "x_run_id (recorded v n data ty r cmd by c) = x_run_id c"
  "x_coding_agent_run_id (quarantined v n data by c) = x_coding_agent_run_id c"
  by (simp_all add: recorded_def quarantined_def record_artifact_eq write_quarantined_eq x_run_id_def)

section \<open>Steps that go on\<close>

definition goes_on :: "handler_result \<Rightarrow> bool" where
  "goes_on r \<longleftrightarrow> h_decision r = HD_CONTINUE \<or> h_decision r = HD_SKIP_NOT_APPLICABLE"

text \<open>The repository lies apart from the evidence, and its snapshot is that of the symbolic context.\<close>

definition repo_apart :: "ctx \<Rightarrow> bool" where
  "repo_apart s \<longleftrightarrow> apart (evidence_place s) (locate (x_world s) (x_repo s))
     \<and> (path_exists (x_world s) (x_repo s) \<longrightarrow> repo_unchanged s)"

lemma repo_apart_updates [simp]:
  "repo_apart (c\<lparr>x_scrum := a1\<rparr>) = repo_apart c" "repo_apart (c\<lparr>x_locked_dod := a2\<rparr>) = repo_apart c"
  "repo_apart (c\<lparr>x_strategic := a3\<rparr>) = repo_apart c" "repo_apart (c\<lparr>x_shared := a4\<rparr>) = repo_apart c"
  "repo_apart (c\<lparr>x_coding_agent_run_id := a5\<rparr>) = repo_apart c" "repo_apart (c\<lparr>x_summary_quarantined := a6\<rparr>) = repo_apart c"
  "repo_apart (c\<lparr>x_changed_files := a7\<rparr>) = repo_apart c" "repo_apart (c\<lparr>x_test_outcomes := a8\<rparr>) = repo_apart c"
  "repo_apart (c\<lparr>x_verifier_run_id := a9\<rparr>) = repo_apart c" "repo_apart (c\<lparr>x_verifier_decision := a10\<rparr>) = repo_apart c"
  "repo_apart (c\<lparr>x_eval_score := a11\<rparr>) = repo_apart c"
  by (simp_all add: repo_apart_def repo_unchanged_def)

lemma apart_authority:
  assumes "repo_apart s" and "adds ts s c"
  shows "enforce_no_repo_mutation t c r = r"
proof -
  have w: "writes_only (evidence_place s) (x_world s) (x_world c)" using assms(2) by (simp add: adds_def)
  note same = writes_only_snapshot [OF w] adds_keeps [OF assms(2)]
  have "path_exists (x_world c) (x_repo c) \<Longrightarrow> repo_unchanged c"
    using assms(1) same by (simp add: repo_apart_def repo_unchanged_def)
  then show ?thesis by (simp add: enforce_no_repo_mutation_def)
qed

lemma checkpoint_step_eq:
  "\<exists>a b t t'. checkpoint_step v i n r c = (Inr a, c\<lparr>x_world :=
      (write_file (pjoin (run_dir (x_store c) (x_run_id c)) (checkpoint_name i n)) b
        (make_dirs (run_dir (x_store c) (x_run_id c)) ((x_world c)\<lparr>w_tick := t\<rparr>)))\<lparr>w_tick := t'\<rparr>\<rparr>)"
  by (simp add: checkpoint_step_def write_checkpoint_def stamp_created_def comp_defs on_world_eq
        store_write_eq read_clock_def Let_def checkpoint_of_def new_checkpoint_def) blast

lemma writes_only_tick_from [simp]: "writes_only l (w\<lparr>w_tick := t\<rparr>) w' = writes_only l w w'"
  by (simp add: writes_only_def)

lemma checkpoint_adds:
  assumes "adds ts s c" and "segment (checkpoint_name i n)"
  shows "\<exists>a d. checkpoint_step v i n r c = (Inr a, d) \<and> adds ts s d"
proof -
  let ?dir = "run_dir (x_store c) (x_run_id c)"
  let ?w = "\<lambda>b t t'. (write_file (pjoin ?dir (checkpoint_name i n)) b (make_dirs ?dir ((x_world c)\<lparr>w_tick := t\<rparr>)))\<lparr>w_tick := t'\<rparr>"
  obtain a b t t' where "checkpoint_step v i n r c = (Inr a, c\<lparr>x_world := ?w b t t'\<rparr>)"
    using checkpoint_step_eq by blast
  moreover have "writes_only (evidence_place s) (x_world c) (?w b t t')"
    using writes_only_store [OF assms(2), of "(x_world c)\<lparr>w_tick := t\<rparr>" ?dir b] adds_place(1) [OF assms(1)]
    by (simp add: evidence_place_def)
  ultimately show ?thesis using adds_world [OF assms(1)] by blast
qed

lemma step_goes_on:
  assumes "registry_get reg n = Some h" and "hd_can_handle h (x_request c)"
    and run: "hd_handle h c = (Inr r, d)" and "adds ts s (decide (hd_type h) r d)" "adds ts' s' d" and "repo_apart s'"
    and "segment (checkpoint_name i n)" and pr: "next_pr_status r pr = Inr pr'"
  shows "\<exists>e. handler_step v reg i n pr c = (Inr (r, pr'), e) \<and> adds ts s e"
proof -
  have "handler_outcome h n c = (Inr r, d)"
    using assms(2) run apart_authority [OF assms(6,5)] by (simp add: handler_outcome_def comp_defs)
  moreover obtain a e where "checkpoint_step v i n r (decide (hd_type h) r d) = (Inr a, e)" "adds ts s e"
    using checkpoint_adds [OF assms(4,7)] by blast
  ultimately show ?thesis using assms(1) pr by (simp add: handler_step_def comp_defs)
qed

type_synonym stage = "ctx \<times> artifact_type list"

text \<open>From any context at the first stage the named handler goes on to one at the second.\<close>

definition leads :: "env \<Rightarrow> handler_registry \<Rightarrow> nat \<times> string \<Rightarrow> stage \<Rightarrow> stage \<Rightarrow> bool" where
  "leads v reg x a b \<longleftrightarrow> (\<forall>c pr. adds (snd a) (fst a) c \<longrightarrow>
     (\<exists>r d. handler_step v reg (fst x) (snd x) pr c = (Inr (r, pr), d) \<and> goes_on r
        \<and> h_handler_name r = snd x \<and> adds (snd b) (fst b) d))"

inductive brought :: "env \<Rightarrow> handler_registry \<Rightarrow> (nat \<times> string) list \<Rightarrow> stage \<Rightarrow> stage \<Rightarrow> bool" for v reg where
  arrived: "brought v reg [] a a"
| on_by: "leads v reg x a b \<Longrightarrow> brought v reg xs b c \<Longrightarrow> brought v reg (x # xs) a c"

lemma brought_append: "brought v reg xs a b \<Longrightarrow> brought v reg ys b c \<Longrightarrow> brought v reg (xs @ ys) a c"
  by (induction rule: brought.induct) (auto intro: on_by)

lemma leadsI:
  assumes reg: "registry_get reg n = Some h" "\<And>q. hd_can_handle h q"
    and "hd_type h \<noteq> HT_VERIFIER" and "repo_apart (fst b)" and "segment (checkpoint_name i n)"
    and body: "\<And>c. adds (snd a) (fst a) c \<Longrightarrow> \<exists>r d. hd_handle h c = (Inr r, d) \<and> goes_on r
          \<and> h_handler_name r = n \<and> dget (h_metadata r) ''pr_status'' = JNull \<and> adds (snd b) (fst b) d"
  shows "leads v reg (i, n) a b"
  unfolding leads_def
proof (intro allI impI)
  fix c pr
  assume "adds (snd a) (fst a) c"
  from body [OF this] obtain r d where r: "hd_handle h c = (Inr r, d)" "goes_on r" "h_handler_name r = n"
    "dget (h_metadata r) ''pr_status'' = JNull" "adds (snd b) (fst b) d" by blast
  have "decide (hd_type h) r d = d" using assms(3) by (simp add: decide_def can_decide_pass_iff split: option.split)
  then have "adds (snd b) (fst b) (decide (hd_type h) r d)" using r(5) by simp
  from step_goes_on [OF reg(1) _ r(1) this r(5) assms(4,5)] reg(2) r(2-4)
  show "\<exists>r d. handler_step v reg (fst (i, n)) (snd (i, n)) pr c = (Inr (r, pr), d) \<and> goes_on r
      \<and> h_handler_name r = snd (i, n) \<and> adds (snd b) (fst b) d"
    by (fastforce simp: next_pr_status_def)
qed

lemma brought_run:
  assumes "brought v reg xs a b" and "adds (snd a) (fst a) c"
  shows "\<exists>rs d. run_handlers v reg (xs @ ys) st c = run_handlers v reg ys (st\<lparr>lo_results := lo_results st @ rs\<rparr>) d
     \<and> map h_handler_name rs = map snd xs \<and> adds (snd b) (fst b) d"
  using assms
proof (induction arbitrary: st c rule: brought.induct)
  case (arrived a)
  then show ?case by (intro exI [of _ "[]"]) auto
next
  case (on_by x a b xs e)
  then obtain r d where step: "handler_step v reg (fst x) (snd x) (lo_pr_status st) c = (Inr (r, lo_pr_status st), d)"
    and r: "goes_on r" "h_handler_name r = snd x" and d: "adds (snd b) (fst b) d" unfolding leads_def by meson
  have "run_handlers v reg ((x # xs) @ ys) st c = run_handlers v reg (xs @ ys) (st\<lparr>lo_results := lo_results st @ [r]\<rparr>) d"
    using step r by (auto simp: comp_defs goes_on_def Let_def)
  moreover obtain rs f where "run_handlers v reg (xs @ ys) (st\<lparr>lo_results := lo_results st @ [r]\<rparr>) d
      = run_handlers v reg ys (st\<lparr>lo_results := lo_results st @ r # rs\<rparr>) f" "map h_handler_name rs = map snd xs" "adds (snd e) (fst e) f"
    using on_by.IH [OF d, of "st\<lparr>lo_results := lo_results st @ [r]\<rparr>"] by auto
  ultimately show ?case by (intro exI [of _ "r # rs"] exI [of _ f]) (simp add: r(2))
qed

section \<open>The handlers of the implementation chain\<close>

lemma segment_checkpoint: "plain_name n \<Longrightarrow> segment (checkpoint_name i n)"
  using zero_pad_plain [of 2 i] by (simp add: checkpoint_name_def segment_def plain_name_def)

lemma goes_on_result [simp]:
  "goes_on (ok_result i d as gs md) \<longleftrightarrow> d = HD_CONTINUE \<or> d = HD_SKIP_NOT_APPLICABLE"
  "h_handler_name (ok_result i d as gs md) = fst i" "h_metadata (ok_result i d as gs md) = md"
  "goes_on (skip_result i x)" "h_handler_name (skip_result i x) = fst i" "h_metadata (skip_result i x) = []"
  by (simp_all add: goes_on_def ok_result_def skip_result_def)

lemma from_gates_ok [simp]:
  "list_all reasoned gates \<Longrightarrow> list_all passed gates \<Longrightarrow> from_gates i gates b = ok_result i HD_CONTINUE [] gates []"
  using gate_reasons_Nil [of gates] by (simp add: from_gates_def)

text \<open>From any context at the first stage the body of a handler goes on to one at the second.\<close>

definition proceeds :: "handler \<Rightarrow> stage \<Rightarrow> stage \<Rightarrow> bool" where
  "proceeds h a b \<longleftrightarrow> (\<forall>c. adds (snd a) (fst a) c \<longrightarrow> (\<exists>r d. hd_handle h c = (Inr r, d) \<and> goes_on r
     \<and> h_handler_name r = hd_name h \<and> dget (h_metadata r) ''pr_status'' = JNull \<and> adds (snd b) (fst b) d))"

lemma proceedsI:
  assumes "\<And>c. adds ts s c \<Longrightarrow> \<exists>r d. hd_handle h c = (Inr r, d) \<and> goes_on r
     \<and> h_handler_name r = hd_name h \<and> dget (h_metadata r) ''pr_status'' = JNull \<and> adds ts' s' d"
  shows "proceeds h (s, ts) (s', ts')"
  using assms by (simp add: proceeds_def)

lemma proceeds_leads:
  assumes "proceeds h a b" and "h \<in> set (default_handlers v)" and "hd_type h \<noteq> HT_VERIFIER"
    and "repo_apart (fst b)" and "plain_name (hd_name h)" and "\<And>q. hd_can_handle h q"
  shows "leads v (build_default_registry v) (i, hd_name h) a b"
  using assms default_registered [OF assms(2)] segment_checkpoint
  by (intro leadsI) (auto simp: proceeds_def)

lemma manifest_proceeds:
  assumes "x_manifest s = None" and "canonical_violations (x_request s) = []"
  shows "proceeds manifest_validation_handler (s, ts) (s, ts)"
proof (rule proceedsI)
  fix c
  assume c: "adds ts s c"
  show "\<exists>r d. hd_handle manifest_validation_handler c = (Inr r, d) \<and> goes_on r
     \<and> h_handler_name r = hd_name manifest_validation_handler \<and> dget (h_metadata r) ''pr_status'' = JNull \<and> adds ts s d"
    using c assms adds_keeps [OF c] by (simp add: manifest_validation_handler_def comp_defs Let_def)
qed

lemma scrum_proceeds:
  assumes "x_scrum s = None" and "x_locked_dod s = None"
    and "passed (scrum_gate (envelope_scrum (q_scrum (x_request s))) None)"
  shows "proceeds scrum_mapping_handler (s, ts) (s\<lparr>x_scrum := Some (envelope_scrum (q_scrum (x_request s)))\<rparr>, ts)"
  by (rule proceedsI, frule adds_keeps(1), frule adds_keeps(6), frule adds_keeps(8))
     (use assms in \<open>simp add: scrum_mapping_handler_def comp_defs Let_def adds_update\<close>)

lemma dod_lock_proceeds:
  assumes "x_locked_dod s = None" and "se_definition_of_done_version (q_scrum (x_request s)) = ver" and "ver \<noteq> []"
  shows "proceeds (dod_lock_handler v) (s, ts) (s\<lparr>x_locked_dod := Some ver\<rparr>, ts @ [AT_SCRUM_MAPPING])"
proof (rule proceedsI)
  fix c
  assume c: "adds ts s c"
  show "\<exists>r d. hd_handle (dod_lock_handler v) c = (Inr r, d) \<and> goes_on r
     \<and> h_handler_name r = hd_name (dod_lock_handler v) \<and> dget (h_metadata r) ''pr_status'' = JNull
     \<and> adds (ts @ [AT_SCRUM_MAPPING]) (s\<lparr>x_locked_dod := Some ver\<rparr>) d"
    using assms adds_keeps [OF c]
    by (simp add: dod_lock_handler_def record_dod_lock_def comp_defs record_recorded)
       (intro adds_intros, rule c, simp_all add: evidence_name_defs)
qed

lemma scope_validation_proceeds:
  assumes "sc_files_in_scope (q_scope (x_request s)) \<noteq> []"
  shows "proceeds scope_validation_handler (s, ts) (s, ts)"
proof (rule proceedsI)
  fix c
  assume c: "adds ts s c"
  then show "\<exists>r d. hd_handle scope_validation_handler c = (Inr r, d) \<and> goes_on r
     \<and> h_handler_name r = hd_name scope_validation_handler \<and> dget (h_metadata r) ''pr_status'' = JNull
     \<and> adds ts s d"
    using assms adds_keeps [OF c]
    by (simp add: scope_validation_handler_def comp_defs)
qed

lemma strategic_proceeds:
  assumes "truthy (dget (q_metadata (x_request s)) ''strategic_design'')"
    and "v_strategic v (dget (q_metadata (x_request s)) ''strategic_design'') = Some review"
    and "passed (strategic_programming_gate review)"
  shows "proceeds (strategic_design_handler v) (s, ts) (s\<lparr>x_strategic := Some review\<rparr>, ts)"
proof (rule proceedsI)
  fix c
  assume c: "adds ts s c"
  show "\<exists>r d. hd_handle (strategic_design_handler v) c = (Inr r, d) \<and> goes_on r
     \<and> h_handler_name r = hd_name (strategic_design_handler v) \<and> dget (h_metadata r) ''pr_status'' = JNull
     \<and> adds ts (s\<lparr>x_strategic := Some review\<rparr>) d"
    using assms adds_keeps [OF c] adds_update(3) [OF c]
    by (simp add: strategic_design_handler_def meta_get_def comp_defs)
qed

lemma agent_proceeds:
  assumes cand: "dget (q_metadata (x_request s)) ''manual_candidate'' = JObj d" and "d \<noteq> []"
    and "dget d ''agent_run_id'' = rid" and "truthy rid"
  shows "proceeds (agent_invocation_handler v) (s, ts)
    (s\<lparr>x_shared := (x_shared s)\<lparr>sh_candidate := Some (JObj d)\<rparr>, x_coding_agent_run_id := rid\<rparr>, ts)"
proof (rule proceedsI)
  fix c
  assume c: "adds ts s c"
  show "\<exists>r e. hd_handle (agent_invocation_handler v) c = (Inr r, e) \<and> goes_on r
     \<and> h_handler_name r = hd_name (agent_invocation_handler v) \<and> dget (h_metadata r) ''pr_status'' = JNull
     \<and> adds ts (s\<lparr>x_shared := (x_shared s)\<lparr>sh_candidate := Some (JObj d)\<rparr>, x_coding_agent_run_id := rid\<rparr>) e"
    using assms adds_keeps [OF c]
    by (simp add: agent_invocation_handler_def meta_get_def comp_defs record_recorded jget_def set_coding_agent_run_id_def flip: dget_def)
       (intro adds_intros c; simp add: segment_def)
qed

lemma no_leaked_output: "list_all entry_ok es \<Longrightarrow> leaked_output es = None"
  by (auto simp: leaked_output_def find_None_iff entry_ok_def list_all_iff)

lemma quarantine_proceeds:
  "proceeds output_quarantine_handler (s, ts) (s\<lparr>x_summary_quarantined := True\<rparr>, ts)"
proof (rule proceedsI)
  fix c
  assume c: "adds ts s c"
  then have "list_all entry_ok (x_entries c)" by (simp add: adds_def ctx_ok_def)
  then show "\<exists>r d. hd_handle output_quarantine_handler c = (Inr r, d) \<and> goes_on r
     \<and> h_handler_name r = hd_name output_quarantine_handler \<and> dget (h_metadata r) ''pr_status'' = JNull
     \<and> adds ts (s\<lparr>x_summary_quarantined := True\<rparr>) d"
    using no_leaked_output adds_update(6) [OF c]
    by (simp add: output_quarantine_handler_def comp_defs)
qed

lemma diff_proceeds:
  assumes cand: "sh_candidate (x_shared s) = Some (JObj d)" and "truthy (dget d ''diff'')"
    and "dget_or d ''changed_files'' (JArr []) = JArr files"
  shows "proceeds (diff_capture_handler v) (s, ts)
    (s\<lparr>x_changed_files := files\<rparr>, ts @ [AT_DIFF, AT_COMMAND_OUTPUT, AT_COMMAND_OUTPUT])"
proof (rule proceedsI)
  fix c
  assume c: "adds ts s c"
  have "d \<noteq> []" using assms(2) by auto
  then show "\<exists>r e. hd_handle (diff_capture_handler v) c = (Inr r, e) \<and> goes_on r
     \<and> h_handler_name r = hd_name (diff_capture_handler v) \<and> dget (h_metadata r) ''pr_status'' = JNull
     \<and> adds (ts @ [AT_DIFF, AT_COMMAND_OUTPUT, AT_COMMAND_OUTPUT]) (s\<lparr>x_changed_files := files\<rparr>) e"
    using assms adds_keeps [OF c]
    by (simp add: diff_capture_handler_def candidate_diff_def record_diff_def comp_defs record_recorded jget_def flip: dget_def)
       (intro adds_intros, rule c, simp_all add: evidence_name_defs)
qed

lemma outcomes_recorded:
  assumes "res_map (test_outcome_of v cmd path) logs = Inr outs"
  shows "\<exists>us. mapC (\<lambda>log. bindC (liftC (test_outcome_of v cmd path log)) (\<lambda>outcome.
      modC (\<lambda>c. c\<lparr>x_test_outcomes := x_test_outcomes c @ [outcome]\<rparr>))) logs c
    = (Inr us, c\<lparr>x_test_outcomes := x_test_outcomes c @ outs\<rparr>)"
  using assms
proof (induction logs arbitrary: c outs)
  case (Cons log logs)
  then obtain x xs where x: "test_outcome_of v cmd path log = Inr x" "res_map (test_outcome_of v cmd path) logs = Inr xs"
    and outs: "outs = x # xs" by (auto split: sum.splits)
  from Cons.IH [OF x(2), of "c\<lparr>x_test_outcomes := x_test_outcomes c @ [x]\<rparr>"] x(1)
  show ?case by (auto simp: comp_defs outs)
qed simp

text \<open>A log the handler takes for a passed test.\<close>

definition passing_log :: "env \<Rightarrow> json \<Rightarrow> bool" where
  "passing_log v log \<longleftrightarrow> (\<exists>d cmd. log = JObj d \<and> dget_or d ''command'' (JStr ''python -m pytest'') = JStr cmd
     \<and> v_exit_code v (dget_or d ''exit_code'' (JInt 0)) = Some (Some 0))"

lemma passing_log_outcome:
  "passing_log v log \<Longrightarrow> path \<noteq> [] \<Longrightarrow>
   \<exists>t. test_outcome_of v (JStr ''python -m pytest'') path log = Inr t \<and> outcome_ok t \<and> t_ran t"
  by (auto simp: passing_log_def test_outcome_of_def outcome_ok_def)

lemma passing_logs:
  assumes "list_all (passing_log v) logs" and "path \<noteq> []"
  shows "\<exists>outs. res_map (test_outcome_of v (JStr ''python -m pytest'') path) logs = Inr outs
    \<and> list_all (\<lambda>t. outcome_ok t \<and> t_ran t) outs \<and> length outs = length logs"
  using assms by (induction logs) (auto dest!: passing_log_outcome)

lemma exit_codes_of_logs: "list_all (passing_log v) logs \<Longrightarrow> \<exists>b. all_exit_zero logs = Inr b"
  by (induction logs) (auto simp: passing_log_def jget_def)

definition test_log_path :: "ctx \<Rightarrow> string" where
  "test_log_path s = str_path (pjoin (run_dir (x_store s) (x_run_id s)) ''test_output.log'')"

lemma test_runner_proceeds:
  assumes meta: "\<not> truthy (dget (q_metadata (x_request s)) ''tests_not_applicable'')"
    "dget (q_metadata (x_request s)) ''test_outcomes'' = JArr logs" "logs \<noteq> []"
    and logs: "list_all (passing_log v) logs"
    and outs: "res_map (test_outcome_of v (JStr ''python -m pytest'') (test_log_path s)) logs = Inr outs"
    and none: "x_test_outcomes s = []"
  shows "proceeds (test_runner_handler v) (s, ts) (s\<lparr>x_test_outcomes := outs\<rparr>, ts @ [AT_TEST])"
proof (rule proceedsI)
  fix c
  assume c: "adds ts s c"
  note keeps = adds_keeps [OF c]
  obtain b where b: "all_exit_zero logs = Inr b" using exit_codes_of_logs [OF logs] by blast
  let ?d = "recorded v ''test_output.log'' (json_dumps2 (JArr logs)) AT_TEST (if b then LR_PASS else LR_FAIL)
    ''python -m pytest'' ''TestRunnerHandler'' c"
  obtain us where us: "mapC (\<lambda>log. bindC (liftC (test_outcome_of v (JStr ''python -m pytest'') (test_log_path s) log))
      (\<lambda>outcome. modC (\<lambda>c. c\<lparr>x_test_outcomes := x_test_outcomes c @ [outcome]\<rparr>))) logs ?d
    = (Inr us, ?d\<lparr>x_test_outcomes := x_test_outcomes ?d @ outs\<rparr>)"
    using outcomes_recorded [OF outs] by blast
  have path: "a_path (artifact_of v ''test_output.log'' (json_dumps2 (JArr logs)) (artifact_type_value AT_TEST)
      ''TestRunnerHandler'' c) = test_log_path s"
    using keeps by (simp add: artifact_of_def test_log_path_def)
  have "\<exists>r. hd_handle (test_runner_handler v) c = (Inr r, ?d\<lparr>x_test_outcomes := outs\<rparr>) \<and> goes_on r
      \<and> h_handler_name r = hd_name (test_runner_handler v) \<and> dget (h_metadata r) ''pr_status'' = JNull"
    using meta keeps none b us path
    by (simp add: test_runner_handler_def record_tests_def record_recorded bindC_def getC_def liftC_def ret_def)
  moreover have "adds (ts @ [AT_TEST]) (s\<lparr>x_test_outcomes := outs\<rparr>) (?d\<lparr>x_test_outcomes := outs\<rparr>)"
    by (intro adds_intros, rule c, simp_all add: evidence_name_defs)
  ultimately show "\<exists>r d. hd_handle (test_runner_handler v) c = (Inr r, d) \<and> goes_on r
      \<and> h_handler_name r = hd_name (test_runner_handler v) \<and> dget (h_metadata r) ''pr_status'' = JNull
      \<and> adds (ts @ [AT_TEST]) (s\<lparr>x_test_outcomes := outs\<rparr>) d" by blast
qed

lemma static_check_proceeds: "proceeds static_check_handler (s, ts) (s, ts)"
  by (rule proceedsI) (simp add: static_check_handler_def)

lemma scope_diff_proceeds:
  assumes "x_changed_files s = map JStr files" and "list_all (file_admitted (request_scope (x_request s))) files"
  shows "proceeds scope_diff_handler (s, ts) (s, ts)"
proof (rule proceedsI)
  fix c
  assume c: "adds ts s c"
  then show "\<exists>r d. hd_handle scope_diff_handler c = (Inr r, d) \<and> goes_on r
     \<and> h_handler_name r = hd_name scope_diff_handler \<and> dget (h_metadata r) ''pr_status'' = JNull \<and> adds ts s d"
    using assms adds_keeps [OF c]
    by (simp add: scope_diff_handler_def run_scope_gate_def comp_defs scope_gate_passed)
qed

lemma evidence_present:
  assumes "adds ts s c" and "x_run_id s \<noteq> []" and "x_task_id s \<noteq> []" and "set required \<subseteq> set (map artifact_type_value ts)"
  shows "passed (run_evidence_gate c required)"
proof -
  have "ctx_ok c" "map e_artifact_type (x_entries c) = map e_artifact_type (x_entries s) @ ts"
    using assms(1) by (simp_all add: adds_def)
  moreover from this(2) have "set (map (artifact_type_value \<circ> e_artifact_type) (x_entries c)) =
      set (map (artifact_type_value \<circ> e_artifact_type) (x_entries s)) \<union> set (map artifact_type_value ts)"
    by (metis list.map_comp map_append set_append)
  ultimately show ?thesis using assms adds_keeps [OF assms(1)] by (auto simp: run_evidence_passed)
qed

lemma evidence_gate_proceeds:
  assumes "x_run_id s \<noteq> []" and "x_task_id s \<noteq> []"
    and "set (required_evidence (x_request s)) \<subseteq> set (map artifact_type_value ts)"
  shows "proceeds evidence_gate_handler (s, ts) (s, ts)"
proof (rule proceedsI)
  fix c
  assume c: "adds ts s c"
  have "list_all reasoned [run_evidence_gate c (required_evidence (x_request s))]"
    by (simp add: run_evidence_gate_def)
  then show "\<exists>r d. hd_handle evidence_gate_handler c = (Inr r, d) \<and> goes_on r
     \<and> h_handler_name r = hd_name evidence_gate_handler \<and> dget (h_metadata r) ''pr_status'' = JNull \<and> adds ts s d"
    using c assms adds_keeps [OF c] evidence_present [OF c assms]
    by (simp add: evidence_gate_handler_def comp_defs)
qed

lemma evaluator_proceeds: "proceeds (evaluator_handler v) (s, ts) (s, ts @ [AT_ANALYSIS_REPORT])"
proof (rule proceedsI)
  fix c
  assume c: "adds ts s c"
  show "\<exists>r d. hd_handle (evaluator_handler v) c = (Inr r, d) \<and> goes_on r
     \<and> h_handler_name r = hd_name (evaluator_handler v) \<and> dget (h_metadata r) ''pr_status'' = JNull
     \<and> adds (ts @ [AT_ANALYSIS_REPORT]) s d"
    by (simp add: evaluator_handler_def comp_defs record_recorded Let_def)
       (intro adds_intros, rule c, simp_all add: evidence_name_defs)
qed

lemma memory_proceeds: "proceeds (memory_update_handler v) (s, ts) (s, ts @ [AT_ANALYSIS_REPORT])"
proof (rule proceedsI)
  fix c
  assume c: "adds ts s c"
  have "adds (ts @ [AT_ANALYSIS_REPORT]) s (recorded v n data AT_ANALYSIS_REPORT LR_INFO [] by c)"
    if "evidence_name n" for n data "by"
    using c that by (simp add: adds_recorded)
  then show "\<exists>r d. hd_handle (memory_update_handler v) c = (Inr r, d) \<and> goes_on r
     \<and> h_handler_name r = hd_name (memory_update_handler v) \<and> dget (h_metadata r) ''pr_status'' = JNull
     \<and> adds (ts @ [AT_ANALYSIS_REPORT]) s d"
    by (simp add: memory_update_handler_def comp_defs record_recorded evidence_name_defs)
qed

lemma adds_view: "adds ts s c \<Longrightarrow> x_verifier_run_id s = [] \<Longrightarrow>
   adds ts (s\<lparr>x_verifier_run_id := p\<rparr>) (verifier_view p c)"
  using adds_update(9) [of ts s c p] adds_keeps(12) [of ts s c] by (simp add: verifier_view_def)

text \<open>The context in which the implementation verifier has all it asks for, but for the evidence.\<close>

definition certifiable :: "ctx \<Rightarrow> bool" where
  "certifiable s \<longleftrightarrow> x_verifier_run_id s = [] \<and> x_coding_agent_run_id s \<noteq> JStr ''impl-verifier'' \<and> x_summary_quarantined s
     \<and> list_all (\<lambda>t. outcome_ok t \<and> t_ran t) (x_test_outcomes s) \<and> x_test_outcomes s \<noteq> []
     \<and> x_run_id s \<noteq> [] \<and> x_task_id s \<noteq> []
     \<and> (\<exists>r. x_strategic s = Some r \<and> passed (strategic_programming_gate r))
     \<and> (\<exists>files. x_changed_files s = map JStr files \<and> list_all (file_admitted (request_scope (x_request s))) files)"

lemma certifiable_certified:
  assumes "certifiable s" and "adds ts s c" and "set (implementation_evidence (x_request s)) \<subseteq> set (map artifact_type_value ts)"
  shows "implementation_certified (verifier_view ''impl-verifier'' c)"
proof -
  note keeps = adds_keeps [OF assms(2)]
  have "passed (run_evidence_gate c (implementation_evidence (x_request s)))"
    using assms evidence_present by (simp add: certifiable_def)
  moreover have "list_ex t_ran (x_test_outcomes s)"
    using assms(1) by (cases "x_test_outcomes s") (auto simp: certifiable_def)
  moreover have "list_all outcome_ok (x_test_outcomes s)"
    using assms(1) by (auto simp: certifiable_def list_all_iff)
  ultimately show ?thesis using assms(1) keeps
    by (simp add: implementation_certified_def certifiable_def)
qed

lemma verifier_leads:
  assumes cert: "certifiable s" and ev: "set (implementation_evidence (x_request s)) \<subseteq> set (map artifact_type_value ts)"
    and apart: "repo_apart s"
  shows "leads v (build_default_registry v) (i, ''ImplementationVerifierHandler'') (s, ts)
    (s\<lparr>x_verifier_run_id := ''impl-verifier'', x_verifier_decision := D_PASS\<rparr>, ts @ [AT_VERIFIER_REPORT])"
  unfolding leads_def
proof (intro allI impI)
  fix c pr
  let ?s = "s\<lparr>x_verifier_run_id := ''impl-verifier''\<rparr>"
  assume "adds (snd (s, ts)) (fst (s, ts)) c"
  then have c: "adds ts s c" by simp
  note keeps = adds_keeps [OF c]
  have certified: "implementation_certified (verifier_view ''impl-verifier'' c)"
    using certifiable_certified [OF cert c ev] .
  obtain files where "x_changed_files c = map JStr files"
    using cert keeps by (auto simp: certifiable_def)
  then obtain gates where gates: "implementation_verifier_gates (verifier_view ''impl-verifier'' c) = Inr gates"
    by (simp add: implementation_verifier_gates_def run_scope_gate_def)
  have "x_verifier_run_id (verifier_view ''impl-verifier'' c) \<noteq> []" by simp
  with gates certified
  have pass: "h_status (from_gates implementation_verifier_id gates False) = HS_PASS"
    using implementation_verifier_pass by blast
  let ?r = "from_gates implementation_verifier_id gates False"
  let ?w = "(x_world c)\<lparr>w_tick := Suc (w_tick (x_world c))\<rparr>"
  obtain data where run: "hd_handle (implementation_verifier_handler v) c = (Inr ?r,
      recorded v ''verifier_report.json'' data AT_VERIFIER_REPORT (report_result ?r) []
        ''ImplementationVerifierHandler'' ((verifier_view ''impl-verifier'' c)\<lparr>x_world := ?w\<rparr>))"
    using implementation_verifier_runs [OF gates] unfolding recorded_def by blast
  let ?d = "recorded v ''verifier_report.json'' data AT_VERIFIER_REPORT (report_result ?r) []
        ''ImplementationVerifierHandler'' ((verifier_view ''impl-verifier'' c)\<lparr>x_world := ?w\<rparr>)"
  have "adds ts ?s (verifier_view ''impl-verifier'' c)"
    using adds_view [OF c] cert by (simp add: certifiable_def)
  then have "adds ts ?s ((verifier_view ''impl-verifier'' c)\<lparr>x_world := ?w\<rparr>)"
    by (rule adds_world) (simp add: verifier_view_def writing.R_refl)
  then have d: "adds (ts @ [AT_VERIFIER_REPORT]) ?s ?d"
    by (rule adds_recorded) (simp_all add: evidence_name_defs)
  have "decide HT_VERIFIER ?r ?d = ?d\<lparr>x_verifier_decision := D_PASS\<rparr>"
    using pass by (simp add: decide_def status_decision_def can_decide_pass_iff)
  then have dec: "adds (ts @ [AT_VERIFIER_REPORT]) (?s\<lparr>x_verifier_decision := D_PASS\<rparr>)
      (decide (hd_type (implementation_verifier_handler v)) ?r ?d)"
    using adds_update(10) [OF d] by (simp add: implementation_verifier_handler_def)
  have "segment (checkpoint_name i ''ImplementationVerifierHandler'')"
    by (rule segment_checkpoint) (simp add: plain_name_def)
  from step_goes_on [OF implementation_registered _ run dec d _ this, of pr pr] apart
  obtain e where "handler_step v (build_default_registry v) i ''ImplementationVerifierHandler'' pr c = (Inr (?r, pr), e)"
      "adds (ts @ [AT_VERIFIER_REPORT]) (?s\<lparr>x_verifier_decision := D_PASS\<rparr>) e"
    using from_gates_PASS [OF pass] by (auto simp: implementation_verifier_handler_def next_pr_status_def)
  moreover have "h_handler_name ?r = ''ImplementationVerifierHandler''" "goes_on ?r"
    using from_gates_PASS [OF pass] by (auto simp: from_gates_def goes_on_def ok_result_def fail_result_def)
  ultimately show "\<exists>r d. handler_step v (build_default_registry v) (fst (i, ''ImplementationVerifierHandler''))
      (snd (i, ''ImplementationVerifierHandler'')) pr c = (Inr (r, pr), d) \<and> goes_on r
      \<and> h_handler_name r = snd (i, ''ImplementationVerifierHandler'')
      \<and> adds (snd (s\<lparr>x_verifier_run_id := ''impl-verifier'', x_verifier_decision := D_PASS\<rparr>, ts @ [AT_VERIFIER_REPORT]))
          (fst (s\<lparr>x_verifier_run_id := ''impl-verifier'', x_verifier_decision := D_PASS\<rparr>, ts @ [AT_VERIFIER_REPORT])) d"
    by auto
qed

lemma pr_gate_step:
  assumes c: "adds ts s c" and "x_verifier_decision s = D_PASS" and "repo_apart s"
  shows "\<exists>r e. handler_step v (build_default_registry v) i ''PRGateHandler'' pr c = (Inr (r, PR_GATED), e)
    \<and> goes_on r \<and> h_handler_name r = ''PRGateHandler'' \<and> adds (ts @ [AT_PR, AT_PR]) s e"
proof -
  let ?h = "pr_gate_handler v"
  obtain r d where run: "hd_handle ?h c = (Inr r, d)" and r: "goes_on r" "h_handler_name r = ''PRGateHandler''"
    "h_metadata r = pr_metadata PR_GATED" and d: "adds (ts @ [AT_PR, AT_PR]) s d"
  proof -
    have "\<exists>r d. hd_handle ?h c = (Inr r, d) \<and> goes_on r \<and> h_handler_name r = ''PRGateHandler''
        \<and> h_metadata r = pr_metadata PR_GATED \<and> adds (ts @ [AT_PR, AT_PR]) s d"
      using assms(2) adds_keeps [OF c]
      by (simp add: pr_gate_handler_def comp_defs record_recorded Let_def)
         (intro adds_intros, rule c, simp_all add: evidence_name_defs)
    then show thesis using that by blast
  qed
  have "hd_type ?h = HT_PR_ACTION" by (simp add: pr_gate_handler_def)
  then have "decide (hd_type ?h) r d = d" by (simp add: decide_def can_decide_pass_iff split: option.split)
  then have dec: "adds (ts @ [AT_PR, AT_PR]) s (decide (hd_type ?h) r d)" using d by simp
  have seg: "segment (checkpoint_name i ''PRGateHandler'')" by (rule segment_checkpoint) (simp add: plain_name_def)
  have "hd_can_handle ?h (x_request c)" by (simp add: pr_gate_handler_def)
  from step_goes_on [OF pr_gate_registered this run dec d assms(3) seg, of pr PR_GATED v]
  obtain e where "handler_step v (build_default_registry v) i ''PRGateHandler'' pr c = (Inr (r, PR_GATED), e)"
    "adds (ts @ [AT_PR, AT_PR]) s e"
    using r(3) by (auto simp: next_pr_status_def)
  then show ?thesis using r by blast
qed

lemma stop_step:
  assumes c: "adds ts s c" and "repo_apart s"
  shows "\<exists>r e. handler_step v (build_default_registry v) i ''StopOrLoopHandler'' pr c = (Inr (r, pr), e)
    \<and> h_decision r = HD_STOP \<and> h_handler_name r = ''StopOrLoopHandler'' \<and> x_verifier_decision e = x_verifier_decision s"
proof -
  let ?d = "c\<lparr>x_evidence := ledger_finalize (if x_verifier_decision c \<noteq> D_PENDING then x_verifier_decision c else D_BLOCKED) (x_evidence c)\<rparr>"
  let ?r = "ok_result stop_or_loop_id HD_STOP [] [] []"
  have "hd_handle stop_or_loop_handler c = (Inr ?r, ?d)" by (simp add: stop_or_loop_handler_def comp_defs)
  moreover have "enforce_no_repo_mutation t ?d x = x" for t x
    using apart_authority [OF assms(2) c, of t x]
    unfolding enforce_no_repo_mutation_def repo_unchanged_def by (auto split: if_splits)
  ultimately have out: "handler_outcome stop_or_loop_handler ''StopOrLoopHandler'' c = (Inr ?r, ?d)"
    by (simp add: handler_outcome_def comp_defs stop_or_loop_handler_def)
  have reg: "registry_get (build_default_registry v) ''StopOrLoopHandler'' = Some stop_or_loop_handler"
    using default_registered [of stop_or_loop_handler v]
    by (simp add: default_handlers_def control_handlers_def stop_or_loop_handler_def)
  have "hd_type stop_or_loop_handler \<noteq> HT_VERIFIER" "h_metadata ?r = []"
    by (simp_all add: stop_or_loop_handler_def)
  from undeciding_step [OF reg this(1) out this(2)]
  obtain w where "handler_step v (build_default_registry v) i ''StopOrLoopHandler'' pr c = (Inr (?r, pr), ?d\<lparr>x_world := w\<rparr>)"
    by blast
  then show ?thesis using adds_keeps(13) [OF c] by (auto simp: ok_result_def)
qed

section \<open>The whole chain\<close>

text \<open>
  What a request must carry: the canonical envelope, a complete Scrum mapping, a scope, a design
  review that passes, a candidate with a diff by an agent that is not the verifier, whose changed files are all
  admitted, and logs of tests that exited with zero.
\<close>

definition complete_request :: "env \<Rightarrow> chain_request \<Rightarrow> bool" where
  "complete_request v q \<longleftrightarrow> q_task_type q = TT_IMPLEMENTATION \<and> q_mode q = RT_IMPLEMENTATION
   \<and> canonical_violations q = [] \<and> q_run_id q \<noteq> [] \<and> q_task_id q \<noteq> []
   \<and> passed (scrum_gate (envelope_scrum (q_scrum q)) None) \<and> sc_files_in_scope (q_scope q) \<noteq> []
   \<and> truthy (dget (q_metadata q) ''strategic_design'')
   \<and> (\<exists>review. v_strategic v (dget (q_metadata q) ''strategic_design'') = Some review
        \<and> passed (strategic_programming_gate review))
   \<and> (\<exists>d files. dget (q_metadata q) ''manual_candidate'' = JObj d \<and> truthy (dget d ''diff'')
        \<and> truthy (dget d ''agent_run_id'') \<and> dget d ''agent_run_id'' \<noteq> JStr ''impl-verifier''
        \<and> dget_or d ''changed_files'' (JArr []) = JArr (map JStr files)
        \<and> list_all (file_admitted (request_scope q)) files)
   \<and> \<not> truthy (dget (q_metadata q) ''tests_not_applicable'')
   \<and> (\<exists>logs. dget (q_metadata q) ''test_outcomes'' = JArr logs \<and> logs \<noteq> [] \<and> list_all (passing_log v) logs)"

lemma start_repo_apart:
  assumes "apart (locate w (run_dir (sv_store sv) (q_run_id q))) (locate w (sv_repo sv))"
  shows "repo_apart (start_context q sv w)"
  using assms start_unchanged [of q sv w]
  by (simp add: repo_apart_def evidence_place_def x_run_id_def) (simp add: start_context_def)

lemma in_default:
  "manifest_validation_handler \<in> set (default_handlers v)" "scrum_mapping_handler \<in> set (default_handlers v)"
  "dod_lock_handler v \<in> set (default_handlers v)" "scope_validation_handler \<in> set (default_handlers v)"
  "strategic_design_handler v \<in> set (default_handlers v)" "agent_invocation_handler v \<in> set (default_handlers v)"
  "output_quarantine_handler \<in> set (default_handlers v)" "diff_capture_handler v \<in> set (default_handlers v)"
  "test_runner_handler v \<in> set (default_handlers v)" "static_check_handler \<in> set (default_handlers v)"
  "scope_diff_handler \<in> set (default_handlers v)" "evidence_gate_handler \<in> set (default_handlers v)"
  "evaluator_handler v \<in> set (default_handlers v)" "memory_update_handler v \<in> set (default_handlers v)"
  by (simp_all add: default_handlers_def handler_lists)

lemma leads_of:
  assumes "proceeds h (s, ts) (s', ts')" and "h \<in> set (default_handlers v)" and "h = handler_class (n, t) body"
    and "t \<noteq> HT_VERIFIER" and "repo_apart s'" and "plain_name n"
  shows "leads v (build_default_registry v) (i, n) (s, ts) (s', ts')"
  using proceeds_leads [OF assms(1,2)] assms(3-6) by auto

lemma chain_front:
  assumes ok: "complete_request v q" and sv: "sv_manifest sv = None" "sv_scrum sv = None"
    and apart: "repo_apart (start_context q sv w)"
  obtains s where "brought v (build_default_registry v)
      [(0, ''ManifestValidationHandler''), (1, ''ScrumMappingHandler''), (2, ''DefinitionOfDoneLockHandler''),
       (3, ''ScopeValidationHandler''), (4, ''StrategicDesignGateHandler'')]
      (start_context q sv w, []) (s, [AT_SCRUM_MAPPING])"
    and "\<exists>r. x_strategic s = Some r \<and> passed (strategic_programming_gate r)" and "x_request s = q"
    and "x_test_outcomes s = []" and "x_verifier_run_id s = []" and "repo_apart s"
proof -
  let ?s = "start_context q sv w"
  let ?s1 = "?s\<lparr>x_scrum := Some (envelope_scrum (q_scrum q))\<rparr>"
  let ?s2 = "?s1\<lparr>x_locked_dod := Some (se_definition_of_done_version (q_scrum q))\<rparr>"
  obtain review where review: "truthy (dget (q_metadata q) ''strategic_design'')"
    "v_strategic v (dget (q_metadata q) ''strategic_design'') = Some review" "passed (strategic_programming_gate review)"
    using ok by (auto simp: complete_request_def)
  let ?s3 = "?s2\<lparr>x_strategic := Some review\<rparr>"
  have start: "x_request ?s = q" "x_manifest ?s = None" "x_scrum ?s = None" "x_locked_dod ?s = None"
    "x_test_outcomes ?s = []" "x_verifier_run_id ?s = []"
    using sv by (simp_all add: start_context_def)
  have scrum: "passed (scrum_gate (envelope_scrum (q_scrum q)) None)" and "canonical_violations q = []"
    and scope: "sc_files_in_scope (q_scope q) \<noteq> []" using ok by (simp_all add: complete_request_def)
  have ver: "se_definition_of_done_version (q_scrum q) \<noteq> []"
    using scrum by (simp add: scrum_gate_passed envelope_scrum_def)
  note plain = plain_name_def in_default
  have p: "proceeds manifest_validation_handler (?s, []) (?s, [])"
    "proceeds scrum_mapping_handler (?s, []) (?s1, [])"
    "proceeds (dod_lock_handler v) (?s1, []) (?s2, [AT_SCRUM_MAPPING])"
    "proceeds scope_validation_handler (?s2, [AT_SCRUM_MAPPING]) (?s2, [AT_SCRUM_MAPPING])"
    "proceeds (strategic_design_handler v) (?s2, [AT_SCRUM_MAPPING]) (?s3, [AT_SCRUM_MAPPING])"
    using manifest_proceeds [of ?s "[]"] scrum_proceeds [of ?s "[]"] dod_lock_proceeds [of ?s1 _ v "[]"]
      scope_validation_proceeds [of ?s2 "[AT_SCRUM_MAPPING]"] strategic_proceeds [of ?s2 v review "[AT_SCRUM_MAPPING]"]
      start scrum \<open>canonical_violations q = []\<close> ver scope review by simp_all
  have "leads v (build_default_registry v) (0, ''ManifestValidationHandler'') (?s, []) (?s, [])"
    by (rule leads_of [OF p(1) _ manifest_validation_handler_def]) (simp_all add: plain apart)
  moreover have "leads v (build_default_registry v) (1, ''ScrumMappingHandler'') (?s, []) (?s1, [])"
    by (rule leads_of [OF p(2) _ scrum_mapping_handler_def]) (simp_all add: plain apart)
  moreover have "leads v (build_default_registry v) (2, ''DefinitionOfDoneLockHandler'') (?s1, []) (?s2, [AT_SCRUM_MAPPING])"
    by (rule leads_of [OF p(3) _ dod_lock_handler_def]) (simp_all add: plain apart)
  moreover have "leads v (build_default_registry v) (3, ''ScopeValidationHandler'') (?s2, [AT_SCRUM_MAPPING]) (?s2, [AT_SCRUM_MAPPING])"
    by (rule leads_of [OF p(4) _ scope_validation_handler_def]) (simp_all add: plain apart)
  moreover have "leads v (build_default_registry v) (4, ''StrategicDesignGateHandler'') (?s2, [AT_SCRUM_MAPPING]) (?s3, [AT_SCRUM_MAPPING])"
    by (rule leads_of [OF p(5) _ strategic_design_handler_def]) (simp_all add: plain apart)
  ultimately have "brought v (build_default_registry v)
      [(0, ''ManifestValidationHandler''), (1, ''ScrumMappingHandler''), (2, ''DefinitionOfDoneLockHandler''),
       (3, ''ScopeValidationHandler''), (4, ''StrategicDesignGateHandler'')] (?s, []) (?s3, [AT_SCRUM_MAPPING])"
    by (meson brought.intros)
  then show thesis using that [of ?s3] review start apart by simp
qed

lemma chain_middle:
  assumes ok: "complete_request v q" and strategic: "\<exists>r. x_strategic s = Some r \<and> passed (strategic_programming_gate r)"
    and s: "x_request s = q" "x_test_outcomes s = []" "x_verifier_run_id s = []" and apart: "repo_apart s"
  obtains s' ts where "brought v (build_default_registry v)
      [(5, ''AgentInvocationHandler''), (6, ''AgentOutputQuarantineHandler''), (7, ''DiffCaptureHandler''),
       (8, ''TestRunnerHandler''), (9, ''StaticCheckHandler''), (10, ''ScopeDiffHandler''), (11, ''EvidenceGateHandler'')]
      (s, [AT_SCRUM_MAPPING]) (s', ts)"
    and "certifiable s'" and "x_request s' = q" and "{AT_DIFF, AT_TEST} \<subseteq> set ts" and "repo_apart s'"
proof -
  obtain d files where cand: "dget (q_metadata q) ''manual_candidate'' = JObj d" "truthy (dget d ''diff'')"
    "truthy (dget d ''agent_run_id'')" "dget d ''agent_run_id'' \<noteq> JStr ''impl-verifier''"
    "dget_or d ''changed_files'' (JArr []) = JArr (map JStr files)" "list_all (file_admitted (request_scope q)) files"
    using ok by (auto simp: complete_request_def)
  obtain logs where logs: "dget (q_metadata q) ''test_outcomes'' = JArr logs" "logs \<noteq> []" "list_all (passing_log v) logs"
    using ok by (auto simp: complete_request_def)
  have ids: "q_run_id q \<noteq> []" "q_task_id q \<noteq> []" "q_mode q = RT_IMPLEMENTATION"
    and applicable: "\<not> truthy (dget (q_metadata q) ''tests_not_applicable'')"
    using ok by (auto simp: complete_request_def)
  have "d \<noteq> []" using cand(2) by auto
  let ?s1 = "s\<lparr>x_shared := (x_shared s)\<lparr>sh_candidate := Some (JObj d)\<rparr>, x_coding_agent_run_id := dget d ''agent_run_id''\<rparr>"
  let ?s2 = "?s1\<lparr>x_summary_quarantined := True\<rparr>"
  let ?s3 = "?s2\<lparr>x_changed_files := map JStr files\<rparr>"
  have "test_log_path ?s3 \<noteq> []"
    by (simp add: test_log_path_def str_path_not_Nil segment_def)
  from passing_logs [OF logs(3) this] obtain outs where
    outs: "res_map (test_outcome_of v (JStr ''python -m pytest'') (test_log_path ?s3)) logs = Inr outs"
      "list_all (\<lambda>t. outcome_ok t \<and> t_ran t) outs" "length outs = length logs" by blast
  let ?s4 = "?s3\<lparr>x_test_outcomes := outs\<rparr>"
  let ?t = "[AT_SCRUM_MAPPING]" and ?u = "[AT_SCRUM_MAPPING, AT_DIFF, AT_COMMAND_OUTPUT, AT_COMMAND_OUTPUT]"
  let ?w = "?u @ [AT_TEST]"
  have "set (required_evidence q) \<subseteq> {''DIFF'', ''TEST''}" using ids(3) by (simp add: required_evidence_def)
  then have evidence: "set (required_evidence q) \<subseteq> set (map artifact_type_value ?w)" by auto
  have p: "proceeds (agent_invocation_handler v) (s, ?t) (?s1, ?t)"
    "proceeds output_quarantine_handler (?s1, ?t) (?s2, ?t)"
    "proceeds (diff_capture_handler v) (?s2, ?t) (?s3, ?u)"
    "proceeds (test_runner_handler v) (?s3, ?u) (?s4, ?w)"
    "proceeds static_check_handler (?s4, ?w) (?s4, ?w)"
    "proceeds scope_diff_handler (?s4, ?w) (?s4, ?w)"
    "proceeds evidence_gate_handler (?s4, ?w) (?s4, ?w)"
    using agent_proceeds [of s d _ v ?t] quarantine_proceeds [of ?s1 ?t] diff_proceeds [of ?s2 d "map JStr files" v ?t]
      test_runner_proceeds [of ?s3 logs v outs ?u] static_check_proceeds [of ?s4 ?w] scope_diff_proceeds [of ?s4 files ?w]
      evidence_gate_proceeds [of ?s4 ?w] cand \<open>d \<noteq> []\<close> logs outs s applicable ids evidence
    by (simp_all add: x_run_id_def x_task_id_def)
  note plain = plain_name_def in_default
  have "leads v (build_default_registry v) (5, ''AgentInvocationHandler'') (s, ?t) (?s1, ?t)"
    by (rule leads_of [OF p(1) _ agent_invocation_handler_def]) (simp_all add: plain apart)
  moreover have "leads v (build_default_registry v) (6, ''AgentOutputQuarantineHandler'') (?s1, ?t) (?s2, ?t)"
    by (rule leads_of [OF p(2) _ output_quarantine_handler_def]) (simp_all add: plain apart)
  moreover have "leads v (build_default_registry v) (7, ''DiffCaptureHandler'') (?s2, ?t) (?s3, ?u)"
    by (rule leads_of [OF p(3) _ diff_capture_handler_def]) (simp_all add: plain apart)
  moreover have "leads v (build_default_registry v) (8, ''TestRunnerHandler'') (?s3, ?u) (?s4, ?w)"
    by (rule leads_of [OF p(4) _ test_runner_handler_def]) (simp_all add: plain apart)
  moreover have "leads v (build_default_registry v) (9, ''StaticCheckHandler'') (?s4, ?w) (?s4, ?w)"
    by (rule leads_of [OF p(5) _ static_check_handler_def]) (simp_all add: plain apart)
  moreover have "leads v (build_default_registry v) (10, ''ScopeDiffHandler'') (?s4, ?w) (?s4, ?w)"
    by (rule leads_of [OF p(6) _ scope_diff_handler_def]) (simp_all add: plain apart)
  moreover have "leads v (build_default_registry v) (11, ''EvidenceGateHandler'') (?s4, ?w) (?s4, ?w)"
    by (rule leads_of [OF p(7) _ evidence_gate_handler_def]) (simp_all add: plain apart)
  ultimately have "brought v (build_default_registry v)
      [(5, ''AgentInvocationHandler''), (6, ''AgentOutputQuarantineHandler''), (7, ''DiffCaptureHandler''),
       (8, ''TestRunnerHandler''), (9, ''StaticCheckHandler''), (10, ''ScopeDiffHandler''), (11, ''EvidenceGateHandler'')]
      (s, ?t) (?s4, ?w)"
    by (meson brought.intros)
  moreover have "certifiable ?s4"
    using cand strategic outs(2,3) logs(2) s ids by (auto simp: certifiable_def x_run_id_def x_task_id_def)
  ultimately show thesis using that [of ?s4 ?w] s apart by simp
qed

lemma chain_back:
  assumes "certifiable s" and "x_request s = q" and "{AT_DIFF, AT_TEST} \<subseteq> set ts" and apart: "repo_apart s"
  obtains s' ts' where "brought v (build_default_registry v)
      [(12, ''ImplementationVerifierHandler''), (13, ''EvaluatorHandler''), (14, ''MemoryUpdateHandler'')]
      (s, ts) (s', ts')"
    and "x_verifier_decision s' = D_PASS" and "repo_apart s'"
proof -
  let ?s = "s\<lparr>x_verifier_run_id := ''impl-verifier'', x_verifier_decision := D_PASS\<rparr>"
  let ?t = "ts @ [AT_VERIFIER_REPORT]" and ?r = "AT_ANALYSIS_REPORT"
  have "set (implementation_evidence q) \<subseteq> artifact_type_value ` {AT_DIFF, AT_TEST}"
    by (simp add: implementation_evidence_def)
  also have "\<dots> \<subseteq> artifact_type_value ` set ts" using assms(3) by (rule image_mono)
  also have "\<dots> = set (map artifact_type_value ts)" by simp
  finally have "leads v (build_default_registry v) (12, ''ImplementationVerifierHandler'') (s, ts) (?s, ?t)"
    using verifier_leads assms(1,2) apart by blast
  moreover have "leads v (build_default_registry v) (13, ''EvaluatorHandler'') (?s, ?t) (?s, ?t @ [?r])"
    by (rule leads_of [OF evaluator_proceeds [of v] _ evaluator_handler_def]) (simp_all add: plain_name_def in_default apart)
  moreover have "leads v (build_default_registry v) (14, ''MemoryUpdateHandler'') (?s, ?t @ [?r]) (?s, (?t @ [?r]) @ [?r])"
    by (rule leads_of [OF memory_proceeds [of v] _ memory_update_handler_def]) (simp_all add: plain_name_def in_default apart)
  ultimately have "brought v (build_default_registry v)
      [(12, ''ImplementationVerifierHandler''), (13, ''EvaluatorHandler''), (14, ''MemoryUpdateHandler'')]
      (s, ts) (?s, (?t @ [?r]) @ [?r])"
    by (meson brought.intros)
  then show thesis using that apart by simp
qed

lemma complete_run:
  assumes ok: "complete_request v q" and sv: "sv_manifest sv = None" "sv_scrum sv = None"
    and apart: "apart (locate w (run_dir (sv_store sv) (q_run_id q))) (locate w (sv_repo sv))"
  shows "\<exists>res d. run_chain v (build_default_registry v) IMPLEMENTATION_CHAIN (start_context q sv w) = (Inr res, d)
    \<and> r_final_status res = FS_PASS \<and> r_verifier_decision res = D_PASS \<and> r_pr_status res = PR_GATED
    \<and> map h_handler_name (r_handler_results res) = cd_handler_names IMPLEMENTATION_CHAIN"
proof -
  let ?reg = "build_default_registry v" and ?c = "start_context q sv w"
  let ?tail = "[(15::nat, ''PRGateHandler''), (16, ''StopOrLoopHandler'')]"
  note start = start_repo_apart [OF apart]
  obtain s1 where front: "brought v ?reg [(0, ''ManifestValidationHandler''), (1, ''ScrumMappingHandler''),
       (2, ''DefinitionOfDoneLockHandler''), (3, ''ScopeValidationHandler''), (4, ''StrategicDesignGateHandler'')]
      (?c, []) (s1, [AT_SCRUM_MAPPING])"
    and s1: "\<exists>r. x_strategic s1 = Some r \<and> passed (strategic_programming_gate r)" "x_request s1 = q"
      "x_test_outcomes s1 = []" "x_verifier_run_id s1 = []" "repo_apart s1"
    by (rule chain_front [OF ok sv start])
  obtain s2 t2 where middle: "brought v ?reg
      [(5, ''AgentInvocationHandler''), (6, ''AgentOutputQuarantineHandler''), (7, ''DiffCaptureHandler''),
       (8, ''TestRunnerHandler''), (9, ''StaticCheckHandler''), (10, ''ScopeDiffHandler''), (11, ''EvidenceGateHandler'')]
      (s1, [AT_SCRUM_MAPPING]) (s2, t2)"
    and s2: "certifiable s2" "x_request s2 = q" "{AT_DIFF, AT_TEST} \<subseteq> set t2" "repo_apart s2"
    by (rule chain_middle [OF ok s1])
  obtain s3 t3 where rear: "brought v ?reg
      [(12, ''ImplementationVerifierHandler''), (13, ''EvaluatorHandler''), (14, ''MemoryUpdateHandler'')] (s2, t2) (s3, t3)"
    and s3: "x_verifier_decision s3 = D_PASS" "repo_apart s3"
    by (rule chain_back [OF s2])
  let ?xs = "[(0::nat, ''ManifestValidationHandler''), (1, ''ScrumMappingHandler''), (2, ''DefinitionOfDoneLockHandler''),
       (3, ''ScopeValidationHandler''), (4, ''StrategicDesignGateHandler'')] @
      [(5, ''AgentInvocationHandler''), (6, ''AgentOutputQuarantineHandler''), (7, ''DiffCaptureHandler''),
       (8, ''TestRunnerHandler''), (9, ''StaticCheckHandler''), (10, ''ScopeDiffHandler''), (11, ''EvidenceGateHandler'')] @
      [(12, ''ImplementationVerifierHandler''), (13, ''EvaluatorHandler''), (14, ''MemoryUpdateHandler'')]"
  have steps: "enumerate 0 (cd_handler_names IMPLEMENTATION_CHAIN) = ?xs @ ?tail"
    by (simp add: IMPLEMENTATION_CHAIN_def eval_nat_numeral)
  have all: "brought v ?reg ?xs (?c, []) (s3, t3)"
    by (rule brought_append [OF front brought_append [OF middle rear]])
  have "adds (snd (?c, [])) (fst (?c, [])) ?c" by (simp add: adds_refl)
  from brought_run [OF all this, of ?tail start_loop]
  obtain rs d where run: "run_handlers v ?reg (?xs @ ?tail) start_loop ?c
      = run_handlers v ?reg ?tail (start_loop\<lparr>lo_results := lo_results start_loop @ rs\<rparr>) d"
    and d0: "adds (snd (s3, t3)) (fst (s3, t3)) d" and rs: "map h_handler_name rs = map snd ?xs" by blast
  have d: "adds t3 s3 d" using d0 by simp
  have "lo_results start_loop @ rs = rs" by (simp add: start_loop_def)
  note run = run [folded steps, unfolded this]
  obtain r1 d1 where pr: "handler_step v ?reg 15 ''PRGateHandler'' PR_NOT_REQUIRED d = (Inr (r1, PR_GATED), d1)"
    "goes_on r1" "h_handler_name r1 = ''PRGateHandler''" "adds (t3 @ [AT_PR, AT_PR]) s3 d1"
    using pr_gate_step [OF d s3] by blast
  obtain r2 d2 where stop: "handler_step v ?reg 16 ''StopOrLoopHandler'' PR_GATED d1 = (Inr (r2, PR_GATED), d2)"
    "h_decision r2 = HD_STOP" "h_handler_name r2 = ''StopOrLoopHandler''" "x_verifier_decision d2 = D_PASS"
    using stop_step [OF pr(4) s3(2)] s3(1) by metis
  have "run_handlers v ?reg ?tail (start_loop\<lparr>lo_results := rs\<rparr>) d
      = (Inr (start_loop\<lparr>lo_results := rs @ [r1, r2], lo_pr_status := PR_GATED\<rparr>), d2)"
    using pr(1,2) stop(1,2) by (auto simp: start_loop_def comp_defs Let_def goes_on_def)
  with run stop(4) pr(3) stop(3) rs show ?thesis
    by (simp add: run_chain_def comp_defs final_status_of_def start_loop_def) (simp add: IMPLEMENTATION_CHAIN_def)
qed

end
