(* ===== verification/Sample_Run.thy ===== *)
theory Sample_Run
  imports Complete_Run
begin

text \<open>
  A small world in which the hypotheses of the run theorems hold: an environment whose clock,
  commands and printers are constant, a request for an implementation task that carries everything
  the chain asks for, one that lacks its Scrum mapping and one outside the envelope.
\<close>

definition sample_strategic :: strategic_programming where
  "sample_strategic = default_strategic
     \<lparr>sp_responsibility_owner := ''owner'', sp_selected_design := ''a'',
      sp_design_options :=
        [\<lparr>do_option_id = ''a'', do_summary = ''s'', do_tradeoffs = ''t'',
           do_rejected_or_selected = ''selected''\<rparr>,
         \<lparr>do_option_id = ''b'', do_summary = ''s'', do_tradeoffs = ''t'',
           do_rejected_or_selected = ''rejected''\<rparr>]\<rparr>"

definition sample_env :: env where
  "sample_env =
     \<lparr>v_now = (\<lambda>_. ''now''), v_shell = (\<lambda>_ _ _. ret (Finished 0 [] [])),
      v_git = (\<lambda>_ _ _. ret (0, [], [])), v_yaml_error = (\<lambda>_. None),
      v_checkpoint_json = (\<lambda>_. ''{}''), v_invocation_json = (\<lambda>_. ''{}''),
      v_output_json = (\<lambda>_. ''{}''), v_strategic = (\<lambda>_. Some sample_strategic), v_output = (\<lambda>_. None),
      v_exit_code = (\<lambda>_. Some (Some 0))\<rparr>"

definition sample_world :: world where
  "sample_world = \<lparr>w_files = [], w_dirs = [], w_cwd = [], w_tick = 0\<rparr>"

definition sample_store :: artifact_store where
  "sample_store = \<lparr>st_root = \<lparr>p_slashes = 1, p_parts = [''store'']\<rparr>, st_attempt_id = None\<rparr>"

definition sample_services :: services where
  "sample_services =
     \<lparr>sv_store = sample_store, sv_repo = \<lparr>p_slashes = 1, p_parts = [''repo'']\<rparr>,
      sv_manifest = None, sv_scrum = None, sv_agent_specs = [], sv_agent_adapters = [],
      sv_tool_registry = None, sv_tool_policy = None\<rparr>"

definition sample_request :: chain_request where
  "sample_request = (default_request TT_IMPLEMENTATION RT_IMPLEMENTATION)
     \<lparr>q_run_id := ''run'', q_task_id := ''task'',
      q_scope := \<lparr>sc_files_in_scope = [''*''], sc_files_out_of_scope = []\<rparr>\<rparr>"

definition sample_start :: ctx where
  "sample_start = start_context sample_request sample_services sample_world"

lemma sample_strategic_passed: "passed (strategic_programming_gate sample_strategic)"
  by (simp add: strategic_gate_passed sample_strategic_def default_strategic_def design_justified_def
      strip_def lstrip_def is_space_def lower_def lower_char_def)

definition merging_request :: chain_request where
  "merging_request = sample_request\<lparr>q_hard_rules := (q_hard_rules sample_request)\<lparr>hr_auto_merge := True\<rparr>\<rparr>"

lemma merging_violates: "canonical_violations merging_request = [''auto_merge must be false'']"
  by (simp add: canonical_violations_def merging_request_def sample_request_def default_request_def)

lemma sample_scrum_fails:
  "canonical_violations sample_request = []" "\<not> passed (scrum_gate (envelope_scrum (q_scrum sample_request)) None)"
  by (simp_all add: canonical_violations_def sample_request_def default_request_def scrum_gate_passed envelope_scrum_def)

section \<open>A request that is passed\<close>

definition full_request :: chain_request where
  "full_request = sample_request
     \<lparr>q_scrum := \<lparr>se_product_backlog_item_id = ''PBI-1'', se_sprint_goal = ''goal'', se_sprint_backlog_task_id = ''T-1'',
        se_definition_of_done_version = ''1'', se_acceptance_criteria = [''the test passes'']\<rparr>,
      q_metadata := [(''strategic_design'', JBool True),
        (''manual_candidate'', JObj [(''diff'', JStr ''+x''), (''agent_run_id'', JStr ''agent''),
           (''changed_files'', JArr [JStr ''app.py''])]),
        (''test_outcomes'', JArr [JObj [(''exit_code'', JInt 0)]])]\<rparr>"

lemma full_request_complete: "complete_request sample_env full_request"
  unfolding complete_request_def
proof (intro conjI)
  show "\<exists>review. v_strategic sample_env (dget (q_metadata full_request) ''strategic_design'') = Some review
        \<and> passed (strategic_programming_gate review)"
    using sample_strategic_passed by (simp add: sample_env_def)
  show "passed (scrum_gate (envelope_scrum (q_scrum full_request)) None)"
    by (simp add: scrum_gate_passed envelope_scrum_def full_request_def) code_simp
  show "\<exists>d files. dget (q_metadata full_request) ''manual_candidate'' = JObj d \<and> truthy (dget d ''diff'')
        \<and> truthy (dget d ''agent_run_id'') \<and> dget d ''agent_run_id'' \<noteq> JStr ''impl-verifier''
        \<and> dget_or d ''changed_files'' (JArr []) = JArr (map JStr files)
        \<and> list_all (file_admitted (request_scope full_request)) files"
    by (simp add: full_request_def dget_or_def) (intro exI [of _ "[''app.py'']"], simp add: file_admitted_def request_scope_def sample_request_def)
  show "\<exists>logs. dget (q_metadata full_request) ''test_outcomes'' = JArr logs \<and> logs \<noteq> []
        \<and> list_all (passing_log sample_env) logs"
    by (simp add: full_request_def passing_log_def dget_or_def sample_env_def)
qed (simp_all add: full_request_def sample_request_def default_request_def canonical_violations_def)

lemma sample_completes:
  "\<exists>res d. run_chain sample_env (build_default_registry sample_env) IMPLEMENTATION_CHAIN
      (start_context full_request sample_services sample_world) = (Inr res, d)
    \<and> r_final_status res = FS_PASS \<and> r_verifier_decision res = D_PASS \<and> r_pr_status res = PR_GATED
    \<and> map h_handler_name (r_handler_results res) = cd_handler_names IMPLEMENTATION_CHAIN"
proof (rule complete_run [OF full_request_complete])
  show "apart (locate sample_world (run_dir (sv_store sample_services) (q_run_id full_request)))
      (locate sample_world (sv_repo sample_services))" by code_simp
qed (simp_all add: sample_services_def)

end
