(* ===== verification/Confined_Runs.thy ===== *)
theory Confined_Runs
  imports Sample_Run
begin

text \<open>
  Where a run writes.  Given protected places that the shell, git, the tools and the models' adapters
  leave alone, no handler, no recorder and no checkpoint of the harness changes them either, as long
  as they lie outside the evidence directory of the run: whatever the chain, the request and the
  results, all the code itself writes goes through the artifact store, under names without a slash.
  The argument is the preorder \<open>bounded\<close>, with one rule for each way of writing and one pass over
  the handlers.
\<close>

section \<open>Protected places\<close>

text \<open>What lies at the places of \<open>P\<close> is the same in both worlds.\<close>

definition keeps :: "(string list \<Rightarrow> bool) \<Rightarrow> world \<Rightarrow> world \<Rightarrow> bool" where
  "keeps P w w' \<longleftrightarrow> w_cwd w' = w_cwd w
     \<and> filter (\<lambda>(m, _). P m) (w_files w') = filter (\<lambda>(m, _). P m) (w_files w)
     \<and> filter P (w_dirs w') = filter P (w_dirs w)"

interpretation keeping: state_preorder "keeps P" for P
  by unfold_locales (auto simp: keeps_def)

lemma keeps_locate: "keeps P w w' \<Longrightarrow> locate w' p = locate w p"
  by (simp add: keeps_def locate_def)

lemma keeps_tick [simp]:
  "keeps P w (w'\<lparr>w_tick := t\<rparr>) = keeps P w w'" "keeps P (w\<lparr>w_tick := t\<rparr>) w' = keeps P w w'"
  by (simp_all add: keeps_def)

text \<open>
  Writing below a directory keeps all that lies elsewhere, that is neither below it nor above it:
  the directories above are made where they are missing.
\<close>

definition outside :: "(string list \<Rightarrow> bool) \<Rightarrow> string list \<Rightarrow> bool" where
  "outside P l \<longleftrightarrow> (\<forall>m. P m \<longrightarrow> apart l m)"

lemma keeps_writes_only:
  assumes "writes_only l w w'" and "outside P l"
  shows "keeps P w w'"
proof -
  have "filter (\<lambda>(m, _). P m) (w_files w') = filter (\<lambda>(m, _). P m) (w_files w)"
    by (rule filter_below [where P = "\<lambda>(m, _). \<not> prefix l m"])
       (use assms in \<open>auto simp: writes_only_def outside_def apart_def\<close>)
  moreover have "filter P (w_dirs w') = filter P (w_dirs w)"
    by (rule filter_below [where P = "apart l"])
       (use assms in \<open>auto simp: writes_only_def outside_def\<close>)
  ultimately show ?thesis using assms(1) by (simp add: keeps_def writes_only_def)
qed

lemma map_of_filter_key: "P m \<Longrightarrow> map_of (filter (\<lambda>(k, _). P k) xs) m = map_of xs m"
  by (induction xs) auto

lemma keeps_at: "keeps P w w' \<Longrightarrow> P m \<Longrightarrow> file_at w' m = file_at w m"
  using map_of_filter_key [of P m] by (metis file_at_def keeps_def)

text \<open>A place with all that lies below it protected is a directory as before, or not one as before.\<close>

lemma keeps_dir:
  assumes "keeps P w w'" and "\<And>k. prefix m k \<Longrightarrow> P k"
  shows "dir_at w' m = dir_at w m"
proof -
  have "set (filter P (w_dirs w')) = set (filter P (w_dirs w))" using assms(1) by (simp add: keeps_def)
  then have dirs: "k \<in> set (w_dirs w') \<longleftrightarrow> k \<in> set (w_dirs w)" if "prefix m k" for k
    using assms(2) [OF that] by auto
  have found: "k \<in> fst ` set (w_files u) \<longleftrightarrow> file_at u k \<noteq> None" for k u
    by (simp add: file_at_def map_of_eq_None_iff)
  have files: "k \<in> fst ` set (w_files w') \<longleftrightarrow> k \<in> fst ` set (w_files w)" if "prefix m k" for k
    unfolding found using keeps_at [OF assms(1)] assms(2) [OF that] by simp
  have "list_ex (strict_prefix m) (map fst (w_files u) @ w_dirs u) \<longleftrightarrow>
      (\<exists>k. strict_prefix m k \<and> (k \<in> fst ` set (w_files u) \<or> k \<in> set (w_dirs u)))" for u
    by (auto simp: list_ex_iff)
  then show ?thesis unfolding dir_at_def using dirs files by (metis prefix_order.refl prefix_order.less_imp_le)
qed

section \<open>Computations on the world\<close>

text \<open>In worlds where the directory lies at \<open>l\<close>, the protected places are kept.\<close>

definition kept :: "(string list \<Rightarrow> bool) \<Rightarrow> ppath \<Rightarrow> string list \<Rightarrow> world \<Rightarrow> world \<Rightarrow> bool" where
  "kept P dir l w w' \<longleftrightarrow> (locate w dir = l \<longrightarrow> keeps P w w')"

interpretation kept_there: state_preorder "kept P dir l" for P dir l
  by unfold_locales (auto simp: kept_def keeping.R_refl keeps_locate intro: keeping.R_trans)

lemma kept_keeps: "steps (keeps P) m \<Longrightarrow> steps (kept P dir l) m"
  by (simp add: steps_def kept_def)

lemma kept_clock [steps_rules]: "steps (kept P dir l) (read_clock now)"
  by (rule kept_keeps) (simp add: steps_def read_clock_def comp_defs keeping.R_refl)

lemma kept_stamp [steps_rules]: "steps (kept P dir l) (stamp_created now k)"
  by (auto simp: stamp_created_def intro!: steps_rules)

lemma kept_store_write [steps_rules]:
  assumes "segment n" and "outside P l"
  shows "steps (kept P (run_dir st run) l) (store_write now st run task n data ty by)"
  using assms keeps_writes_only [OF writes_only_store]
  by (auto simp: steps_def kept_def store_write_eq)

lemma kept_checkpoint [steps_rules]:
  assumes "segment n" and "outside P l"
  shows "steps (kept P (run_dir st (k_run_id k)) l) (write_checkpoint now dump st k n by)"
proof -
  let ?dir = "run_dir st (k_run_id k)"
  have "keeps P w (write_file (pjoin ?dir n) b (make_dirs ?dir (w\<lparr>w_tick := t\<rparr>)))"
    if "locate w ?dir = l" for w b t
    using that keeps_writes_only [OF writes_only_store [OF assms(1), of "w\<lparr>w_tick := t\<rparr>" ?dir b]] assms(2) by simp
  then show ?thesis
    by (simp add: steps_def kept_def write_checkpoint_def stamp_created_def comp_defs store_write_eq read_clock_def Let_def)
qed

text \<open>The environment leaves the protected places alone.\<close>

definition sealed :: "(string list \<Rightarrow> bool) \<Rightarrow> env \<Rightarrow> bool" where
  "sealed P v \<longleftrightarrow> (\<forall>cwd cmd t. steps (keeps P) (v_shell v cwd cmd t))
     \<and> (\<forall>dir args t. steps (keeps P) (v_git v dir args t))"

lemma kept_command: "sealed P v \<Longrightarrow> steps (kept P dir l) (run_command v p cwd t cmd)"
  by (auto simp: run_command_def sealed_def intro!: steps_rules kept_keeps)

lemma kept_git_run: "sealed P v \<Longrightarrow> steps (kept P dir l) (git_run v repo args)"
  by (auto simp: git_run_def sealed_def intro!: kept_keeps)

lemma kept_git:
  assumes "sealed P v"
  shows "steps (kept P dir l) (git_is_repo v repo)" and "steps (kept P dir l) (git_capture_run v repo)"
  using assms
  by (auto simp: git_is_repo_def git_capture_run_def or_git_failure_def intro!: steps_rules kept_git_run)

section \<open>Computations on the context\<close>

text \<open>
  A context whose evidence directory is \<open>dir\<close>, at \<open>l\<close>, whose repository is \<open>repo\<close> and whose tools
  and adapters leave the protected places alone.
\<close>

definition tools_keep :: "(string list \<Rightarrow> bool) \<Rightarrow> ppath \<Rightarrow> tool_registry \<Rightarrow> bool" where
  "tools_keep P repo reg \<longleftrightarrow> (\<forall>name t. tool_get reg name = Some t \<longrightarrow> steps (keeps P) (tl_run t repo))"

definition adapters_keep :: "(string list \<Rightarrow> bool) \<Rightarrow> (string, llm_adapter) dict \<Rightarrow> bool" where
  "adapters_keep P as \<longleftrightarrow> (\<forall>name a. map_of as name = Some a \<longrightarrow> (\<forall>spec prompt. steps (keeps P) (a spec prompt)))"

definition confined :: "(string list \<Rightarrow> bool) \<Rightarrow> ppath \<Rightarrow> string list \<Rightarrow> ppath \<Rightarrow> ctx \<Rightarrow> bool" where
  "confined P dir l repo c \<longleftrightarrow> run_dir (x_store c) (x_run_id c) = dir \<and> locate (x_world c) dir = l
     \<and> x_repo c = repo \<and> (\<forall>reg. x_tool_registry c = Some reg \<longrightarrow> tools_keep P repo reg)
     \<and> adapters_keep P (x_agent_adapters c)"

definition bounded :: "(string list \<Rightarrow> bool) \<Rightarrow> ppath \<Rightarrow> string list \<Rightarrow> ppath \<Rightarrow> ctx \<Rightarrow> ctx \<Rightarrow> bool" where
  "bounded P dir l repo c d \<longleftrightarrow>
     (confined P dir l repo c \<longrightarrow> confined P dir l repo d \<and> keeps P (x_world c) (x_world d))"

interpretation bounding: state_preorder "bounded P dir l repo" for P dir l repo
  by unfold_locales (auto simp: bounded_def keeping.R_refl intro: keeping.R_trans)

text \<open>An update away from the fields that say where a run may write.\<close>

definition same_place :: "ctx \<Rightarrow> ctx \<Rightarrow> bool" where
  "same_place c d \<longleftrightarrow> x_world d = x_world c \<and> x_store d = x_store c \<and> x_run_id d = x_run_id c
     \<and> x_repo d = x_repo c \<and> x_tool_registry d = x_tool_registry c
     \<and> x_agent_adapters d = x_agent_adapters c"

lemmas place_defs = same_place_def x_run_id_def

lemma bounded_modC [steps_rules]:
  assumes "\<And>c. same_place c (f c)"
  shows "steps (bounded P dir l repo) (modC f)"
  using assms
  by (intro bounding.steps_modC) (simp add: same_place_def bounded_def confined_def keeping.R_refl)

lemma bounded_on_world [steps_rules]:
  assumes "steps (kept P dir l) m"
  shows "steps (bounded P dir l repo) (on_world m)"
proof (rule stepsI)
  fix c r d
  assume "on_world m c = (r, d)"
  then obtain w where m: "m (x_world c) = (r, w)" and d: "d = c\<lparr>x_world := w\<rparr>"
    by (auto simp: on_world_eq split: prod.splits)
  have "kept P dir l (x_world c) w" using assms m by (rule stepsD)
  then show "bounded P dir l repo c d"
    using keeps_locate [of P "x_world c" w] by (auto simp: d bounded_def kept_def confined_def x_run_id_def)
qed

text \<open>What a computation reads of a confined context may be used to see that it is bounded.\<close>

lemma bounded_getC:
  assumes "\<And>c. confined P dir l repo c \<Longrightarrow> steps (bounded P dir l repo) (h (f c))"
  shows "steps (bounded P dir l repo) (bindC (getC f) h)"
  using assms by (force simp: steps_def comp_defs bounded_def)

text \<open>The harness's own ways of writing.\<close>

lemma bounded_write_quarantined [steps_rules]:
  "segment n \<Longrightarrow> outside P l \<Longrightarrow> steps (bounded P dir l repo) (write_quarantined v n data by)"
  unfolding write_quarantined_def
  by (rule bounded_getC) (auto simp: confined_def intro!: steps_rules)

lemma bounded_on_ledger [steps_rules]:
  "steps (bounded P dir l repo) (on_ledger (ledger_append_artifact now a result command))"
proof (rule stepsI)
  fix c r d
  assume "on_ledger (ledger_append_artifact now a result command) c = (r, d)"
  then obtain ew w where d: "d = c\<lparr>x_evidence := ew, x_world := w\<rparr>" and
    app: "ledger_append now (a_artifact_type a) (a_path a) (a_hash a) command result
            (a_recorded_by a) (x_evidence c, x_world c) = (r, (ew, w))"
    by (auto simp: on_ledger_def zoomC_def ledger_append_artifact_def split: prod.splits)
  from app have "w = x_world c \<or> w = (x_world c)\<lparr>w_tick := Suc (w_tick (x_world c))\<rparr>"
    by (cases rule: ledger_append_cases) auto
  then have "keeps P (x_world c) w" by (auto simp: keeping.R_refl)
  then show "bounded P dir l repo c d"
    using keeps_locate [of P "x_world c" w] by (auto simp: d bounded_def confined_def x_run_id_def)
qed

lemma bounded_record_artifact [steps_rules]:
  assumes "evidence_name n" and "outside P l"
  shows "steps (bounded P dir l repo) (record_artifact v n data ty result command by)"
proof -
  have "segment n" using assms(1) by (simp add: evidence_name_def)
  with assms(2) show ?thesis unfolding record_artifact_def
    by (intro bounded_getC) (auto simp: confined_def place_defs intro!: steps_rules)
qed

lemma bounded_checkpoint [steps_rules]:
  assumes "plain_name n" and "outside P l"
  shows "steps (bounded P dir l repo) (checkpoint_step v i n r)"
  unfolding checkpoint_step_def
proof (rule bounded_getC)
  fix c assume "confined P dir l repo c"
  then have dir: "run_dir (x_store c) (x_run_id c) = dir" by (simp add: confined_def)
  have "k_run_id (checkpoint_of c n r) = x_run_id c"
    by (simp add: checkpoint_of_def new_checkpoint_def)
  then show "steps (bounded P dir l repo) (on_world (write_checkpoint (v_now v) (v_checkpoint_json v)
      (x_store (id c)) (checkpoint_of (id c) n r) (checkpoint_name i n) ''executor''))"
    using kept_checkpoint [OF segment_checkpoint [OF assms(1)] assms(2), of "x_store c" "checkpoint_of c n r"] dir
    by (auto intro!: steps_rules)
qed

text \<open>The recorder of an invocation writes its files under the same directory.\<close>

definition recorder_kept :: "(string list \<Rightarrow> bool) \<Rightarrow> ppath \<Rightarrow> string list \<Rightarrow> recorder \<Rightarrow> recorder \<Rightarrow> bool" where
  "recorder_kept P dir l s s' \<longleftrightarrow> kept P dir l (rc_world s) (rc_world s')"

interpretation recording: state_preorder "recorder_kept P dir l" for P dir l
  by unfold_locales (auto simp: recorder_kept_def kept_there.R_refl intro: kept_there.R_trans)

lemma recorder_world [steps_rules]:
  "steps (kept P dir l) m \<Longrightarrow> steps (recorder_kept P dir l) (zoomC rc_world (\<lambda>w. rc_world_update (\<lambda>_. w)) m)"
  by (simp add: steps_def recorder_kept_def zoomC_def case_prod_beta)

lemma recorder_ledger [steps_rules]:
  "steps (recorder_kept P dir l) (zoomC (\<lambda>s. (rc_evidence s, rc_world s))
     (\<lambda>(ew, w) s. s\<lparr>rc_evidence := ew, rc_world := w\<rparr>) (ledger_append_artifact now a result command))"
proof (rule stepsI)
  fix s s' :: recorder and r
  assume run: "zoomC (\<lambda>s. (rc_evidence s, rc_world s)) (\<lambda>(ew, w) s. s\<lparr>rc_evidence := ew, rc_world := w\<rparr>)
    (ledger_append_artifact now a result command) s = (r, s')"
  obtain x ew w where app: "ledger_append now (a_artifact_type a) (a_path a) (a_hash a) command result
      (a_recorded_by a) (rc_evidence s, rc_world s) = (x, (ew, w))" by (metis prod.exhaust)
  from app have "w = rc_world s \<or> w = (rc_world s)\<lparr>w_tick := Suc (w_tick (rc_world s))\<rparr>"
    by (cases rule: ledger_append_cases) auto
  moreover have "s' = s\<lparr>rc_evidence := ew, rc_world := w\<rparr>"
    using run app by (simp add: zoomC_def ledger_append_artifact_def)
  ultimately show "recorder_kept P dir l s s'"
    by (auto simp: recorder_kept_def kept_def keeping.R_refl)
qed

lemma invocation_id_slash [simp]: "CHR ''/'' \<notin> set (invocation_id n)"
  using zero_pad_plain [of 4 n] by (simp add: invocation_id_def plain_name_def)

lemma recorder_invocation [steps_rules]:
  "outside P l \<Longrightarrow>
   steps (recorder_kept P (run_dir st run) l) (record_invocation v st run task spec prompt resp status)"
  by (auto simp: record_invocation_def rc_write_def Let_def segment_def recorder_kept_def kept_there.R_refl
      intro!: steps_rules recording.steps_modC)

lemma bounded_with_recorder [steps_rules]:
  assumes "steps (recorder_kept P dir l) m"
  shows "steps (bounded P dir l repo) (with_recorder m)"
proof (rule stepsI)
  fix c r d
  assume run: "with_recorder m c = (r, d)"
  let ?s = "\<lparr>rc_counter = 0, rc_evidence = x_evidence c, rc_world = x_world c\<rparr>"
  obtain x s where m: "m ?s = (x, s)" by force
  then have "recorder_kept P dir l ?s s" using assms by (rule stepsD [rotated])
  moreover have "d = c\<lparr>x_evidence := rc_evidence s, x_world := rc_world s\<rparr>"
    using run m by (simp add: with_recorder_def zoomC_def)
  ultimately show "bounded P dir l repo c d"
    using keeps_locate [of P "x_world c" "rc_world s"]
    by (auto simp: bounded_def recorder_kept_def kept_def confined_def x_run_id_def)
qed

section \<open>The agents and the tools\<close>

lemma bounded_agent_invoke [steps_rules]:
  assumes "outside P l"
  shows "steps (bounded P dir l repo) (agent_invoke v r)"
  unfolding agent_invoke_def
  by (rule bounded_getC)
    (use assms in \<open>auto simp: confined_def adapters_keep_def intro!: steps_rules intro: kept_keeps\<close>)

lemma bounded_quarantine [steps_rules]:
  "outside P l \<Longrightarrow> steps (bounded P dir l repo) (quarantine_agent_output v raw summary by)"
  by (auto simp: quarantine_agent_output_def segment_def intro!: steps_rules)

lemma bounded_tool_run:
  assumes "evidence_name (''tool_'' @ name @ ''.log'')" and "outside P l" and "tools_keep P repo reg"
  shows "steps (bounded P dir l repo) (tool_run v reg policy name rt)"
proof (cases "fst (tool_decide policy name rt) = ALLOWED")
  case False
  then show ?thesis
    by (auto simp: tool_run_def split: prod.split intro!: steps_rules)
next
  case True
  have tool: "steps (kept P dir l) (tl_run t repo)" if "tool_get reg name = Some t" for t
    using assms(3) that by (auto simp: tools_keep_def intro: kept_keeps)
  have json: "steps (bounded P dir l repo) (case data of JStr t \<Rightarrow> f t | _ \<Rightarrow> m)"
    if "\<And>t. steps (bounded P dir l repo) (f t)" and "steps (bounded P dir l repo) m"
    for data f and m :: "(ctx, tool_result) comp"
    using that by (cases data) simp_all
  show ?thesis using True assms(1,2)
    by (cases "tool_decide policy name rt")
      (auto simp: tool_run_def confined_def intro!: steps_rules bounded_getC json tool split: sum.split)
qed

lemma bounded_agent_tools:
  assumes "outside P l" and "tools_keep P repo reg"
  shows "steps (bounded P dir l repo) (run_agent_tools v reg policy mode)"
proof -
  have names: "evidence_name (''tool_'' @ n @ ''.log'')" if "n \<in> set AGENT_TOOLS" for n
    using that by (auto simp: AGENT_TOOLS_def evidence_name_defs)
  have run: "steps (bounded P dir l repo) (mapC (\<lambda>name. bindC (tool_run v reg policy name mode) (f name)) ns)"
    if "set ns \<subseteq> set AGENT_TOOLS" "\<And>n r. steps (bounded P dir l repo) (f n r)"
    for ns and f :: "string \<Rightarrow> tool_result \<Rightarrow> (ctx, string) comp"
    using that by (induction ns) (auto intro!: steps_rules bounded_tool_run names assms)
  show ?thesis unfolding run_agent_tools_def
    by (rule run) (auto intro: steps_rules)
qed

section \<open>The handlers\<close>

lemma bounded_skip_with [steps_rules]: "steps (bounded P dir l repo) (skip_with i r)"
  by (cases r) (simp_all add: skip_with_def bounding.steps_ret bounding.steps_throw)

lemma bounded_record_and_pass [steps_rules]:
  "evidence_name name \<Longrightarrow> outside P l \<Longrightarrow> steps (bounded P dir l repo) (record_and_pass v i name data ty command)"
  by (auto simp: record_and_pass_def intro!: steps_rules)

lemma bounded_run_commands [steps_rules]: "sealed P v \<Longrightarrow> steps (bounded P dir l repo) (run_commands v meta cmds)"
  by (auto simp: run_commands_def intro!: steps_rules kept_command)

lemma bounded_run_reproduction [steps_rules]:
  assumes "evidence_name n" and "outside P l" and "sealed P v"
  shows "steps (bounded P dir l repo) (run_reproduction v i repro n m)"
  using assms
  by (cases repro)
     (auto simp: run_reproduction_def judge_reproduction_def place_defs intro!: steps_rules)

lemma bounded_known_files [steps_rules]: "steps (bounded P dir l repo) known_files"
  by (auto simp: known_files_def set_files_def place_defs intro!: steps_rules)

lemma bounded_assess_advisories [steps_rules]:
  "evidence_name n \<Longrightarrow> outside P l \<Longrightarrow> steps (bounded P dir l repo) (assess_advisories v i given n cmd kind)"
  by (auto simp: assess_advisories_def intro!: steps_rules)

lemma bounded_scan_and_judge [steps_rules]:
  "evidence_name n \<Longrightarrow> outside P l \<Longrightarrow> steps (bounded P dir l repo) (scan_and_judge v i ps n cmd why)"
  by (auto simp: scan_and_judge_def intro!: steps_rules)

definition stays :: "(string list \<Rightarrow> bool) \<Rightarrow> ppath \<Rightarrow> string list \<Rightarrow> ppath \<Rightarrow> handler \<Rightarrow> bool" where
  "stays P dir l repo h \<longleftrightarrow> steps (bounded P dir l repo) (hd_handle h)"

lemma staysI: "steps (bounded P dir l repo) body \<Longrightarrow> stays P dir l repo (handler_class i body)"
  by (simp add: stays_def)

lemmas body_defs = record_dod_lock_def set_files_def verifier_defs meta_get_def set_coding_agent_run_id_def
  candidate_diff_def record_diff_def record_tests_def record_build_def not_allowed_def

lemma control_handlers_stay: "outside P l \<Longrightarrow> list_all (stays P dir l repo) (control_handlers v @ evaluation_handlers v @ pr_handlers v)"
  by (auto simp: handler_lists handler_defs body_defs place_defs evidence_name_defs intro!: staysI steps_rules)

lemma analysis_agent_stays: "outside P l \<Longrightarrow> stays P dir l repo (analysis_agent_handler v)"
  unfolding analysis_agent_handler_def
  by (rule staysI, rule bounded_getC)
    (auto simp: confined_def place_defs intro!: steps_rules bounded_agent_tools split: prod.split option.split)

lemma analysis_handlers_stay: "outside P l \<Longrightarrow> list_all (stays P dir l repo) (analysis_handlers v)"
  by (auto simp: analysis_handlers_def analysis_agent_stays)
     (auto simp: handler_defs body_defs place_defs evidence_name_defs segment_def intro!: staysI steps_rules)

lemma diff_capture_stays:
  assumes "outside P l" and "sealed P v"
  shows "stays P dir l repo (diff_capture_handler v)"
  using assms
  by (auto simp: diff_capture_handler_def body_defs place_defs evidence_name_defs
      intro!: staysI steps_rules kept_git)

lemma implementation_handlers_stay:
  assumes "outside P l" and "sealed P v"
  shows "list_all (stays P dir l repo) (implementation_handlers v)"
  using assms
  by (auto simp: implementation_handlers_def diff_capture_stays)
     (auto simp: handler_defs body_defs place_defs evidence_name_defs segment_def intro!: staysI steps_rules)

lemma verification_handlers_stay:
  "outside P l \<Longrightarrow> list_all (stays P dir l repo) (verification_handlers v @ documentation_handlers v)"
  by (auto simp: handler_lists handler_defs body_defs place_defs evidence_name_defs intro!: staysI steps_rules)

lemma repair_handlers_stay:
  assumes "outside P l" and "sealed P v"
  shows "list_all (stays P dir l repo) (ci_handlers v @ dependency_handlers v @ security_handlers v)"
  using assms
  by (auto simp: handler_lists handler_defs body_defs place_defs evidence_name_defs intro!: staysI steps_rules)

lemma default_handlers_stay:
  assumes "outside P l" and "sealed P v"
  shows "list_all (stays P dir l repo) (default_handlers v)"
  using control_handlers_stay [OF assms(1)] analysis_handlers_stay [OF assms(1)] implementation_handlers_stay [OF assms]
    verification_handlers_stay [OF assms(1)] repair_handlers_stay [OF assms]
  by (simp add: default_handlers_def)

section \<open>A whole run\<close>

lemma same_place_decide: "same_place c (decide t r c)"
  by (auto simp: decide_def place_defs split: option.split)

lemma bounded_step:
  assumes "outside P l" and "sealed P v" and "plain_name n"
  shows "steps (bounded P dir l repo) (handler_step v (build_default_registry v) i n pr)"
proof -
  have "steps (bounded P dir l repo) (hd_handle h)" if "registry_get (build_default_registry v) n = Some h" for h
    using default_get [OF that] default_handlers_stay [OF assms(1,2), of dir repo]
    by (auto simp: list_all_iff stays_def)
  then show ?thesis using assms
    by (auto simp: handler_step_def handler_outcome_def same_place_decide intro!: steps_rules)
qed

lemma bounded_run_handlers:
  assumes "outside P l" and "sealed P v" and "list_all (\<lambda>x. plain_name (snd x)) xs"
  shows "steps (bounded P dir l repo) (run_handlers v (build_default_registry v) xs st)"
  using assms(3)
proof (induction xs arbitrary: st)
  case Nil
  then show ?case by (simp add: bounding.steps_ret)
next
  case (Cons x xs)
  then show ?case using assms(1,2)
    by (auto simp: Let_def intro!: steps_rules bounded_step split: handler_decision.split)
qed

lemma chain_names_plain: "list_all plain_name (cd_handler_names (chain_of t))"
  by (cases t) (simp_all add: chain_defs plain_name_def)

lemma bounded_run_chain:
  assumes "outside P l" and "sealed P v"
  shows "steps (bounded P dir l repo) (run_chain v (build_default_registry v) (chain_of t))"
proof -
  have "list_all (\<lambda>x. plain_name (snd x)) (enumerate 0 (cd_handler_names (chain_of t)))"
    using chain_names_plain [of t] by (auto simp: list_all_iff in_set_enumerate_eq)
  then show ?thesis unfolding run_chain_def
    by (intro bounding.steps_bindC bounded_run_handlers [OF assms] bounding.steps_getC bounding.steps_ret)
qed

text \<open>What the caller hands over leaves the protected places alone.\<close>

definition services_keep :: "(string list \<Rightarrow> bool) \<Rightarrow> services \<Rightarrow> bool" where
  "services_keep P sv \<longleftrightarrow> adapters_keep P (sv_agent_adapters sv)
     \<and> (\<forall>reg. sv_tool_registry sv = Some reg \<longrightarrow> tools_keep P (sv_repo sv) reg)"

lemma execute_keeps:
  assumes "outside P (locate w (run_dir (sv_store sv) (q_run_id q)))" and "sealed P v" and "services_keep P sv"
    and "execute v (build_default_registry v) q sv w = (r, w')"
  shows "keeps P w w'"
proof -
  let ?c = "start_context q sv w" and ?dir = "run_dir (sv_store sv) (q_run_id q)"
  obtain x d where run: "run_chain v (build_default_registry v) (chain_of (q_task_type q)) ?c = (x, d)"
    by fastforce
  then have w': "w' = x_world d" using assms(4) by (simp add: execute_def resolve_task_type)
  have "confined P ?dir (locate w ?dir) (sv_repo sv) ?c"
    using assms(3) by (simp add: confined_def services_keep_def start_context_def x_run_id_def)
  moreover have "bounded P ?dir (locate w ?dir) (sv_repo sv) ?c d"
    by (rule stepsD [OF bounded_run_chain [OF assms(1,2)] run])
  ultimately have "keeps P (x_world ?c) (x_world d)" unfolding bounded_def by blast
  then show ?thesis by (simp add: w' start_context_def)
qed

section \<open>Properties\<close>

text \<open>
  C10: a run writes only below its evidence directory, and makes that directory with what is missing
  above it.  Take any places that are neither below nor above that directory and that the commands of
  the shell, git, the tools and the models' adapters leave alone: whatever the task type, the request
  and the outcome, an exception included, every file at these places has the bytes it had and none was
  made there; and a place that is protected with all that lies below it is a directory just when it was.
\<close>

theorem runs_write_below_evidence:
  assumes "execute v (build_default_registry v) q sv w = (r, w')"
    and "outside P (locate w (run_dir (sv_store sv) (q_run_id q)))"
    and "sealed P v" and "services_keep P sv"
  shows "w_cwd w' = w_cwd w
    \<and> (\<forall>m. P m \<longrightarrow> file_at w' m = file_at w m)
    \<and> (\<forall>m. (\<forall>k. prefix m k \<longrightarrow> P k) \<longrightarrow> dir_at w' m = dir_at w m)"
proof -
  have k: "keeps P w w'" by (rule execute_keeps [OF assms(2-4,1)])
  then have "w_cwd w' = w_cwd w" by (simp add: keeps_def)
  then show ?thesis using keeps_at [OF k] keeps_dir [OF k] by blast
qed

text \<open>The sample run leaves the evidence of other runs as it is, and makes no directory among it.\<close>

definition other_run :: "string list" where
  "other_run = [''store'', ''other'']"

definition shared_world :: world where
  "shared_world = sample_world\<lparr>w_files := [(other_run @ [''notes.txt''], ''kept'')]\<rparr>"

theorem runs_write_below_evidence_witness:
  "\<exists>r w'. execute sample_env (build_default_registry sample_env) full_request sample_services shared_world = (r, w')
    \<and> file_at w' (other_run @ [''notes.txt'']) = Some ''kept''
    \<and> dir_at w' other_run \<and> \<not> dir_at w' (other_run @ [''new''])"
proof -
  obtain r w' where run: "execute sample_env (build_default_registry sample_env) full_request sample_services shared_world = (r, w')"
    by force
  let ?P = "prefix other_run"
  have "locate shared_world (run_dir (sv_store sample_services) (q_run_id full_request)) = [''store'', ''run'']"
    by code_simp
  then have "outside ?P (locate shared_world (run_dir (sv_store sample_services) (q_run_id full_request)))"
    by (auto simp: outside_def apart_def other_run_def prefix_def)
  moreover have "sealed ?P sample_env"
    by (simp add: sealed_def sample_env_def keeping.steps_ret)
  moreover have "services_keep ?P sample_services"
    by (simp add: services_keep_def sample_services_def adapters_keep_def)
  ultimately have kept: "(\<forall>m. ?P m \<longrightarrow> file_at w' m = file_at shared_world m)
      \<and> (\<forall>m. (\<forall>k. prefix m k \<longrightarrow> ?P k) \<longrightarrow> dir_at w' m = dir_at shared_world m)"
    using runs_write_below_evidence [OF run] by blast
  have "dir_at w' other_run = dir_at shared_world other_run"
    "dir_at w' (other_run @ [''new'']) = dir_at shared_world (other_run @ [''new''])"
    "file_at w' (other_run @ [''notes.txt'']) = file_at shared_world (other_run @ [''notes.txt''])"
    using kept by (auto intro: append_prefixD)
  moreover have "dir_at shared_world other_run" "\<not> dir_at shared_world (other_run @ [''new''])"
    "file_at shared_world (other_run @ [''notes.txt'']) = Some ''kept''"
    by code_simp+
  ultimately have "file_at w' (other_run @ [''notes.txt'']) = Some ''kept'' \<and> dir_at w' other_run
      \<and> \<not> dir_at w' (other_run @ [''new''])" by metis
  with run show ?thesis by metis
qed

end
