(* ===== verification/Run_Store.thy ===== *)
theory Run_Store
  imports Storage
begin

text \<open>
  Run persistence: the verifier report (\<open>schemas/verifier_report.py\<close>), the run record and its
  attempts (\<open>storage/run_records.py\<close>), the repository port with its in-memory adapter
  (\<open>storage/run_repository.py\<close>), the snapshot codec (\<open>storage/run_serialization.py\<close>) and the
  Postgres adapter (\<open>storage/postgres_run_repository.py\<close>) as the statements it issues on the
  tables of \<open>0001_init.sql\<close>.  The printers and readers of the four models in a record are an
  argument (\<open>models\<close>); those of the schema classes are \<open>schema_models\<close> in \<open>Schema_Printers\<close>.
\<close>

section \<open>Records\<close>

datatype pass_fail = PF_PASS | PF_FAIL

fun pass_fail_value :: "pass_fail \<Rightarrow> string" where
  "pass_fail_value PF_PASS = ''PASS''"
| "pass_fail_value PF_FAIL = ''FAIL''"

datatype pass_fail_na = NA_PASS | NA_FAIL | NA_NOT_APPLICABLE

fun pass_fail_na_value :: "pass_fail_na \<Rightarrow> string" where
  "pass_fail_na_value NA_PASS = ''PASS''"
| "pass_fail_na_value NA_FAIL = ''FAIL''"
| "pass_fail_na_value NA_NOT_APPLICABLE = ''NOT_APPLICABLE''"

datatype pr_gate_literal = PL_PASS | PL_FAIL | PL_NOT_READY

fun pr_gate_literal_value :: "pr_gate_literal \<Rightarrow> string" where
  "pr_gate_literal_value PL_PASS = ''PASS''"
| "pr_gate_literal_value PL_FAIL = ''FAIL''"
| "pr_gate_literal_value PL_NOT_READY = ''NOT_READY''"

record sp_gate_report =
  vg_change_amplification :: pass_fail
  vg_cognitive_load :: pass_fail
  vg_unknown_unknowns :: pass_fail
  vg_deep_module :: pass_fail
  vg_interface_simplicity :: pass_fail
  vg_error_design :: pass_fail
  vg_duplication :: pass_fail
  vg_scope_control :: pass_fail

record verifier_report =
  vr_task_id :: string
  vr_run_id :: string
  vr_verifier_id :: string
  vr_verifier_run_id :: string
  vr_coding_agent_run_id :: string
  vr_same_agent_verifier_check :: pass_fail
  vr_functional_acceptance :: pass_fail
  vr_test_status :: pass_fail_na
  vr_lint_status :: pass_fail_na
  vr_typecheck_status :: pass_fail_na
  vr_build_status :: pass_fail_na
  vr_scope_status :: pass_fail
  vr_strategic_programming_gate :: sp_gate_report
  vr_evidence_status :: pass_fail
  vr_pr_gate_status :: pr_gate_literal
  vr_decision :: decision
  vr_failure_reasons :: "string list"
  vr_required_corrections :: "string list"
  vr_timestamp :: string

definition new_verifier_report :: "string \<Rightarrow> string \<Rightarrow> string \<Rightarrow> string \<Rightarrow> string \<Rightarrow> verifier_report" where
  "new_verifier_report task_id run_id verifier_id verifier_run_id coding_agent_run_id =
     \<lparr>vr_task_id = task_id, vr_run_id = run_id, vr_verifier_id = verifier_id,
      vr_verifier_run_id = verifier_run_id, vr_coding_agent_run_id = coding_agent_run_id,
      vr_same_agent_verifier_check = PF_PASS, vr_functional_acceptance = PF_FAIL,
      vr_test_status = NA_NOT_APPLICABLE, vr_lint_status = NA_NOT_APPLICABLE,
      vr_typecheck_status = NA_NOT_APPLICABLE, vr_build_status = NA_NOT_APPLICABLE,
      vr_scope_status = PF_FAIL,
      vr_strategic_programming_gate =
        \<lparr>vg_change_amplification = PF_PASS, vg_cognitive_load = PF_PASS,
         vg_unknown_unknowns = PF_PASS, vg_deep_module = PF_PASS,
         vg_interface_simplicity = PF_PASS, vg_error_design = PF_PASS,
         vg_duplication = PF_PASS, vg_scope_control = PF_PASS\<rparr>,
      vr_evidence_status = PF_FAIL, vr_pr_gate_status = PL_NOT_READY, vr_decision = D_PENDING,
      vr_failure_reasons = [], vr_required_corrections = [], vr_timestamp = []\<rparr>"

record run_attempt =
  at_attempt_id :: string
  at_attempt_number :: int
  at_base_commit :: "string option"
  at_workspace_id :: "string option"
  at_final_status :: "string option"
  at_created_at :: "string option"

record run_record =
  rr_run_id :: string
  rr_manifest :: run_manifest
  rr_state :: string
  rr_verifier_report :: "verifier_report option"
  rr_chain_result :: "json option"
  rr_chain_execution_result :: "chain_result option"
  rr_llm_invocations :: "json list"
  rr_tenant_id :: "string option"
  rr_attempts :: "run_attempt list"
  rr_artifacts :: "artifact list"

definition new_run_record :: "string \<Rightarrow> run_manifest \<Rightarrow> run_record" where
  "new_run_record run_id manifest =
     \<lparr>rr_run_id = run_id, rr_manifest = manifest, rr_state = ''INTAKE'', rr_verifier_report = None,
      rr_chain_result = None, rr_chain_execution_result = None, rr_llm_invocations = [],
      rr_tenant_id = None, rr_attempts = [], rr_artifacts = []\<rparr>"

section \<open>The in-memory repository\<close>

type_synonym run_repository = "(string, run_record) dict"

definition repo_add :: "run_record \<Rightarrow> run_repository \<Rightarrow> run_repository" where
  "repo_add record runs = dict_set (rr_run_id record) record runs"

definition repo_save :: "run_record \<Rightarrow> run_repository \<Rightarrow> run_repository" where
  "repo_save record runs = dict_set (rr_run_id record) record runs"

definition repo_get :: "run_repository \<Rightarrow> string \<Rightarrow> run_record option" where
  "repo_get runs run_id = map_of runs run_id"

definition repo_list :: "run_repository \<Rightarrow> run_record list" where
  "repo_list runs = map snd runs"

interpretation runs: kv_store dict_set repo_get
  by unfold_locales (simp_all add: repo_get_def)

text \<open>Every record stands under its own run id, once.\<close>

definition repo_wf :: "run_repository \<Rightarrow> bool" where
  "repo_wf runs \<longleftrightarrow> distinct (map fst runs) \<and> list_all (\<lambda>(k, r). rr_run_id r = k) runs"

lemma dict_set_all:
  "list_all P d \<Longrightarrow> P (k, v) \<Longrightarrow> list_all P (dict_set k v d)"
  by (induction k v d rule: dict_set.induct) auto

lemma repo_wf_save: "repo_wf runs \<Longrightarrow> repo_wf (repo_save r runs)"
  by (simp add: repo_wf_def repo_save_def distinct_dict_set dict_set_all)

lemma repo_wf_get: "repo_wf runs \<Longrightarrow> repo_get runs k = Some r \<Longrightarrow> rr_run_id r = k"
  by (auto simp: repo_wf_def repo_get_def list_all_iff dest: map_of_SomeD)

section \<open>Snapshots\<close>

text \<open>A printer and the reader that undoes it.\<close>

locale codec =
  fixes dump :: "'a \<Rightarrow> json" and load :: "json \<Rightarrow> 'a res"
  assumes load_dump: "load (dump x) = Inr x"
begin

lemma load_dumps: "res_map load (map dump xs) = Inr xs"
  by (induction xs) (simp_all add: load_dump)

end

definition opt_json :: "('a \<Rightarrow> json) \<Rightarrow> 'a option \<Rightarrow> json" where
  "opt_json f x = (case x of None \<Rightarrow> JNull | Some y \<Rightarrow> f y)"

text \<open>\<open>asdict(attempt)\<close> and \<open>RunAttempt(**a)\<close>.\<close>

definition attempt_json :: "run_attempt \<Rightarrow> json" where
  "attempt_json a = JObj
     [(''attempt_id'', JStr (at_attempt_id a)),
      (''attempt_number'', JInt (at_attempt_number a)),
      (''base_commit'', opt_json JStr (at_base_commit a)),
      (''workspace_id'', opt_json JStr (at_workspace_id a)),
      (''final_status'', opt_json JStr (at_final_status a)),
      (''created_at'', opt_json JStr (at_created_at a))]"

text \<open>
  A dataclass checks its keywords, not the types of their values: a value of another type than
  the declared one is stored by Python and refused here.
\<close>

definition attempt_keys :: "string list" where
  "attempt_keys = [''attempt_id'', ''attempt_number'', ''base_commit'', ''workspace_id'',
                   ''final_status'', ''created_at'']"

fun opt_str :: "json \<Rightarrow> string option res" where
  "opt_str JNull = Inr None"
| "opt_str (JStr s) = Inr (Some s)"
| "opt_str _ = Inl TypeError"

fun attempt_of_json :: "json \<Rightarrow> run_attempt res" where
  "attempt_of_json (JObj d) =
     (if \<not> list_all (\<lambda>k. k \<in> set attempt_keys) (map fst d) then Inl TypeError
      else case (dget d ''attempt_id'', dget d ''attempt_number'', opt_str (dget d ''base_commit''),
                 opt_str (dget d ''workspace_id''), opt_str (dget d ''final_status''),
                 opt_str (dget d ''created_at'')) of
        (JStr i, JInt n, Inr base, Inr ws, Inr final, Inr created) \<Rightarrow>
          Inr \<lparr>at_attempt_id = i, at_attempt_number = n, at_base_commit = base,
               at_workspace_id = ws, at_final_status = final, at_created_at = created\<rparr>
      | _ \<Rightarrow> Inl TypeError)"
| "attempt_of_json _ = Inl TypeError"

lemma opt_str_opt_json [simp]: "opt_str (opt_json JStr x) = Inr x"
  by (cases x) (simp_all add: opt_json_def)

interpretation attempts: codec attempt_json attempt_of_json
  by unfold_locales (simp add: attempt_json_def attempt_keys_def dget_def dget_or_def)

text \<open>Pydantic's \<open>model_dump(mode="json")\<close> and the constructors of the four models in a record.\<close>

record models =
  md_manifest :: "run_manifest \<Rightarrow> json"
  md_report :: "verifier_report \<Rightarrow> json"
  md_result :: "chain_result \<Rightarrow> json"
  md_artifact :: "artifact \<Rightarrow> json"
  ld_manifest :: "json \<Rightarrow> run_manifest res"
  ld_report :: "json \<Rightarrow> verifier_report res"
  ld_result :: "json \<Rightarrow> chain_result res"
  ld_artifact :: "json \<Rightarrow> artifact res"

definition record_to_snapshot :: "models \<Rightarrow> run_record \<Rightarrow> jdict" where
  "record_to_snapshot md r =
     [(''run_id'', JStr (rr_run_id r)),
      (''state'', JStr (rr_state r)),
      (''tenant_id'', opt_json JStr (rr_tenant_id r)),
      (''manifest'', md_manifest md (rr_manifest r)),
      (''verifier_report'', opt_json (md_report md) (rr_verifier_report r)),
      (''chain_result'', opt_json id (rr_chain_result r)),
      (''chain_execution_result'', opt_json (md_result md) (rr_chain_execution_result r)),
      (''llm_invocations'', JArr (rr_llm_invocations r)),
      (''attempts'', JArr (map attempt_json (rr_attempts r))),
      (''artifacts'', JArr (map (md_artifact md) (rr_artifacts r)))]"

definition opt_load :: "(json \<Rightarrow> 'a res) \<Rightarrow> json \<Rightarrow> 'a option res" where
  "opt_load f v = (if v = JNull then Inr None else map_sum id Some (f v))"

text \<open>\<open>snapshot.get(k) or []\<close>, then a list; a value that is no list is not modelled.\<close>

fun list_or_empty :: "json \<Rightarrow> json list res" where
  "list_or_empty (JArr xs) = Inr xs"
| "list_or_empty v = (if truthy v then Inl TypeError else Inr [])"

fun key_str :: "json option \<Rightarrow> string res" where
  "key_str (Some (JStr s)) = Inr s"
| "key_str (Some _) = Inl TypeError"
| "key_str None = Inl KeyError"

definition resB :: "'a res \<Rightarrow> ('a \<Rightarrow> 'b res) \<Rightarrow> 'b res" where
  "resB m f = (case m of Inl e \<Rightarrow> Inl e | Inr x \<Rightarrow> f x)"

lemma resB_simps [simp]: "resB (Inr x) f = f x" "resB (Inl e) f = Inl e"
  by (simp_all add: resB_def)

definition record_from_snapshot :: "models \<Rightarrow> jdict \<Rightarrow> run_record res" where
  "record_from_snapshot md d =
     resB (key_str (map_of d ''run_id'')) (\<lambda>run_id.
     resB (case map_of d ''manifest'' of None \<Rightarrow> Inl KeyError | Some m \<Rightarrow> ld_manifest md m) (\<lambda>manifest.
     resB (as_str (dget_or d ''state'' (JStr ''INTAKE''))) (\<lambda>state.
     resB (opt_load (ld_report md) (dget d ''verifier_report'')) (\<lambda>report.
     resB (opt_load (ld_result md) (dget d ''chain_execution_result'')) (\<lambda>result.
     resB (list_or_empty (dget d ''llm_invocations'')) (\<lambda>llm.
     resB (opt_str (dget d ''tenant_id'')) (\<lambda>tenant.
     resB (list_or_empty (dget d ''attempts'')) (\<lambda>ats.
     resB (res_map attempt_of_json ats) (\<lambda>attempts.
     resB (list_or_empty (dget d ''artifacts'')) (\<lambda>arts.
     resB (res_map (ld_artifact md) arts) (\<lambda>artifacts.
     Inr \<lparr>rr_run_id = run_id, rr_manifest = manifest, rr_state = state, rr_verifier_report = report,
          rr_chain_result = (let c = dget d ''chain_result'' in if c = JNull then None else Some c),
          rr_chain_execution_result = result, rr_llm_invocations = llm, rr_tenant_id = tenant,
          rr_attempts = attempts, rr_artifacts = artifacts\<rparr>)))))))))))"

section \<open>What a snapshot keeps\<close>

text \<open>
  The chain result declares its list of evidence artifacts with \<open>exclude=True\<close>: it is printed without
  it, and read back with an empty one.  A plan of null cannot be told from no plan.
\<close>

definition shown_result :: "chain_result \<Rightarrow> chain_result" where
  "shown_result x = x\<lparr>r_evidence_artifacts := []\<rparr>"

definition reread :: "run_record \<Rightarrow> run_record" where
  "reread r = r
     \<lparr>rr_chain_result := (if rr_chain_result r = Some JNull then None else rr_chain_result r),
      rr_chain_execution_result := map_option shown_result (rr_chain_execution_result r)\<rparr>"

lemma shown_result_idem [simp]: "shown_result (shown_result x) = shown_result x"
  by (simp add: shown_result_def)

lemma shown_result_sel [simp]:
  "r_run_id (shown_result x) = r_run_id x" "r_task_id (shown_result x) = r_task_id x"
  "r_final_status (shown_result x) = r_final_status x" "r_verifier_decision (shown_result x) = r_verifier_decision x"
  "r_handler_results (shown_result x) = r_handler_results x" "r_evidence_artifacts (shown_result x) = []"
  by (simp_all add: shown_result_def)

lemma reread_sel [simp]:
  "rr_run_id (reread r) = rr_run_id r" "rr_manifest (reread r) = rr_manifest r" "rr_state (reread r) = rr_state r"
  "rr_verifier_report (reread r) = rr_verifier_report r" "rr_llm_invocations (reread r) = rr_llm_invocations r"
  "rr_tenant_id (reread r) = rr_tenant_id r" "rr_attempts (reread r) = rr_attempts r"
  "rr_artifacts (reread r) = rr_artifacts r"
  "rr_chain_execution_result (reread r) = map_option shown_result (rr_chain_execution_result r)"
  "rr_chain_result (reread r) = (if rr_chain_result r = Some JNull then None else rr_chain_result r)"
  by (simp_all add: reread_def)

lemma reread_idem [simp]: "reread (reread r) = reread r"
  by (simp add: reread_def option.map_comp comp_def)

lemma reread_same: "rr_chain_result r \<noteq> Some JNull \<Longrightarrow> rr_chain_execution_result r = None \<Longrightarrow> reread r = r"
  by (simp add: reread_def)

text \<open>
  Printers and readers that lose nothing but what the schema excludes.  A model is printed as an
  object, never as null.
\<close>

definition reads_as :: "('a \<Rightarrow> json) \<Rightarrow> (json \<Rightarrow> 'a res) \<Rightarrow> ('a \<Rightarrow> 'a) \<Rightarrow> bool" where
  "reads_as dump load f \<longleftrightarrow> (\<forall>x. load (dump x) = Inr (f x) \<and> dump x \<noteq> JNull)"

definition faithful :: "models \<Rightarrow> bool" where
  "faithful md \<longleftrightarrow> reads_as (md_manifest md) (ld_manifest md) id
   \<and> reads_as (md_report md) (ld_report md) id
   \<and> reads_as (md_result md) (ld_result md) shown_result
   \<and> reads_as (md_artifact md) (ld_artifact md) id"

lemma opt_load_json:
  "reads_as dump load f \<Longrightarrow> opt_load load (opt_json dump x) = Inr (map_option f x)"
  by (cases x) (simp_all add: opt_load_def opt_json_def reads_as_def)

lemma res_map_reads_as: "reads_as dump load f \<Longrightarrow> res_map load (map dump xs) = Inr (map f xs)"
  by (induction xs) (simp_all add: reads_as_def)

lemma snapshot_round_trip:
  assumes "faithful md"
  shows "record_from_snapshot md (record_to_snapshot md r) = Inr (reread r)"
proof -
  have "ld_manifest md (md_manifest md m) = Inr m" for m
    using assms by (simp add: faithful_def reads_as_def)
  moreover have "opt_load (ld_report md) (opt_json (md_report md) p) = Inr p" for p
    using assms opt_load_json [of "md_report md" "ld_report md" id] by (simp add: faithful_def option.map_id)
  moreover have "opt_load (ld_result md) (opt_json (md_result md) x) = Inr (map_option shown_result x)" for x
    using assms opt_load_json [of "md_result md" "ld_result md" shown_result] by (simp add: faithful_def)
  moreover have "res_map (ld_artifact md) (map (md_artifact md) as) = Inr as" for as
    using assms res_map_reads_as [of "md_artifact md" "ld_artifact md" id] by (simp add: faithful_def)
  ultimately show ?thesis
    by (simp add: record_from_snapshot_def record_to_snapshot_def dget_def dget_or_def attempts.load_dumps reread_def)
       (auto simp: opt_json_def split: option.split)
qed

text \<open>A run with an attempt, for the examples.\<close>

definition attempted_record :: run_record where
  "attempted_record =
     (new_run_record ''r1'' ((default_manifest RT_IMPLEMENTATION)\<lparr>m_run_id := ''r1''\<rparr>))
       \<lparr>rr_state := ''EXECUTE_CHAIN'', rr_tenant_id := Some ''t'',
        rr_attempts := [\<lparr>at_attempt_id = ''r1-a1'', at_attempt_number = 1, at_base_commit = None,
          at_workspace_id = Some ''w'', at_final_status = Some ''FAIL'', at_created_at = None\<rparr>]\<rparr>"

end
