(* ===== verification/Runtime.thy ===== *)
theory Runtime
  imports Default_Registry Run_Store Agents Tools
begin

text \<open>
  The runtime spine: the workspace policy (\<open>runtime/workspace_policy.py\<close>), the allocation of
  attempts (\<open>runtime/workspace_allocator.py\<close>) and the executor the API uses
  (\<open>runtime/runtime_executor.py\<close>).  Where the repository and the temporary directory lie on
  the host is a parameter of the settings.
\<close>

section \<open>Workspace policy\<close>

text \<open>\<open>Path.resolve\<close> without symbolic links, and \<open>Path.parts\<close> with its root.\<close>

definition resolve_path :: "world \<Rightarrow> ppath \<Rightarrow> ppath" where
  "resolve_path w p = \<lparr>p_slashes = 1, p_parts = locate w p\<rparr>"

definition path_parts :: "ppath \<Rightarrow> string list" where
  "path_parts p = (if p_slashes p = 0 then [] else [replicate (p_slashes p) CHR ''/'']) @ p_parts p"

text \<open>An execution path as the caller gives it: none, a string, or a path already.\<close>

datatype path_arg = NoPath | PathStr string | PathObj ppath

fun path_text :: "path_arg \<Rightarrow> string" where
  "path_text NoPath = []"
| "path_text (PathStr s) = s"
| "path_text (PathObj p) = str_path p"

fun path_of_arg :: "path_arg \<Rightarrow> ppath" where
  "path_of_arg (PathStr s) = parse_path s"
| "path_of_arg (PathObj p) = p"
| "path_of_arg NoPath = parse_path []"

fun nested_duplicate :: "string list \<Rightarrow> string option" where
  "nested_duplicate (a # b # xs) =
     (if a = b \<and> a \<noteq> ''/'' \<and> a \<noteq> [backslash] then Some a else nested_duplicate (b # xs))"
| "nested_duplicate _ = None"

definition workspace_policy :: "world \<Rightarrow> ppath \<Rightarrow> ppath" where
  "workspace_policy w allowed_root = resolve_path w allowed_root"

definition within_root :: "ppath \<Rightarrow> ppath \<Rightarrow> bool" where
  "within_root root p \<longleftrightarrow> prefix (p_parts root) (p_parts p)"

text \<open>
  What the operating system refuses to look at: a path of more than 4095 bytes, and a segment of more
  than 255 under a directory that is there.  \<open>exists\<close> raises the error.
\<close>

definition name_too_long :: "world \<Rightarrow> ppath \<Rightarrow> bool" where
  "name_too_long w p \<longleftrightarrow> length (utf8 (str_path p)) > 4095
     \<or> list_ex (\<lambda>i. length (utf8 (p_parts p ! i)) > 255 \<and> dir_at w (take i (p_parts p))) [0..<length (p_parts p)]"

text \<open>\<open>resolve\<close> looks at every segment and raises a plain \<open>ValueError\<close> at a NUL.\<close>

definition has_nul :: "ppath \<Rightarrow> bool" where
  "has_nul p \<longleftrightarrow> list_ex (\<lambda>x. CHR 0x00 \<in> set x) (p_parts p)"

definition NAME_TOO_LONG :: exn where
  "NAME_TOO_LONG = OSError ''File name too long''"

definition workspace_resolve :: "world \<Rightarrow> ppath \<Rightarrow> path_arg \<Rightarrow> ppath res" where
  "workspace_resolve w root arg =
     (if strip (path_text arg) = [] then Inl (WorkspacePolicyError ''empty repo path'')
      else case nested_duplicate (path_parts (path_of_arg arg)) of
        Some a \<Rightarrow> Inl (WorkspacePolicyError (''nested duplicate path segment: '' @ a))
      | None \<Rightarrow>
          if has_nul (path_of_arg arg) then Inl (ValueError ''embedded null byte'') else
          let resolved = resolve_path w (path_of_arg arg) in
          if resolved \<noteq> root \<and> \<not> within_root root resolved
          then Inl (WorkspacePolicyError (''path outside allowed workspace ('' @ str_path root @ ''): ''
                      @ str_path resolved))
          else if name_too_long w resolved then Inl NAME_TOO_LONG
          else if \<not> path_exists w resolved
          then Inl (WorkspacePolicyError (''repo path does not exist: '' @ str_path resolved))
          else Inr resolved)"

section \<open>Attempts\<close>

record workspace_allocation =
  wa_attempt :: run_attempt
  wa_execution_path :: ppath

definition attempt_id :: "string \<Rightarrow> nat \<Rightarrow> string" where
  "attempt_id run_id n = run_id @ ''-a'' @ dec n"

definition allocate ::
    "env \<Rightarrow> ppath \<Rightarrow> run_record \<Rightarrow> path_arg \<Rightarrow> (world, workspace_allocation) comp" where
  "allocate v root record requested =
     bindC (getC id) (\<lambda>w.
     bindC (liftC (workspace_resolve w root requested)) (\<lambda>resolved.
     let n = length (rr_attempts record) + 1 in
     bindC (git_head_commit v resolved) (\<lambda>base.
     bindC (read_clock (v_now v)) (\<lambda>now.
     ret \<lparr>wa_attempt =
            \<lparr>at_attempt_id = attempt_id (rr_run_id record) n, at_attempt_number = int n,
             at_base_commit = base,
             at_workspace_id = Some (''workspace-'' @ attempt_id (rr_run_id record) n),
             at_final_status = None, at_created_at = Some now\<rparr>,
          wa_execution_path = resolved\<rparr>))))"

section \<open>The runtime executor\<close>

record agent_config =
  ag_specs :: "model_spec list"
  ag_adapters :: "(string, llm_adapter) dict"

definition no_agents :: agent_config where
  "no_agents = \<lparr>ag_specs = [], ag_adapters = []\<rparr>"

definition agent_configured :: "agent_config \<Rightarrow> bool" where
  "agent_configured a \<longleftrightarrow> ag_specs a \<noteq> []"

definition ANALYSIS_AGENT_RUN_ID :: string where
  "ANALYSIS_AGENT_RUN_ID = ''analysis-agent-run''"

definition default_model_spec :: "model_role \<Rightarrow> model_spec" where
  "default_model_spec role =
     \<lparr>ms_model_id = [], ms_provider = [], ms_role = role, ms_model_run_id = [],
      ms_permissions = [], ms_temperature = ''0'', ms_top_p = ''1'', ms_seed = 23,
      ms_prompt_hash = [], ms_parallel_tool_calls = False,
      ms_rate_limit = \<lparr>rl_requests_per_min = 0, rl_tokens_per_min = 0\<rparr>,
      ms_fallback_model_id = [], ms_max_retries = 0\<rparr>"

definition fake_analysis_config :: agent_config where
  "fake_analysis_config =
     \<lparr>ag_specs = [(default_model_spec MR_ANALYST)
        \<lparr>ms_model_id := ''fake-analyst'', ms_provider := ''fake'',
         ms_model_run_id := ANALYSIS_AGENT_RUN_ID\<rparr>],
      ag_adapters = [(''fake'', fake_analysis_adapter)]\<rparr>"

record runtime_settings =
  rt_workspace_root :: ppath
  rt_artifacts_root :: ppath
  rt_provider_mode :: string
  rt_production_mode :: bool

text \<open>The settings are one object; \<open>configure\<close> sets the attributes it is given.\<close>

datatype override =
    Workspace_Root ppath
  | Artifacts_Root ppath
  | Provider_Mode string
  | Production_Mode bool

fun apply_override :: "override \<Rightarrow> runtime_settings \<Rightarrow> runtime_settings" where
  "apply_override (Workspace_Root p) s = s\<lparr>rt_workspace_root := p\<rparr>"
| "apply_override (Artifacts_Root p) s = s\<lparr>rt_artifacts_root := p\<rparr>"
| "apply_override (Provider_Mode m) s = s\<lparr>rt_provider_mode := m\<rparr>"
| "apply_override (Production_Mode b) s = s\<lparr>rt_production_mode := b\<rparr>"

definition configure :: "override list \<Rightarrow> runtime_settings \<Rightarrow> runtime_settings" where
  "configure overrides s = fold apply_override overrides s"

definition settings_agent_config :: "runtime_settings \<Rightarrow> agent_config" where
  "settings_agent_config s =
     (if rt_provider_mode s = ''fake'' then fake_analysis_config else no_agents)"

record runtime_executor =
  re_root :: ppath
  re_artifacts_root :: ppath
  re_agents :: agent_config
  re_tools :: tool_registry
  re_handlers :: handler_registry

definition build_runtime_executor :: "env \<Rightarrow> world \<Rightarrow> runtime_settings \<Rightarrow> runtime_executor res" where
  "build_runtime_executor v w s =
     map_sum id (\<lambda>tools.
       \<lparr>re_root = workspace_policy w (rt_workspace_root s), re_artifacts_root = rt_artifacts_root s,
        re_agents = settings_agent_config s, re_tools = tools,
        re_handlers = build_default_registry v\<rparr>)
       (build_tool_registry DEFAULT_TOOLS [])"

text \<open>No manifest and no Scrum mapping reach the context this way.\<close>

definition runtime_services :: "runtime_executor \<Rightarrow> ppath \<Rightarrow> string option \<Rightarrow> services" where
  "runtime_services x repo attempt =
     \<lparr>sv_store = \<lparr>st_root = re_artifacts_root x, st_attempt_id = attempt\<rparr>, sv_repo = repo,
      sv_manifest = None, sv_scrum = None, sv_agent_specs = ag_specs (re_agents x),
      sv_agent_adapters = ag_adapters (re_agents x), sv_tool_registry = Some (re_tools x),
      sv_tool_policy = Some (re_tools x)\<rparr>"

definition runtime_execute ::
    "env \<Rightarrow> runtime_executor \<Rightarrow> chain_request \<Rightarrow> path_arg \<Rightarrow> string option \<Rightarrow> (world, chain_result) comp" where
  "runtime_execute v x q execution_path attempt =
     bindC (getC id) (\<lambda>w.
     bindC (liftC (workspace_resolve w (re_root x) execution_path)) (\<lambda>repo.
     execute v (re_handlers x) q (runtime_services x repo attempt)))"

section \<open>What the policy admits\<close>

lemma collapse_up: "''..'' \<notin> set acc \<Longrightarrow> ''..'' \<notin> set (collapse acc xs)"
proof (induction acc xs rule: collapse.induct)
  case (2 acc x xs)
  have "''..'' \<notin> set (tl acc)" using 2(3) by (cases acc) auto
  then show ?case using 2 by auto
qed simp

lemma collapse_plain: "''..'' \<notin> set xs \<Longrightarrow> collapse acc xs = rev acc @ xs"
  by (induction xs arbitrary: acc) auto

lemma locate_plain: "''..'' \<notin> set (locate w p)"
  by (simp add: locate_def collapse_up)

text \<open>Resolving twice is resolving once.\<close>

lemma locate_resolved [simp]: "locate w (resolve_path w p) = locate w p"
  using locate_plain [of w p] by (simp add: resolve_path_def locate_def [of w "\<lparr>p_slashes = _, p_parts = _\<rparr>"] collapse_plain)

lemma resolve_path_idem [simp]: "resolve_path w (resolve_path w p) = resolve_path w p"
  by (simp add: resolve_path_def [of w "resolve_path w p"]) (simp add: resolve_path_def)

lemma workspace_resolve_Inr:
  assumes "workspace_resolve w root arg = Inr p"
  shows "p = resolve_path w (path_of_arg arg)" and "within_root root p" and "path_exists w p"
    and "nested_duplicate (path_parts (path_of_arg arg)) = None"
    and "\<not> has_nul (path_of_arg arg)" and "\<not> name_too_long w p"
  using assms
  by (auto simp: workspace_resolve_def Let_def within_root_def split: if_splits option.splits)

text \<open>The exceptions are the policy's own, but for the two of the path operations.\<close>

lemma workspace_resolve_Inl:
  assumes "workspace_resolve w root arg = Inl e"
  shows "(\<exists>m. e = WorkspacePolicyError m)
    \<or> (e = ValueError ''embedded null byte'' \<and> has_nul (path_of_arg arg))
    \<or> (e = OSError ''File name too long'' \<and> name_too_long w (resolve_path w (path_of_arg arg))
         \<and> (resolve_path w (path_of_arg arg) = root \<or> within_root root (resolve_path w (path_of_arg arg))))"
  using assms
  by (auto simp: workspace_resolve_def Let_def NAME_TOO_LONG_def split: if_splits option.splits)

lemma nested_duplicate_None:
  "nested_duplicate xs = None \<Longrightarrow> Suc i < length xs \<Longrightarrow> xs ! i = xs ! Suc i \<Longrightarrow>
   xs ! i = ''/'' \<or> xs ! i = [backslash]"
proof (induction xs arbitrary: i rule: nested_duplicate.induct)
  case (1 a b xs)
  then show ?case by (cases i) (auto split: if_splits)
qed auto

text \<open>The numbers of the attempts of a run can be read off their ids.\<close>

lemma dec_no_a: "CHR ''a'' \<notin> set (dec n)"
proof (induction n rule: dec.induct)
  case (1 n)
  have digit: "digit k \<noteq> CHR ''a''" if "k < 10" for k
  proof
    assume "digit k = CHR ''a''"
    then have "(of_char (digit k) :: nat) = 97" by simp
    then show False using that by (simp add: of_char_digit)
  qed
  show ?case using 1 digit [of n, symmetric] digit [of "n mod 10", symmetric]
    by (subst dec.simps) auto
qed

lemma attempt_id_inject: "attempt_id r m = attempt_id s n \<longleftrightarrow> r = s \<and> m = n"
proof
  assume eq: "attempt_id r m = attempt_id s n"
  have tail: "takeWhile (\<lambda>c. c \<noteq> CHR ''a'') (rev (attempt_id u k)) = rev (dec k)" for u k
    using dec_no_a [of k] by (simp add: attempt_id_def takeWhile_append)
  have "dec m = dec n" using tail [of r m] tail [of s n] eq by (metis rev_rev_ident)
  then show "r = s \<and> m = n" using eq undec_dec [of m] undec_dec [of n] by (simp add: attempt_id_def)
qed simp

section \<open>Properties\<close>

text \<open>
  C23: a path the workspace policy admits exists and lies in the allowed root, with every dot-dot
  segment gone and no NUL in it, and resolving it again changes nothing.  What it refuses it refuses
  with the policy's own error, but for two cases the path operations decide: a NUL in the path is a
  plain \<open>ValueError\<close>, and a name the system finds too long, inside the root only, an \<open>OSError\<close>.
\<close>

theorem admitted_path_is_confined:
  assumes "workspace_resolve w base arg = r"
  shows "case r of
      Inr p \<Rightarrow> within_root base p \<and> path_exists w p \<and> ''..'' \<notin> set (p_parts p) \<and> resolve_path w p = p
        \<and> \<not> has_nul (path_of_arg arg) \<and> \<not> name_too_long w p
    | Inl e \<Rightarrow> (\<exists>m. e = WorkspacePolicyError m)
        \<or> (e = ValueError ''embedded null byte'' \<and> has_nul (path_of_arg arg))
        \<or> (e = OSError ''File name too long'' \<and> name_too_long w (resolve_path w (path_of_arg arg))
             \<and> (resolve_path w (path_of_arg arg) = base \<or> within_root base (resolve_path w (path_of_arg arg))))"
proof (cases r)
  case (Inl e)
  then show ?thesis using workspace_resolve_Inl [of w base arg e] assms by simp
next
  case (Inr p)
  note spec = workspace_resolve_Inr [OF assms [unfolded Inr]]
  have "''..'' \<notin> set (p_parts p)" using locate_plain by (simp add: spec(1) resolve_path_def)
  moreover have "resolve_path w p = p" by (simp add: spec(1))
  ultimately show ?thesis using Inr spec by simp
qed

theorem admitted_path_is_confined_witness:
  "within_root (parse_path ''/ws'') (resolve_path two_roots (parse_path ''/ws/sub/../repo''))
   \<and> (\<exists>m. workspace_resolve two_roots (parse_path ''/ws'') (PathStr ''/ws/../etc'') = Inl (WorkspacePolicyError m))
   \<and> has_nul (parse_path (''/ws/'' @ [CHR 0x00]))"
proof -
  have "workspace_resolve two_roots (parse_path ''/ws'') (PathStr ''/ws/sub/../repo'')
      = Inr (resolve_path two_roots (parse_path ''/ws/sub/../repo''))"
    by code_simp
  moreover have "workspace_resolve two_roots (parse_path ''/ws'') (PathStr ''/ws/../etc'')
      = Inl (WorkspacePolicyError ''path outside allowed workspace (/ws): /etc'')"
    by code_simp
  moreover have "workspace_resolve two_roots (parse_path ''/ws'') (PathStr (''/ws/'' @ [CHR 0x00]))
      = Inl (ValueError ''embedded null byte'')"
    by code_simp
  ultimately show ?thesis
    using admitted_path_is_confined [of two_roots "parse_path ''/ws''" "PathStr ''/ws/sub/../repo''"]
      admitted_path_is_confined [of two_roots "parse_path ''/ws''" "PathStr ''/ws/../etc''"]
      admitted_path_is_confined [of two_roots "parse_path ''/ws''" "PathStr (''/ws/'' @ [CHR 0x00])"] by simp
qed

end
