(* ===== verification/Router.thy ===== *)
theory Router
  imports Complex_Main Agents
begin

text \<open>
  The role-aware model router (\<open>llm/base.py\<close>) with its token bucket (\<open>llm/rate_limit.py\<close>) and
  the model catalog (\<open>llm/catalog.py\<close>).  Floats are the rationals they stand for, with the
  rounding of the hardware as a parameter \<open>fl\<close>; the monotonic clock is a parameter too.  The
  router follows fallbacks by recursion, which the source does not bound: the model counts the
  calls the interpreter still allows, and running out of them is its exception.
\<close>

section \<open>Rate limiting\<close>

record bucket =
  bk_capacity :: rat
  bk_tokens :: rat
  bk_refill_per_sec :: rat
  bk_last :: rat

definition new_bucket :: "(rat \<Rightarrow> rat) \<Rightarrow> int \<Rightarrow> rat \<Rightarrow> bucket" where
  "new_bucket fl requests_per_min now =
     \<lparr>bk_capacity = fl (of_int requests_per_min), bk_tokens = fl (of_int requests_per_min),
      bk_refill_per_sec = fl (of_int requests_per_min / 60), bk_last = now\<rparr>"

definition bucket_allow :: "(rat \<Rightarrow> rat) \<Rightarrow> rat \<Rightarrow> bucket \<Rightarrow> bool \<times> bucket" where
  "bucket_allow fl now b =
     (let elapsed = max 0 (fl (now - bk_last b));
          tokens = min (bk_capacity b) (fl (bk_tokens b + fl (elapsed * bk_refill_per_sec b)))
      in if tokens \<ge> 1
         then (True, b\<lparr>bk_last := now, bk_tokens := fl (tokens - 1)\<rparr>)
         else (False, b\<lparr>bk_last := now, bk_tokens := tokens\<rparr>))"

primrec bucket_calls :: "(rat \<Rightarrow> rat) \<Rightarrow> rat list \<Rightarrow> bucket \<Rightarrow> bool list" where
  "bucket_calls fl [] b = []"
| "bucket_calls fl (now # nows) b =
     fst (bucket_allow fl now b) # bucket_calls fl nows (snd (bucket_allow fl now b))"

text \<open>Rounding keeps the order and the integers a double holds exactly.\<close>

definition rounding :: "(rat \<Rightarrow> rat) \<Rightarrow> bool" where
  "rounding fl \<longleftrightarrow> mono fl \<and> (\<forall>k::int. \<bar>k\<bar> \<le> 2 ^ 53 \<longrightarrow> fl (of_int k) = of_int k)"

definition bucket_wf :: "bucket \<Rightarrow> bool" where
  "bucket_wf b \<longleftrightarrow> 0 \<le> bk_tokens b \<and> bk_tokens b \<le> bk_capacity b \<and> 0 \<le> bk_refill_per_sec b"

lemma rounding_mono: "rounding fl \<Longrightarrow> x \<le> y \<Longrightarrow> fl x \<le> fl y"
  by (simp add: rounding_def monoD)

lemma rounding_int: "rounding fl \<Longrightarrow> \<bar>k\<bar> \<le> 2 ^ 53 \<Longrightarrow> fl (of_int k) = of_int k"
  by (simp add: rounding_def)

lemma rounding_0 [simp]: "rounding fl \<Longrightarrow> fl 0 = 0"
  using rounding_int [of fl 0] by simp

lemma rounding_nonneg: "rounding fl \<Longrightarrow> 0 \<le> x \<Longrightarrow> 0 \<le> fl x"
  using rounding_mono [of fl 0 x] by simp

lemma new_bucket_wf:
  assumes "rounding fl" and "0 \<le> n"
  shows "bucket_wf (new_bucket fl n now)"
  using assms by (simp add: bucket_wf_def new_bucket_def rounding_nonneg)

lemma bucket_allow_wf:
  assumes r: "rounding fl" and b: "bucket_wf b" and cap: "fl (bk_capacity b) = bk_capacity b"
  shows "bucket_wf (snd (bucket_allow fl now b))"
proof -
  let ?t = "min (bk_capacity b)
     (fl (bk_tokens b + fl (max 0 (fl (now - bk_last b)) * bk_refill_per_sec b)))"
  have "0 \<le> ?t" using b r by (simp add: bucket_wf_def rounding_nonneg)
  moreover have "fl (?t - 1) \<le> bk_capacity b"
    using rounding_mono [OF r, of "?t - 1" "bk_capacity b"] cap by simp
  moreover have "1 \<le> ?t \<Longrightarrow> 0 \<le> fl (?t - 1)" using r by (simp add: rounding_nonneg)
  ultimately show ?thesis using b
    by (simp add: bucket_allow_def Let_def bucket_wf_def)
qed

text \<open>While the clock stands still a full bucket admits as many calls as it has tokens.\<close>

definition full_at :: "rat \<Rightarrow> nat \<Rightarrow> bucket \<Rightarrow> bool" where
  "full_at now k b \<longleftrightarrow>
     bk_tokens b = of_nat k \<and> bk_last b = now \<and> of_nat k \<le> bk_capacity b \<and> k \<le> 2 ^ 53"

lemma rounding_nat:
  assumes "rounding fl" and "m \<le> 2 ^ 53"
  shows "fl (of_nat m) = of_nat m"
proof -
  have "\<bar>int m\<bar> \<le> 2 ^ 53" using assms(2) by (metis abs_of_nat of_nat_le_iff of_nat_numeral of_nat_power)
  then show ?thesis using rounding_int [OF assms(1), of "int m"] by simp
qed

lemma bucket_allow_frozen:
  assumes r: "rounding fl" and b: "full_at now k b"
  shows "fst (bucket_allow fl now b) \<longleftrightarrow> 0 < k"
    and "full_at now (k - 1) (snd (bucket_allow fl now b))"
proof -
  have f: "bk_tokens b = of_nat k" "bk_last b = now" "of_nat k \<le> bk_capacity b" and k: "k \<le> 2 ^ 53"
    using b by (simp_all only: full_at_def)
  have "min (bk_capacity b) (fl (bk_tokens b + fl (max 0 (fl (now - bk_last b)) * bk_refill_per_sec b)))
      = of_nat k"
    by (simp only: f diff_self rounding_0 [OF r] max.idem mult_zero_left add_0_right
        rounding_nat [OF r k] min_absorb2)
  then have allow: "bucket_allow fl now b =
      (if 1 \<le> (of_nat k :: rat) then (True, b\<lparr>bk_last := now, bk_tokens := fl (of_nat k - 1)\<rparr>)
       else (False, b\<lparr>bk_last := now, bk_tokens := of_nat k\<rparr>))"
    by (simp only: bucket_allow_def Let_def)
  show "fst (bucket_allow fl now b) \<longleftrightarrow> 0 < k"
    and "full_at now (k - 1) (snd (bucket_allow fl now b))"
  proof (atomize (full), cases k)
    case 0
    then show "(fst (bucket_allow fl now b) \<longleftrightarrow> 0 < k) \<and> full_at now (k - 1) (snd (bucket_allow fl now b))"
      using f by (simp add: allow full_at_def)
  next
    case (Suc m)
    have "(of_nat k - 1 :: rat) = of_nat m" by (simp add: Suc)
    moreover have "m \<le> 2 ^ 53" using k Suc by linarith
    moreover have "of_nat m \<le> bk_capacity b" using f(3) Suc by simp
    ultimately show "(fst (bucket_allow fl now b) \<longleftrightarrow> 0 < k) \<and> full_at now (k - 1) (snd (bucket_allow fl now b))"
      using Suc rounding_nat [OF r, of m] by (simp add: allow full_at_def)
  qed
qed

lemma bucket_burst:
  assumes "rounding fl" and "full_at now k b"
  shows "bucket_calls fl (replicate n now) b = replicate (min n k) True @ replicate (n - k) False"
  using assms(2)
proof (induction n arbitrary: k b)
  case (Suc n)
  from Suc.IH [OF bucket_allow_frozen(2) [OF assms(1) Suc.prems]]
  show ?case using bucket_allow_frozen(1) [OF assms(1) Suc.prems]
    by (cases k) auto
qed simp

section \<open>The router\<close>

record router_result =
  ro_status :: string
  ro_record :: "llm_invocation_record option"
  ro_reason :: string
  ro_model_id_used :: string

record router =
  rt_specs :: "model_spec list"
  rt_adapters :: "(string, llm_adapter) dict"
  rt_store :: artifact_store
  rt_run_id :: string
  rt_task_id :: string

text \<open>What moves while it runs: the buckets, the reads of the monotonic clock, the recorder.\<close>

record router_state =
  rs_limiters :: "(string, bucket) dict"
  rs_reads :: nat
  rs_recorder :: recorder

definition by_id :: "model_spec list \<Rightarrow> string \<Rightarrow> model_spec option" where
  "by_id specs i = map_of (rev (map (\<lambda>s. (ms_model_id s, s)) specs)) i"

text \<open>One bucket for each declared model, each made with its own reading of the clock.\<close>

definition default_limiters ::
    "(rat \<Rightarrow> rat) \<Rightarrow> (nat \<Rightarrow> rat) \<Rightarrow> nat \<Rightarrow> model_spec list \<Rightarrow> (string, bucket) dict" where
  "default_limiters fl mono_clock reads specs =
     fold (\<lambda>(i, s). dict_set (ms_model_id s)
            (new_bucket fl (max 1 (rl_requests_per_min (ms_rate_limit s))) (mono_clock (reads + i))))
       (enumerate 0 specs) []"

definition take_token ::
    "(rat \<Rightarrow> rat) \<Rightarrow> (nat \<Rightarrow> rat) \<Rightarrow> string \<Rightarrow> (router_state, bool) comp" where
  "take_token fl mono_clock model_id = (\<lambda>s.
     case map_of (rs_limiters s) model_id of
       None \<Rightarrow> (Inr True, s)
     | Some b \<Rightarrow> (case bucket_allow fl (mono_clock (rs_reads s)) b of
         (ok, b') \<Rightarrow> (Inr ok, s\<lparr>rs_limiters := dict_set model_id b' (rs_limiters s),
                               rs_reads := Suc (rs_reads s)\<rparr>)))"

definition on_recorder :: "(recorder, 'a) comp \<Rightarrow> (router_state, 'a) comp" where
  "on_recorder = zoomC rs_recorder (\<lambda>r s. s\<lparr>rs_recorder := r\<rparr>)"

definition recursion_error :: exn where
  "recursion_error = RuntimeError ''maximum recursion depth exceeded''"

definition refused :: "string \<Rightarrow> string \<Rightarrow> string \<Rightarrow> router_result" where
  "refused status reason model_id =
     \<lparr>ro_status = status, ro_record = None, ro_reason = reason, ro_model_id_used = model_id\<rparr>"

definition fallback_of :: "router \<Rightarrow> model_spec \<Rightarrow> model_spec option" where
  "fallback_of ro s =
     (if ms_fallback_model_id s \<noteq> [] then by_id (rt_specs ro) (ms_fallback_model_id s) else None)"

definition route_fallback ::
    "router \<Rightarrow> (model_spec \<Rightarrow> (router_state, router_result) comp) \<Rightarrow> model_spec \<Rightarrow> string
     \<Rightarrow> (router_state, router_result) comp" where
  "route_fallback ro invoke spec reason =
     (case fallback_of ro spec of
        None \<Rightarrow> ret (refused ''THROTTLED'' reason (ms_model_id spec))
      | Some fb \<Rightarrow>
          bindC (invoke fb) (\<lambda>result.
          ret (if ro_record result \<noteq> None then result\<lparr>ro_status := ''FALLBACK_USED''\<rparr> else result)))"

text \<open>\<open>n\<close> counts the nested invocations the interpreter still admits.\<close>

primrec route_invoke ::
    "env \<Rightarrow> (rat \<Rightarrow> rat) \<Rightarrow> (nat \<Rightarrow> rat) \<Rightarrow> router \<Rightarrow> string \<Rightarrow> nat \<Rightarrow> string \<Rightarrow> model_spec
     \<Rightarrow> (router_state, router_result) comp" where
  "route_invoke v fl clk ro prompt 0 status spec = throw recursion_error"
| "route_invoke v fl clk ro prompt (Suc n) status spec =
     (let fallback = route_fallback ro (route_invoke v fl clk ro prompt n ''FALLBACK_USED'') spec in
      bindC (take_token fl clk (ms_model_id spec)) (\<lambda>ok.
      if \<not> ok then fallback (ms_model_id spec @ '' throttled'')
      else case map_of (rt_adapters ro) (ms_provider spec) of
        None \<Rightarrow> fallback (''no adapter for '' @ ms_provider spec)
      | Some adapter \<Rightarrow>
          bindC (catchC (bindC (on_recorder (zoomC rc_world (\<lambda>w. rc_world_update (\<lambda>_. w))
                                 (adapter spec prompt))) (\<lambda>x. ret (Inr x)))
                   (\<lambda>e. ret (Inl e))) (\<lambda>answer.
          case answer of
            Inl e \<Rightarrow> fallback (ms_model_id spec @ '' failed: '' @ exn_text e)
          | Inr response \<Rightarrow>
              bindC (on_recorder (record_invocation v (rt_store ro) (rt_run_id ro) (rt_task_id ro)
                       spec prompt response status)) (\<lambda>rec.
              ret \<lparr>ro_status = status, ro_record = Some rec, ro_reason = [],
                   ro_model_id_used = ms_model_id spec\<rparr>))))"

definition invoke_role ::
    "env \<Rightarrow> (rat \<Rightarrow> rat) \<Rightarrow> (nat \<Rightarrow> rat) \<Rightarrow> router \<Rightarrow> nat \<Rightarrow> model_role \<Rightarrow> string \<Rightarrow> string option
     \<Rightarrow> (router_state, router_result) comp" where
  "invoke_role v fl clk ro n role prompt require_permission =
     (case select_spec (rt_specs ro) role of
        None \<Rightarrow> ret (refused ''NO_MODEL_FOR_ROLE'' (''no model bound to '' @ model_role_value role) [])
      | Some spec \<Rightarrow>
          (case require_permission of
             Some p \<Rightarrow>
               if p \<noteq> [] \<and> p \<notin> set (ms_permissions spec)
               then ret (refused ''PERMISSION_DENIED''
                      (ms_model_id spec @ '' lacks permission: '' @ p) [])
               else route_invoke v fl clk ro prompt n ''OK'' spec
           | None \<Rightarrow> route_invoke v fl clk ro prompt n ''OK'' spec))"

section \<open>What a routed answer is\<close>

text \<open>A result that carries a record names the declared model that gave the answer.\<close>

definition routed :: "router \<Rightarrow> router_result \<Rightarrow> bool" where
  "routed ro r \<longleftrightarrow>
     (case ro_record r of
        None \<Rightarrow> ro_status r = ''THROTTLED'' \<and> ro_reason r \<noteq> []
      | Some rec \<Rightarrow> ro_status r \<in> {''OK'', ''FALLBACK_USED''} \<and> \<not> li_used_as_evidence rec
          \<and> li_model_id rec = ro_model_id_used r
          \<and> (\<exists>s \<in> set (rt_specs ro). ms_model_id s = ro_model_id_used r))"

lemma by_id_declared: "by_id specs i = Some s \<Longrightarrow> s \<in> set specs \<and> ms_model_id s = i"
  by (auto simp: by_id_def dest: map_of_SomeD)

lemma record_invocation_Inr:
  obtains rec s' where "record_invocation v st run task spec prompt resp status s = (Inr rec, s')"
    and "\<not> li_used_as_evidence rec" and "li_model_id rec = ms_model_id spec"
  using record_invocation_entry [of v st run task spec prompt resp status s] by blast

lemma route_fallback_routed:
  assumes "\<And>fb. fb \<in> set (rt_specs ro) \<Longrightarrow> returns (routed ro) (rec fb)" and "reason \<noteq> []"
  shows "returns (routed ro) (route_fallback ro rec spec reason)"
proof (cases "fallback_of ro spec")
  case None
  then show ?thesis using assms(2)
    by (simp add: route_fallback_def routed_def refused_def)
next
  case (Some fb)
  then have "fb \<in> set (rt_specs ro)"
    by (auto simp: fallback_of_def dest: by_id_declared split: if_splits)
  from assms(1) [OF this] show ?thesis
    by (simp only: route_fallback_def Some option.case)
       (erule returns_bind_strong, auto simp: routed_def split: option.splits)
qed

lemma route_invoke_routed:
  assumes "spec \<in> set (rt_specs ro)" and "status \<in> {''OK'', ''FALLBACK_USED''}"
  shows "returns (routed ro) (route_invoke v fl clk ro prompt n status spec)"
  using assms
proof (induction n arbitrary: status spec)
  case 0
  then show ?case by simp
next
  case (Suc n)
  let ?fb = "route_fallback ro (route_invoke v fl clk ro prompt n ''FALLBACK_USED'') spec"
  have fb: "returns (routed ro) (?fb (a @ CHR '' '' # b))" "returns (routed ro) (?fb (CHR ''n'' # b))" for a b
    by (rule route_fallback_routed; use Suc.IH in simp)+
  have rec: "returns (routed ro) (bindC (on_recorder (record_invocation v (rt_store ro) (rt_run_id ro)
      (rt_task_id ro) spec prompt response status)) (\<lambda>rec. ret \<lparr>ro_status = status, ro_record = Some rec,
      ro_reason = [], ro_model_id_used = ms_model_id spec\<rparr>))" for response
    unfolding returns_def
  proof (intro allI impI)
    fix s r s'
    assume "bindC (on_recorder (record_invocation v (rt_store ro) (rt_run_id ro) (rt_task_id ro)
      spec prompt response status)) (\<lambda>rec. ret \<lparr>ro_status = status, ro_record = Some rec,
      ro_reason = [], ro_model_id_used = ms_model_id spec\<rparr>) s = (Inr r, s')"
    then show "routed ro r" using Suc.prems
      by (rule_tac record_invocation_Inr [of v "rt_store ro" "rt_run_id ro" "rt_task_id ro" spec prompt
            response status "rs_recorder s"])
         (auto simp: on_recorder_def zoomC_def routed_def elim!: bindC_Inr_E)
  qed
  show ?case
    by (auto simp: Let_def fb rec intro!: returns_bind split: option.split sum.split)
qed

section \<open>Termination\<close>

text \<open>
  A rank that falls along every declared fallback bounds the depth; then the router always
  answers.  Without one it need not: a model that falls back on itself exhausts any depth.
\<close>

definition ranked :: "router \<Rightarrow> (model_spec \<Rightarrow> nat) \<Rightarrow> bool" where
  "ranked ro rank \<longleftrightarrow>
     (\<forall>s \<in> set (rt_specs ro). \<forall>t. fallback_of ro s = Some t \<longrightarrow> rank t < rank s)"

definition answers :: "(router_state, router_result) comp \<Rightarrow> bool" where
  "answers m \<longleftrightarrow> (\<forall>s. \<exists>r s'. m s = (Inr r, s'))"

lemma answers_ret [simp]: "answers (ret x)"
  by (simp add: answers_def)

lemma answers_bind:
  assumes "\<And>s. \<exists>x s'. m s = (Inr x, s')" and "\<And>x. answers (f x)"
  shows "answers (bindC m f)"
  unfolding answers_def
proof
  fix s
  obtain x s' where "m s = (Inr x, s')" using assms(1) by blast
  then show "\<exists>r s''. bindC m f s = (Inr r, s'')"
    using assms(2) [of x] by (simp add: bindC_def answers_def)
qed

lemma route_fallback_answers:
  assumes "\<And>fb. fallback_of ro spec = Some fb \<Longrightarrow> answers (rec fb)"
  shows "answers (route_fallback ro rec spec reason)"
proof (cases "fallback_of ro spec")
  case (Some fb)
  then have "\<exists>x s'. rec fb s = (Inr x, s')" for s using assms by (simp add: answers_def)
  then show ?thesis by (simp add: route_fallback_def Some answers_bind)
qed (simp add: route_fallback_def)

lemma take_token_Inr: "\<exists>ok s'. take_token fl clk i s = (Inr ok, s')"
proof (cases "map_of (rs_limiters s) i")
  case (Some b)
  then show ?thesis by (cases "bucket_allow fl (clk (rs_reads s)) b") (simp add: take_token_def)
qed (auto simp: take_token_def)

lemma attempt_Inr: "\<exists>x s'. catchC (bindC m (\<lambda>x. ret (Inr x))) (\<lambda>e. ret (Inl e)) s = (Inr x, s')"
proof (cases "m s")
  case (Pair r s')
  then show ?thesis by (cases r) (simp_all add: comp_defs)
qed

lemma on_recorder_Inr:
  "\<exists>x s'. on_recorder (record_invocation v st run task spec prompt resp status) s = (Inr x, s')"
  by (rule record_invocation_Inr [of v st run task spec prompt resp status "rs_recorder s"])
     (simp add: on_recorder_def zoomC_def)

lemma route_invoke_answers:
  assumes "ranked ro rank" and "spec \<in> set (rt_specs ro)" and "rank spec < n"
  shows "answers (route_invoke v fl clk ro prompt n status spec)"
  using assms(2,3)
proof (induction n arbitrary: status spec)
  case (Suc n)
  have "answers (route_invoke v fl clk ro prompt n ''FALLBACK_USED'' fb)" if "fallback_of ro spec = Some fb" for fb
  proof -
    have "rank fb < rank spec" using assms(1) Suc.prems(1) that by (auto simp: ranked_def)
    moreover have "fb \<in> set (rt_specs ro)"
      using that by (auto simp: fallback_of_def dest: by_id_declared split: if_splits)
    ultimately show ?thesis using Suc by simp
  qed
  then have fb: "answers (route_fallback ro (route_invoke v fl clk ro prompt n ''FALLBACK_USED'') spec reason)"
    for reason by (rule route_fallback_answers)
  show ?case unfolding route_invoke.simps Let_def
    by (rule answers_bind [OF take_token_Inr])
       (auto simp: fb split: option.split sum.split
         intro!: answers_bind [OF attempt_Inr] answers_bind [OF on_recorder_Inr])
qed simp

text \<open>A model whose adapter is missing and that is its own fallback is never answered for.\<close>

lemma route_invoke_diverges:
  assumes "fallback_of ro spec = Some spec" and "map_of (rt_adapters ro) (ms_provider spec) = None"
  shows "fst (route_invoke v fl clk ro prompt n status spec s) = Inl recursion_error"
proof (induction n arbitrary: status s)
  case (Suc n)
  obtain ok s' where tok: "take_token fl clk (ms_model_id spec) s = (Inr ok, s')"
    using take_token_Inr by blast
  obtain r s'' where rec: "route_invoke v fl clk ro prompt n ''FALLBACK_USED'' spec s' = (r, s'')" by force
  then have "r = Inl recursion_error" using Suc.IH [of "''FALLBACK_USED''" s'] by simp
  then show ?case using assms rec
    by (simp add: Let_def bindC_def tok route_fallback_def)
qed (simp add: throw_def)

section \<open>The catalog\<close>

record catalog_entry =
  ce_provider :: string
  ce_model_id :: string
  ce_label :: string
  ce_suggested_roles :: "model_role list"
  ce_default_temperature :: string
  ce_default_top_p :: string
  ce_live_calls_available :: bool

definition catalog_entry_of :: "string \<Rightarrow> string \<Rightarrow> string \<Rightarrow> model_role list \<Rightarrow> catalog_entry" where
  "catalog_entry_of provider model_id label roles =
     \<lparr>ce_provider = provider, ce_model_id = model_id, ce_label = label, ce_suggested_roles = roles,
      ce_default_temperature = ''0'', ce_default_top_p = ''1'', ce_live_calls_available = False\<rparr>"

definition MODEL_CATALOG :: "catalog_entry list" where
  "MODEL_CATALOG =
     [catalog_entry_of ''anthropic'' ''claude-sonnet-4-6'' ''Claude Sonnet 4.6'' [MR_CODING_AGENT, MR_ANALYST],
      catalog_entry_of ''anthropic'' ''claude-haiku-4-5'' ''Claude Haiku 4.5'' [MR_EVALUATOR, MR_ANALYST],
      catalog_entry_of ''anthropic'' ''claude-opus-latest'' ''Claude Opus (latest)'' [MR_CODING_AGENT, MR_VERIFIER],
      catalog_entry_of ''anthropic'' ''claude-fable-5'' ''Claude Fable 5'' [MR_ANALYST],
      catalog_entry_of ''openai'' ''gpt-4o'' ''OpenAI GPT-4o'' [MR_CODING_AGENT, MR_VERIFIER],
      catalog_entry_of ''openai'' ''gpt-4o-mini'' ''OpenAI GPT-4o mini'' [MR_EVALUATOR],
      catalog_entry_of ''openai'' ''o4-mini'' ''OpenAI o4-mini'' [MR_VERIFIER, MR_ANALYST]]"

definition to_model_spec ::
    "catalog_entry \<Rightarrow> model_role \<Rightarrow> string \<Rightarrow> string \<Rightarrow> string list \<Rightarrow> rate_limit \<Rightarrow> string \<Rightarrow> model_spec" where
  "to_model_spec e role model_run_id pinned_hash permissions limit fallback_model_id =
     \<lparr>ms_model_id = ce_model_id e, ms_provider = ce_provider e, ms_role = role,
      ms_model_run_id = model_run_id, ms_permissions = permissions,
      ms_temperature = ce_default_temperature e, ms_top_p = ce_default_top_p e, ms_seed = 23,
      ms_prompt_hash = pinned_hash, ms_parallel_tool_calls = False, ms_rate_limit = limit,
      ms_fallback_model_id = fallback_model_id, ms_max_retries = 0\<rparr>"

section \<open>A router with a fallback\<close>

lemma route_invoke_failing:
  assumes "take_token fl clk (ms_model_id spec) s = (Inr True, s1)"
    and "map_of (rt_adapters ro) (ms_provider spec) = Some adapter"
    and "\<And>w. adapter spec prompt w = (Inl e, w)" and "reason = ms_model_id spec @ '' failed: '' @ exn_text e"
  shows "route_invoke v fl clk ro prompt (Suc n) status spec s
       = route_fallback ro (route_invoke v fl clk ro prompt n ''FALLBACK_USED'') spec reason s1"
  using assms by (simp add: Let_def comp_defs on_recorder_def)

lemma route_invoke_answering:
  assumes "take_token fl clk (ms_model_id spec) s = (Inr True, s1)"
    and "map_of (rt_adapters ro) (ms_provider spec) = Some adapter"
    and "\<And>w. adapter spec prompt w = (Inr response, w)"
  shows "\<exists>rec s'. route_invoke v fl clk ro prompt (Suc n) status spec s
       = (Inr \<lparr>ro_status = status, ro_record = Some rec, ro_reason = [], ro_model_id_used = ms_model_id spec\<rparr>, s')"
proof -
  obtain rec s2 where "on_recorder (record_invocation v (rt_store ro) (rt_run_id ro) (rt_task_id ro)
      spec prompt response status) s1 = (Inr rec, s2)" using on_recorder_Inr by blast
  then show ?thesis using assms by (simp add: Let_def comp_defs on_recorder_def)
qed


text \<open>The analyst may write but its adapter fails; the model behind it may only read.\<close>

definition primary_spec :: model_spec where
  "primary_spec = to_model_spec (hd MODEL_CATALOG) MR_ANALYST ''run'' ''hash'' [''read'', ''write'']
     \<lparr>rl_requests_per_min = 1, rl_tokens_per_min = 0\<rparr> ''gpt-4o''"

definition backup_spec :: model_spec where
  "backup_spec = to_model_spec (MODEL_CATALOG ! 4) MR_VERIFIER ''run'' ''hash'' [''read'']
     \<lparr>rl_requests_per_min = 1, rl_tokens_per_min = 0\<rparr> []"

definition two_model_router :: router where
  "two_model_router =
     \<lparr>rt_specs = [primary_spec, backup_spec],
      rt_adapters = [(''anthropic'', stub_llm_adapter [''claude-sonnet-4-6'']), (''openai'', stub_llm_adapter [])],
      rt_store = \<lparr>st_root = parse_path ''/store'', st_attempt_id = None\<rparr>, rt_run_id = ''r'', rt_task_id = ''t''\<rparr>"

definition two_model_start :: "world \<Rightarrow> router_state" where
  "two_model_start w =
     \<lparr>rs_limiters = default_limiters id (\<lambda>_. 0) 0 (rt_specs two_model_router), rs_reads = 2,
      rs_recorder = \<lparr>rc_counter = 0, rc_evidence = new_ledger_writer ''t'' ''r'', rc_world = w\<rparr>\<rparr>"

lemmas two_model_defs = primary_spec_def backup_spec_def to_model_spec_def MODEL_CATALOG_def catalog_entry_of_def

lemma two_model_fallback: "fallback_of two_model_router primary_spec = Some backup_spec"
  by (simp add: two_model_router_def fallback_of_def by_id_def two_model_defs)

lemma backup_answers:
  assumes "permission = None \<or> permission = Some ''write''"
  shows "\<exists>r rec s'. invoke_role v id (\<lambda>_. 0) two_model_router 2 MR_ANALYST ''p'' permission (two_model_start w) = (Inr r, s')
     \<and> ro_status r = ''FALLBACK_USED'' \<and> ro_record r = Some rec \<and> ro_model_id_used r = ''gpt-4o''"
proof -
  have sel: "select_spec (rt_specs two_model_router) MR_ANALYST = Some primary_spec"
    by (simp add: select_spec_def two_model_router_def two_model_defs)
  have parts: "rt_adapters two_model_router = [(''anthropic'', stub_llm_adapter [''claude-sonnet-4-6'']), (''openai'', stub_llm_adapter [])]"
      "ms_provider primary_spec = ''anthropic''" "ms_provider backup_spec = ''openai''"
      "ms_model_id primary_spec = ''claude-sonnet-4-6''" "ms_model_id backup_spec = ''gpt-4o''"
      "''write'' \<in> set (ms_permissions primary_spec)"
    by (simp_all add: two_model_router_def two_model_defs)
  obtain s1 where one: "take_token id (\<lambda>_. 0) ''claude-sonnet-4-6'' (two_model_start w) = (Inr True, s1)"
    and two: "\<exists>s2. take_token id (\<lambda>_. 0) ''gpt-4o'' s1 = (Inr True, s2)"
    by (simp add: take_token_def two_model_start_def default_limiters_def two_model_router_def two_model_defs
        new_bucket_def bucket_allow_def Let_def)
  obtain s2 where two': "take_token id (\<lambda>_. 0) ''gpt-4o'' s1 = (Inr True, s2)" using two by blast
  have first: "route_invoke v id (\<lambda>_. 0) two_model_router ''p'' 2 ''OK'' primary_spec (two_model_start w)
      = route_fallback two_model_router (route_invoke v id (\<lambda>_. 0) two_model_router ''p'' 1 ''FALLBACK_USED'') primary_spec
          (ms_model_id primary_spec @ '' failed: stub failure for claude-sonnet-4-6'') s1"
    unfolding numeral_2_eq_2 One_nat_def
    by (rule route_invoke_failing [OF one [folded parts(4)],
          where adapter = "stub_llm_adapter [''claude-sonnet-4-6'']"
            and e = "RuntimeError ''stub failure for claude-sonnet-4-6''"])
       (simp_all add: parts stub_llm_adapter_def throw_def)
  have "\<exists>rec s3. route_invoke v id (\<lambda>_. 0) two_model_router ''p'' 1 ''FALLBACK_USED'' backup_spec s1
      = (Inr \<lparr>ro_status = ''FALLBACK_USED'', ro_record = Some rec, ro_reason = [], ro_model_id_used = ms_model_id backup_spec\<rparr>, s3)"
    unfolding One_nat_def
    by (rule route_invoke_answering [OF two' [folded parts(5)], where adapter = "stub_llm_adapter []"
          and response = "\<lparr>lr_text = ''[stub:gpt-4o] p'', lr_tokens_in = word_count ''p'', lr_tokens_out = 8\<rparr>"])
       (simp_all add: parts stub_llm_adapter_def ret_def)
  then show ?thesis using assms sel parts(6)
    by (auto simp: invoke_role_def first route_fallback_def two_model_fallback bindC_def ret_def parts)
qed

section \<open>Properties\<close>

text \<open>A fresh bucket admits exactly a burst of as many calls as requests per minute.\<close>

lemma fresh_bucket_burst:
  assumes "rounding fl" and "rpm \<le> 2 ^ 53"
  shows "bucket_calls fl (replicate n now) (new_bucket fl (int rpm) now)
       = replicate (min n rpm) True @ replicate (n - rpm) False"
proof (rule bucket_burst [OF assms(1)])
  have "fl (of_int (int rpm)) = of_nat rpm" using rounding_nat [OF assms] by simp
  then show "full_at now rpm (new_bucket fl (int rpm) now)"
    using assms(2) by (simp only: full_at_def new_bucket_def bucket.select_convs) simp
qed

text \<open>
  C39: however the clock moves, even backwards, a bucket never holds more tokens than its capacity
  and never fewer than none, over any sequence of calls.
\<close>

theorem bucket_stays_in_bounds:
  assumes "rounding fl" and "\<bar>rpm\<bar> \<le> 2 ^ 53" and "0 \<le> rpm"
    and "b = fold (\<lambda>now b. snd (bucket_allow fl now b)) nows (new_bucket fl rpm t)"
  shows "0 \<le> bk_tokens b \<and> bk_tokens b \<le> of_int rpm"
proof -
  have "bucket_wf b \<and> bk_capacity b = of_int rpm"
    unfolding assms(4)
  proof (induction nows rule: rev_induct)
    case Nil
    then show ?case using new_bucket_wf [OF assms(1,3)] rounding_int [OF assms(1,2)]
      by (simp add: new_bucket_def)
  next
    case (snoc now nows)
    have "bk_capacity (snd (bucket_allow fl now b')) = bk_capacity b'" for b'
      by (simp add: bucket_allow_def Let_def)
    then show ?case using snoc bucket_allow_wf [OF assms(1)] rounding_int [OF assms(1,2)] by simp
  qed
  then show ?thesis by (auto simp: bucket_wf_def)
qed

theorem bucket_stays_in_bounds_witness:
  "bk_tokens (fold (\<lambda>now b. snd (bucket_allow id now b)) [9, 1, 5] (new_bucket id 2 7)) \<le> 2"
proof -
  have "rounding id" by (simp add: rounding_def mono_def)
  from bucket_stays_in_bounds [OF this _ _ refl, of 2 "[9, 1, 5]" 7] show ?thesis by simp
qed

text \<open>
  C36: where the declared fallbacks do not form a cycle (a rank falls along each of them), invoking
  a role always returns a result, at a depth of nested calls bounded by the rank.
\<close>

theorem ranked_router_answers:
  assumes "ranked ro rank" and "\<forall>s \<in> set (rt_specs ro). rank s < n"
  shows "\<exists>r s'. invoke_role v fl clk ro n role prompt permission s = (Inr r, s')"
proof (cases "select_spec (rt_specs ro) role")
  case None
  then show ?thesis by (simp add: invoke_role_def ret_def)
next
  case (Some spec)
  then have "spec \<in> set (rt_specs ro)" using select_spec_role by blast
  then have "answers (route_invoke v fl clk ro prompt n ''OK'' spec)"
    using route_invoke_answers [OF assms(1)] assms(2) by blast
  then show ?thesis using Some
    by (auto simp: invoke_role_def answers_def ret_def split: option.split)
qed

theorem ranked_router_answers_witness:
  "\<forall>v w. \<exists>r s'. invoke_role v id (\<lambda>_. 0) two_model_router 2 MR_ANALYST ''p'' (Some ''write'') (two_model_start w) = (Inr r, s')
     \<and> ro_status r = ''FALLBACK_USED'' \<and> fallback_of two_model_router primary_spec = Some backup_spec"
proof (intro allI)
  fix v :: env and w :: world
  have "ranked two_model_router (\<lambda>m. if ms_fallback_model_id m = [] then 0 else 1)"
    by (simp add: ranked_def two_model_router_def fallback_of_def by_id_def two_model_defs)
  from ranked_router_answers [OF this, of 2] obtain r s' where
    run: "invoke_role v id (\<lambda>_. 0) two_model_router 2 MR_ANALYST ''p'' (Some ''write'') (two_model_start w) = (Inr r, s')"
    by fastforce
  moreover have "ro_status r = ''FALLBACK_USED''"
    using backup_answers [of "Some ''write''" v w] run by auto
  ultimately show "\<exists>r s'. invoke_role v id (\<lambda>_. 0) two_model_router 2 MR_ANALYST ''p'' (Some ''write'') (two_model_start w) = (Inr r, s')
     \<and> ro_status r = ''FALLBACK_USED'' \<and> fallback_of two_model_router primary_spec = Some backup_spec"
    using two_model_fallback by blast
qed

text \<open>
  C38: nothing in the router stops a cycle of fallbacks: a declared model that is its own fallback
  and has no adapter exhausts every depth of nested calls, and the request ends in the recursion
  error of the interpreter.
\<close>

theorem cyclic_fallback_never_answers:
  assumes "select_spec (rt_specs ro) role = Some spec" and "fallback_of ro spec = Some spec"
    and "map_of (rt_adapters ro) (ms_provider spec) = None"
  shows "fst (invoke_role v fl clk ro n role prompt None s) = Inl recursion_error"
  using route_invoke_diverges [OF assms(2,3)] assms(1) by (simp add: invoke_role_def)

definition self_fallback_spec :: model_spec where
  "self_fallback_spec = to_model_spec (hd MODEL_CATALOG) MR_ANALYST ''run'' ''hash'' []
     \<lparr>rl_requests_per_min = 1, rl_tokens_per_min = 0\<rparr> ''claude-sonnet-4-6''"

definition no_adapter_router :: router where
  "no_adapter_router = two_model_router\<lparr>rt_adapters := []\<rparr>"

theorem cyclic_fallback_never_answers_witness:
  "\<forall>v fl clk s. fst (invoke_role v fl clk (no_adapter_router\<lparr>rt_specs := [self_fallback_spec]\<rparr>) 100
     MR_ANALYST ''p'' None s) = Inl recursion_error"
proof (intro allI cyclic_fallback_never_answers)
  show "select_spec (rt_specs (no_adapter_router\<lparr>rt_specs := [self_fallback_spec]\<rparr>)) MR_ANALYST = Some self_fallback_spec"
    by (simp add: select_spec_def self_fallback_spec_def to_model_spec_def no_adapter_router_def)
  show "fallback_of (no_adapter_router\<lparr>rt_specs := [self_fallback_spec]\<rparr>) self_fallback_spec = Some self_fallback_spec"
    by (simp add: fallback_of_def by_id_def self_fallback_spec_def to_model_spec_def MODEL_CATALOG_def
        catalog_entry_of_def no_adapter_router_def)
qed (simp add: no_adapter_router_def)

text \<open>
  C37: an answer of the router comes from a declared model and is recorded, but never as
  evidence: a result with a record names the model that gave it; one without names a refusal with
  its reason.  A required permission is asked of the model selected for the role alone: where that
  model lacks it, nothing is called and the state is unchanged; where it has it, the call is the one
  that requires no permission, so a fallback is called whatever its own permissions.
\<close>

theorem router_answers_are_declared:
  assumes "invoke_role v fl clk ro n role prompt permission s = (Inr r, s')"
  shows "(case ro_record r of
        None \<Rightarrow> ro_status r \<in> {''NO_MODEL_FOR_ROLE'', ''PERMISSION_DENIED'', ''THROTTLED''} \<and> ro_reason r \<noteq> []
      | Some rec \<Rightarrow> ro_status r \<in> {''OK'', ''FALLBACK_USED''} \<and> \<not> li_used_as_evidence rec
          \<and> li_model_id rec = ro_model_id_used r
          \<and> (\<exists>m \<in> set (rt_specs ro). ms_model_id m = ro_model_id_used r))
    \<and> (\<forall>spec p. select_spec (rt_specs ro) role = Some spec \<and> permission = Some p \<and> p \<noteq> [] \<longrightarrow>
         (if p \<notin> set (ms_permissions spec) then ro_status r = ''PERMISSION_DENIED'' \<and> s' = s
          else invoke_role v fl clk ro n role prompt None s = (Inr r, s')))"
proof (cases "select_spec (rt_specs ro) role")
  case None
  then show ?thesis using assms by (auto simp: invoke_role_def ret_def refused_def)
next
  case (Some spec)
  then have "spec \<in> set (rt_specs ro)" using select_spec_role by blast
  then have "returns (routed ro) (route_invoke v fl clk ro prompt n ''OK'' spec)"
    by (rule route_invoke_routed) simp
  then have "routed ro r" if "route_invoke v fl clk ro prompt n ''OK'' spec s = (Inr r, s')"
    using that by (rule returnsD)
  then show ?thesis using assms Some
    by (auto simp: invoke_role_def ret_def refused_def routed_def split: option.splits if_splits)
qed

theorem router_answers_are_declared_witness:
  "\<forall>v w. \<exists>r rec s'. invoke_role v id (\<lambda>_. 0) two_model_router 2 MR_ANALYST ''p'' (Some ''write'') (two_model_start w) = (Inr r, s')
     \<and> ro_record r = Some rec \<and> \<not> li_used_as_evidence rec \<and> li_model_id rec = ''gpt-4o''
     \<and> ''write'' \<notin> set (ms_permissions backup_spec) \<and> ms_model_id backup_spec = ''gpt-4o''"
proof (intro allI)
  fix v :: env and w :: world
  obtain r rec s' where run: "invoke_role v id (\<lambda>_. 0) two_model_router 2 MR_ANALYST ''p'' (Some ''write'') (two_model_start w) = (Inr r, s')"
    and r: "ro_record r = Some rec" "ro_model_id_used r = ''gpt-4o''"
    using backup_answers [of "Some ''write''" v w] by blast
  from conjunct1 [OF router_answers_are_declared [OF run]] r
  have "\<not> li_used_as_evidence rec \<and> li_model_id rec = ''gpt-4o''" by simp
  with run r show "\<exists>r rec s'. invoke_role v id (\<lambda>_. 0) two_model_router 2 MR_ANALYST ''p'' (Some ''write'') (two_model_start w) = (Inr r, s')
     \<and> ro_record r = Some rec \<and> \<not> li_used_as_evidence rec \<and> li_model_id rec = ''gpt-4o''
     \<and> ''write'' \<notin> set (ms_permissions backup_spec) \<and> ms_model_id backup_spec = ''gpt-4o''"
    by (auto simp: two_model_defs)
qed

end
