(* ===== verification/Postgres_Store.thy ===== *)
theory Postgres_Store
  imports Run_Store
begin

text \<open>
  The durable run store (\<open>storage/postgres_run_repository.py\<close>): the statements of \<open>save\<close>, \<open>get\<close>
  and \<open>list\<close> on the tables of \<open>sql/0001_init.sql\<close>.  A table is a list of rows in the order of
  insertion, \<open>runs\<close> a dictionary under its primary key; the constraints the statements can
  violate are checked, and a violation leaves the tables as they were, as the aborted
  transaction does.  A JSON column gives back what was stored (its reordering of object keys
  is not modelled), and the columns the database fills in by itself are left out.  Runs are created
  at different times, so their order of creation is that of the list, and no text holds the
  character NUL and no float is infinite or not a number, which PostgreSQL refuses.
\<close>

section \<open>Tables\<close>

record pg_run =
  pr_tenant_id :: "string option"
  pr_state :: string
  pr_final_status :: "string option"
  pr_verifier_decision :: "string option"
  pr_manifest :: json
  pr_snapshot :: jdict

record pg_attempt =
  pa_attempt_id :: string
  pa_run_id :: string
  pa_attempt_number :: int
  pa_base_commit :: "string option"
  pa_workspace_id :: "string option"
  pa_final_status :: "string option"

record pg_artifact =
  pv_run_id :: string
  pv_attempt_id :: "string option"
  pv_tenant_id :: "string option"
  pv_artifact_type :: string
  pv_sha256 :: string
  pv_object_uri :: string
  pv_used_as_evidence :: bool

record pg_handler =
  ph_run_id :: string
  ph_seq :: nat
  ph_handler_name :: string
  ph_handler_type :: string
  ph_status :: string
  ph_decision :: string
  ph_failure_reasons :: "string list"
  ph_metadata :: jdict

record pg_gate =
  pg_run_id :: string
  pg_handler_name :: string
  pg_gate_name :: string
  pg_status :: string
  pg_passed :: bool
  pg_reasons :: "string list"

record pg_decision =
  pd_run_id :: string
  pd_task_id :: string
  pd_verifier_run_id :: "string option"
  pd_coding_agent_run_id :: "string option"
  pd_decision :: string
  pd_failure_reasons :: "string list"

record database =
  db_runs :: "(string, pg_run) dict"
  db_attempts :: "pg_attempt list"
  db_artifacts :: "pg_artifact list"
  db_handlers :: "pg_handler list"
  db_gates :: "pg_gate list"
  db_decisions :: "pg_decision list"

datatype pg_error = UniqueViolation | ForeignKeyViolation

section \<open>Saving a record\<close>

text \<open>The two status columns come from the verifier report where there is one.\<close>

definition status_columns :: "run_record \<Rightarrow> string option \<times> string option" where
  "status_columns r =
     (case rr_verifier_report r of
        Some report \<Rightarrow>
          (Some (decision_value (vr_decision report)), Some (decision_value (vr_decision report)))
      | None \<Rightarrow> (case rr_chain_execution_result r of
          Some result \<Rightarrow> (Some (final_status_value (r_final_status result)),
                          Some (decision_value (r_verifier_decision result)))
        | None \<Rightarrow> (None, None)))"

definition run_row :: "models \<Rightarrow> run_record \<Rightarrow> pg_run" where
  "run_row md r =
     \<lparr>pr_tenant_id = rr_tenant_id r, pr_state = rr_state r,
      pr_final_status = fst (status_columns r), pr_verifier_decision = snd (status_columns r),
      pr_manifest = md_manifest md (rr_manifest r), pr_snapshot = record_to_snapshot md r\<rparr>"

text \<open>
  The upsert of an attempt: the row of its id keeps its run, and no two rows share run and number.
\<close>

definition attempt_row :: "string \<Rightarrow> run_attempt \<Rightarrow> pg_attempt" where
  "attempt_row run_id a =
     \<lparr>pa_attempt_id = at_attempt_id a, pa_run_id = run_id, pa_attempt_number = at_attempt_number a,
      pa_base_commit = at_base_commit a, pa_workspace_id = at_workspace_id a,
      pa_final_status = at_final_status a\<rparr>"

definition same_slot :: "pg_attempt \<Rightarrow> pg_attempt \<Rightarrow> bool" where
  "same_slot x y \<longleftrightarrow> pa_run_id x = pa_run_id y \<and> pa_attempt_number x = pa_attempt_number y"

definition upsert_attempt ::
    "string \<Rightarrow> run_attempt \<Rightarrow> pg_attempt list \<Rightarrow> pg_error + pg_attempt list" where
  "upsert_attempt run_id a rows =
     (case find (\<lambda>x. pa_attempt_id x = at_attempt_id a) rows of
        None \<Rightarrow>
          if list_ex (same_slot (attempt_row run_id a)) rows then Inl UniqueViolation
          else Inr (rows @ [attempt_row run_id a])
      | Some old \<Rightarrow>
          let row = (attempt_row run_id a)\<lparr>pa_run_id := pa_run_id old\<rparr> in
          if list_ex (\<lambda>x. pa_attempt_id x \<noteq> at_attempt_id a \<and> same_slot row x) rows
          then Inl UniqueViolation
          else Inr (map (\<lambda>x. if pa_attempt_id x = at_attempt_id a then row else x) rows))"

primrec upsert_attempts ::
    "string \<Rightarrow> run_attempt list \<Rightarrow> pg_attempt list \<Rightarrow> pg_error + pg_attempt list" where
  "upsert_attempts run_id [] rows = Inr rows"
| "upsert_attempts run_id (a # as) rows =
     (case upsert_attempt run_id a rows of
        Inl e \<Rightarrow> Inl e
      | Inr rows' \<Rightarrow> upsert_attempts run_id as rows')"

definition artifact_row :: "run_record \<Rightarrow> artifact \<Rightarrow> pg_artifact" where
  "artifact_row r a =
     \<lparr>pv_run_id = rr_run_id r, pv_attempt_id = a_attempt_id a, pv_tenant_id = rr_tenant_id r,
      pv_artifact_type = a_artifact_type a, pv_sha256 = a_hash a, pv_object_uri = a_path a,
      pv_used_as_evidence = True\<rparr>"

definition attempt_known :: "pg_attempt list \<Rightarrow> pg_artifact \<Rightarrow> bool" where
  "attempt_known rows a =
     (case pv_attempt_id a of None \<Rightarrow> True | Some i \<Rightarrow> i \<in> set (map pa_attempt_id rows))"

definition handler_row :: "run_record \<Rightarrow> nat \<times> handler_result \<Rightarrow> pg_handler" where
  "handler_row r = (\<lambda>(seq, hr).
     \<lparr>ph_run_id = rr_run_id r, ph_seq = seq, ph_handler_name = h_handler_name hr,
      ph_handler_type = handler_type_value (h_handler_type hr),
      ph_status = handler_status_value (h_status hr),
      ph_decision = handler_decision_value (h_decision hr),
      ph_failure_reasons = h_failure_reasons hr, ph_metadata = h_metadata hr\<rparr>)"

definition gate_row :: "run_record \<Rightarrow> handler_result \<Rightarrow> gate_result \<Rightarrow> pg_gate" where
  "gate_row r hr g =
     \<lparr>pg_run_id = rr_run_id r, pg_handler_name = h_handler_name hr, pg_gate_name = g_name g,
      pg_status = gate_status_value (g_status g), pg_passed = passed g, pg_reasons = g_reasons g\<rparr>"

definition result_rows :: "run_record \<Rightarrow> handler_result list" where
  "result_rows r =
     (case rr_chain_execution_result r of None \<Rightarrow> [] | Some result \<Rightarrow> r_handler_results result)"

definition decision_rows :: "run_record \<Rightarrow> pg_decision list" where
  "decision_rows r =
     (case rr_verifier_report r of
        Some report \<Rightarrow>
          [\<lparr>pd_run_id = rr_run_id r, pd_task_id = vr_task_id report,
            pd_verifier_run_id = Some (vr_verifier_run_id report),
            pd_coding_agent_run_id = Some (vr_coding_agent_run_id report),
            pd_decision = decision_value (vr_decision report),
            pd_failure_reasons = vr_failure_reasons report\<rparr>]
      | None \<Rightarrow> (case rr_chain_execution_result r of
          Some result \<Rightarrow>
            [\<lparr>pd_run_id = rr_run_id r, pd_task_id = r_task_id result, pd_verifier_run_id = None,
              pd_coding_agent_run_id = None,
              pd_decision = decision_value (r_verifier_decision result), pd_failure_reasons = []\<rparr>]
        | None \<Rightarrow> []))"

definition pg_project :: "run_record \<Rightarrow> database \<Rightarrow> pg_error + database" where
  "pg_project r db =
     (case upsert_attempts (rr_run_id r) (rr_attempts r) (db_attempts db) of
        Inl e \<Rightarrow> Inl e
      | Inr attempts \<Rightarrow>
          if \<not> list_all (attempt_known attempts) (map (artifact_row r) (rr_artifacts r))
          then Inl ForeignKeyViolation
          else Inr (db\<lparr>db_attempts := attempts,
                 db_artifacts := db_artifacts db @ map (artifact_row r) (rr_artifacts r),
                 db_handlers := db_handlers db @ map (handler_row r) (enumerate 0 (result_rows r)),
                 db_gates := db_gates db
                   @ concat (map (\<lambda>hr. map (gate_row r hr) (h_gate_results hr)) (result_rows r)),
                 db_decisions := db_decisions db @ decision_rows r\<rparr>))"

text \<open>The rows of one run, deleted from every projection that is rewritten.\<close>

definition pg_clear :: "string \<Rightarrow> database \<Rightarrow> database" where
  "pg_clear k db = db
     \<lparr>db_artifacts := filter (\<lambda>x. pv_run_id x \<noteq> k) (db_artifacts db),
      db_handlers := filter (\<lambda>x. ph_run_id x \<noteq> k) (db_handlers db),
      db_gates := filter (\<lambda>x. pg_run_id x \<noteq> k) (db_gates db),
      db_decisions := filter (\<lambda>x. pd_run_id x \<noteq> k) (db_decisions db)\<rparr>"

definition pg_save :: "models \<Rightarrow> run_record \<Rightarrow> database \<Rightarrow> pg_error + database" where
  "pg_save md r db =
     pg_project r
       (pg_clear (rr_run_id r) (db\<lparr>db_runs := dict_set (rr_run_id r) (run_row md r) (db_runs db)\<rparr>))"

definition pg_add :: "models \<Rightarrow> run_record \<Rightarrow> database \<Rightarrow> pg_error + database" where
  "pg_add = pg_save"

section \<open>Reading\<close>

definition pg_get :: "models \<Rightarrow> database \<Rightarrow> string \<Rightarrow> run_record res option" where
  "pg_get md db k = map_option (\<lambda>row. record_from_snapshot md (pr_snapshot row)) (map_of (db_runs db) k)"

definition pg_list :: "models \<Rightarrow> database \<Rightarrow> run_record res list" where
  "pg_list md db = map (\<lambda>(k, row). record_from_snapshot md (pr_snapshot row)) (db_runs db)"

section \<open>What the adapter promises\<close>

lemma pg_project_spec:
  assumes "pg_project r db = Inr db'"
  shows "db_runs db' = db_runs db"
    and "db_artifacts db' = db_artifacts db @ map (artifact_row r) (rr_artifacts r)"
    and "db_handlers db' = db_handlers db @ map (handler_row r) (enumerate 0 (result_rows r))"
    and "db_gates db' = db_gates db
           @ concat (map (\<lambda>hr. map (gate_row r hr) (h_gate_results hr)) (result_rows r))"
    and "db_decisions db' = db_decisions db @ decision_rows r"
    and "upsert_attempts (rr_run_id r) (rr_attempts r) (db_attempts db) = Inr (db_attempts db')"
  using assms by (auto simp: pg_project_def split: sum.splits if_splits)

lemma pg_save_runs:
  assumes "pg_save md r db = Inr db'"
  shows "db_runs db' = dict_set (rr_run_id r) (run_row md r) (db_runs db)"
  using pg_project_spec(1) [OF assms [unfolded pg_save_def]] by (simp add: pg_clear_def)

text \<open>The projections of a run are rewritten to what its record says; no other run's rows move.\<close>

definition rows_of :: "string \<Rightarrow> database \<Rightarrow> pg_artifact list \<times> pg_handler list \<times> pg_gate list \<times> pg_decision list"
  where "rows_of k db =
     (filter (\<lambda>x. pv_run_id x = k) (db_artifacts db), filter (\<lambda>x. ph_run_id x = k) (db_handlers db),
      filter (\<lambda>x. pg_run_id x = k) (db_gates db), filter (\<lambda>x. pd_run_id x = k) (db_decisions db))"

definition projection :: "run_record \<Rightarrow> pg_artifact list \<times> pg_handler list \<times> pg_gate list \<times> pg_decision list"
  where "projection r =
     (map (artifact_row r) (rr_artifacts r), map (handler_row r) (enumerate 0 (result_rows r)),
      concat (map (\<lambda>hr. map (gate_row r hr) (h_gate_results hr)) (result_rows r)), decision_rows r)"

lemma filter_map_const: "(\<And>x. P (f x) = b) \<Longrightarrow> filter P (map f xs) = (if b then map f xs else [])"
  by (induction xs) auto

lemma filter_gates:
  "filter (\<lambda>x. pg_run_id x = k) (concat (map (\<lambda>hr. map (gate_row r hr) (h_gate_results hr)) hrs)) =
     (if rr_run_id r = k then concat (map (\<lambda>hr. map (gate_row r hr) (h_gate_results hr)) hrs) else [])"
proof (induction hrs)
  case (Cons hr hrs)
  have "pg_run_id (gate_row r hr g) = rr_run_id r" for g by (simp add: gate_row_def)
  with Cons show ?case by (simp add: filter_map_const [where b = "rr_run_id r = k"])
qed simp

lemma filter_decisions:
  "filter (\<lambda>x. pd_run_id x = k) (decision_rows r) = (if rr_run_id r = k then decision_rows r else [])"
  by (auto simp: decision_rows_def split: option.split)

lemma pg_save_rows:
  assumes "pg_save md r db = Inr db'"
  shows "rows_of k db' = (if k = rr_run_id r then projection r else rows_of k db)"
proof -
  note spec = pg_project_spec [OF assms [unfolded pg_save_def]]
  have "filter (\<lambda>x. pv_run_id x = k) (map (artifact_row r) as) =
      (if rr_run_id r = k then map (artifact_row r) as else [])"
    "filter (\<lambda>x. ph_run_id x = k) (map (handler_row r) hs) =
      (if rr_run_id r = k then map (handler_row r) hs else [])" for as hs
    by (intro filter_map_const; auto simp: artifact_row_def handler_row_def)+
  then show ?thesis
    by (auto simp: rows_of_def projection_def spec pg_clear_def filter_gates filter_decisions
        filter_filter intro!: filter_cong)
qed

text \<open>The database shows some runs, in the same order, when these are what is read back from its rows.\<close>

definition shows_runs :: "models \<Rightarrow> database \<Rightarrow> run_repository \<Rightarrow> bool" where
  "shows_runs md db runs \<longleftrightarrow>
     list_all2 (\<lambda>(k, row) (k', r). k = k' \<and> record_from_snapshot md (pr_snapshot row) = Inr r)
       (db_runs db) runs"

lemma list_all2_dict_set:
  assumes "list_all2 (\<lambda>(k, x) (k', y). k = k' \<and> P x y) d e" and "P u w"
  shows "list_all2 (\<lambda>(k, x) (k', y). k = k' \<and> P x y) (dict_set i u d) (dict_set i w e)"
  using assms by (induction d e rule: list_all2_induct) auto

lemma shows_runs_save:
  assumes "shows_runs md db runs" and "pg_save md r db = Inr db'"
    and "record_from_snapshot md (record_to_snapshot md r) = Inr r'" and "rr_run_id r' = rr_run_id r"
  shows "shows_runs md db' (repo_save r' runs)"
  using assms list_all2_dict_set
    [of "\<lambda>row r. record_from_snapshot md (pr_snapshot row) = Inr r" "db_runs db" runs "run_row md r" r']
  by (simp add: shows_runs_def pg_save_runs repo_save_def run_row_def)

lemma shows_runs_get:
  "shows_runs md db runs \<Longrightarrow> pg_get md db k = map_option Inr (repo_get runs k)"
  unfolding shows_runs_def pg_get_def repo_get_def
  by (induction rule: list_all2_induct) auto

lemma shows_runs_list: "shows_runs md db runs \<Longrightarrow> pg_list md db = map Inr (repo_list runs)"
  unfolding shows_runs_def pg_list_def repo_list_def
  by (induction rule: list_all2_induct) auto

section \<open>Saving again\<close>

definition empty_database :: database where
  "empty_database =
     \<lparr>db_runs = [], db_attempts = [], db_artifacts = [], db_handlers = [], db_gates = [], db_decisions = []\<rparr>"

text \<open>Saving rewrites the projection rows of its run alone, and saving again changes none.\<close>

lemma saving_rewrites_projections:
  assumes "pg_save md r db = Inr db1" and "pg_save md r db1 = Inr db2"
  shows "rows_of (rr_run_id r) db1 = projection r
    \<and> (\<forall>k. k \<noteq> rr_run_id r \<longrightarrow> rows_of k db1 = rows_of k db)
    \<and> (\<forall>k. rows_of k db2 = rows_of k db1) \<and> db_runs db2 = db_runs db1"
proof -
  have "dict_set k x (dict_set k x d) = dict_set k x d" for k and x :: pg_run and d
    by (induction k x d rule: dict_set.induct) auto
  then have "db_runs db2 = db_runs db1" using pg_save_runs [OF assms(1)] pg_save_runs [OF assms(2)] by simp
  then show ?thesis using pg_save_rows [OF assms(1)] pg_save_rows [OF assms(2)] by simp
qed

end
