(* ===== verification/Api.thy ===== *)
theory Api
  imports Runtime Router Postgres_Store
begin

text \<open>
  The HTTP surface (\<open>api/routes_runs.py\<close>, \<open>api/routes_chains.py\<close>, \<open>api/routes_models.py\<close>,
  the health check of \<open>main.py\<close>) over the in-memory repository.  A route is a computation on the
  server that answers with a body or an HTTP error; an exception that escapes it is the
  framework's 500.  Request bodies arrive validated.  Every route that changes the store
  is a step of the server, and the invariant of the steps says what the store may hold.
\<close>

section \<open>The server\<close>

record server =
  api_runs :: run_repository
  api_settings :: runtime_settings
  api_world :: world
  api_uuids :: nat

datatype 'a response = Respond 'a | HttpError nat json

type_synonym 'a route = "(server, 'a response) comp"

definition api_save :: "run_record \<Rightarrow> (server, unit) comp" where
  "api_save r = modC (\<lambda>s. s\<lparr>api_runs := repo_save r (api_runs s)\<rparr>)"

definition on_server_world :: "(world, 'a) comp \<Rightarrow> (server, 'a) comp" where
  "on_server_world = zoomC api_world (\<lambda>w. api_world_update (\<lambda>_. w))"

definition not_found :: "string \<Rightarrow> 'a response" where
  "not_found what = HttpError 404 (JStr (what @ '' not found''))"

text \<open>The lookup every route starts with.\<close>

definition with_run :: "string \<Rightarrow> (run_record \<Rightarrow> 'a route) \<Rightarrow> 'a route" where
  "with_run run_id f =
     bindC (getC api_runs) (\<lambda>runs.
     case repo_get runs run_id of None \<Rightarrow> ret (not_found ''run'') | Some record \<Rightarrow> f record)"

section \<open>Runs\<close>

record create_run_response =
  cr_run_id :: string
  cr_state :: string
  cr_manifest_gate :: gate_result

text \<open>\<open>uuid.uuid4().hex[:12]\<close> is a parameter: what the generator gives at its n-th call.\<close>

definition fresh_run_id :: "(nat \<Rightarrow> string) \<Rightarrow> (server, string) comp" where
  "fresh_run_id uuid =
     bindC (getC api_uuids) (\<lambda>n.
     bindC (modC (\<lambda>s. s\<lparr>api_uuids := Suc n\<rparr>)) (\<lambda>_.
     ret (''run-'' @ take 12 (uuid n))))"

definition create_run :: "(nat \<Rightarrow> string) \<Rightarrow> run_manifest \<Rightarrow> create_run_response route" where
  "create_run uuid manifest =
     (let gate = manifest_gate manifest in
      if \<not> passed gate then ret (HttpError 422 (gate_json gate))
      else
        bindC (if m_run_id manifest \<noteq> [] then ret (m_run_id manifest) else fresh_run_id uuid) (\<lambda>run_id.
        let record = new_run_record run_id manifest in
        bindC (modC (\<lambda>s. s\<lparr>api_runs := repo_add record (api_runs s)\<rparr>)) (\<lambda>_.
        ret (Respond \<lparr>cr_run_id = run_id, cr_state = rr_state record, cr_manifest_gate = gate\<rparr>))))"

definition list_runs :: "(server, (string \<times> string) list) comp" where
  "list_runs = getC (\<lambda>s. map (\<lambda>r. (rr_run_id r, rr_state r)) (repo_list (api_runs s)))"

definition decision_of :: "run_record \<Rightarrow> decision" where
  "decision_of r = (case rr_verifier_report r of Some report \<Rightarrow> vr_decision report | None \<Rightarrow> D_PENDING)"

record run_view =
  gr_run_id :: string
  gr_state :: string
  gr_manifest :: run_manifest
  gr_verifier_decision :: decision

definition get_run :: "string \<Rightarrow> run_view route" where
  "get_run run_id = with_run run_id (\<lambda>record.
     ret (Respond \<lparr>gr_run_id = rr_run_id record, gr_state = rr_state record,
                   gr_manifest = rr_manifest record, gr_verifier_decision = decision_of record\<rparr>))"

definition get_run_state :: "string \<Rightarrow> (string \<times> string) route" where
  "get_run_state run_id = with_run run_id (\<lambda>record.
     ret (Respond (rr_run_id record, rr_state record)))"

record verify_response =
  ve_run_id :: string
  ve_reported_decision :: decision
  ve_effective_decision :: decision
  ve_no_self_certification_gate :: gate_result
  ve_evidence_gate :: gate_result

definition verify_self_cert :: "verifier_report \<Rightarrow> evidence_ledger \<Rightarrow> gate_result" where
  "verify_self_cert report ledger =
     no_self_certification_gate (JStr (vr_coding_agent_run_id report)) (vr_verifier_run_id report)
       [] [] (vr_decision report) (l_agent_self_certification_used ledger) False"

definition verify_evidence :: "run_record \<Rightarrow> verifier_report \<Rightarrow> evidence_ledger \<Rightarrow> gate_result" where
  "verify_evidence record report ledger =
     evidence_gate ledger (rr_run_id record) (vr_task_id report) []"

definition effective_decision :: "run_record \<Rightarrow> verifier_report \<Rightarrow> evidence_ledger \<Rightarrow> decision" where
  "effective_decision record report ledger =
     (let blocking = filter (\<lambda>g. \<not> passed g)
            [verify_self_cert report ledger, verify_evidence record report ledger] in
      if vr_decision report = D_PASS \<and> blocking \<noteq> [] then D_FAIL else vr_decision report)"

definition verify_run :: "string \<Rightarrow> verifier_report \<Rightarrow> evidence_ledger \<Rightarrow> verify_response route" where
  "verify_run run_id report ledger = with_run run_id (\<lambda>record.
     let effective = effective_decision record report ledger in
     bindC (api_save (record\<lparr>rr_verifier_report := Some (report\<lparr>vr_decision := effective\<rparr>),
                             rr_state := ''VERIFY''\<rparr>)) (\<lambda>_.
     ret (Respond \<lparr>ve_run_id = rr_run_id record, ve_reported_decision = vr_decision report,
                   ve_effective_decision = effective,
                   ve_no_self_certification_gate = verify_self_cert report ledger,
                   ve_evidence_gate = verify_evidence record report ledger\<rparr>)))"

record pr_response =
  pe_run_id :: string
  pe_pr_url :: string
  pe_pr_gate :: gate_result
  pe_auto_merge :: bool
  pe_auto_deploy :: bool
  pe_human_approval_required :: bool

definition request_pr_facts :: "run_manifest \<Rightarrow> string \<Rightarrow> string \<Rightarrow> pr_facts" where
  "request_pr_facts m pr_url pr_skip_reason =
     no_pr_facts\<lparr>pf_pr_url := pr_url, pf_pr_skip_reason := pr_skip_reason,
                 pf_auto_merge := m_auto_merge m, pf_auto_deploy := m_auto_deploy m\<rparr>"

definition create_or_update_pr :: "string \<Rightarrow> string \<Rightarrow> string \<Rightarrow> pr_response route" where
  "create_or_update_pr run_id pr_url pr_skip_reason = with_run run_id (\<lambda>record.
     if decision_of record \<noteq> D_PASS
     then ret (HttpError 409 (JStr ''verifier PASS required before PR creation''))
     else
       let gate = pr_gate (decision_of record)
                    (request_pr_facts (rr_manifest record) pr_url pr_skip_reason) in
       if \<not> passed gate then ret (HttpError 422 (gate_json gate))
       else
         bindC (api_save (record\<lparr>rr_state := ''PR_GATE''\<rparr>)) (\<lambda>_.
         ret (Respond \<lparr>pe_run_id = rr_run_id record, pe_pr_url = pr_url, pe_pr_gate = gate,
                       pe_auto_merge = False, pe_auto_deploy = False,
                       pe_human_approval_required = True\<rparr>)))"

section \<open>Chains\<close>

definition api_blocked_result :: "string \<Rightarrow> chain_request \<Rightarrow> string \<Rightarrow> chain_result" where
  "api_blocked_result run_id q reason =
     \<lparr>r_run_id = (if q_run_id q \<noteq> [] then q_run_id q else run_id), r_task_id = q_task_id q,
      r_task_type = task_type_value (q_task_type q), r_chain_id = [], r_mode = q_mode q,
      r_handler_results =
        [\<lparr>h_handler_name = ''WorkspacePolicy'', h_handler_type = HT_PURE_CHECK,
          h_status = HS_BLOCKED, h_decision = HD_BLOCKED, h_artifacts_created = [],
          h_gate_results = [], h_failure_reasons = [reason], h_required_corrections = [],
          h_metadata = []\<rparr>],
      r_final_status = FS_BLOCKED, r_verifier_decision = D_BLOCKED, r_eval_score = None,
      r_pr_status = PR_BLOCKED, r_agent_self_certification_used = False, r_auto_merge = False,
      r_auto_deploy = False, r_evidence_artifacts = []\<rparr>"

definition definition_json :: "chain_definition \<Rightarrow> json" where
  "definition_json d = JObj
     [(''chain_id'', JStr (cd_chain_id d)), (''mode'', JStr (run_type_value (cd_mode d))),
      (''handler_names'', jstrs (cd_handler_names d))]"

definition list_chains :: "json list" where
  "list_chains = map (definition_json \<circ> snd) CHAIN_DEFINITIONS"

definition get_chain :: "string \<Rightarrow> json response" where
  "get_chain chain_id =
     (case map_of CHAIN_DEFINITIONS chain_id of
        None \<Rightarrow> not_found ''chain''
      | Some d \<Rightarrow> Respond (definition_json d))"

definition chain_plan :: "string \<Rightarrow> chain_request \<Rightarrow> json" where
  "chain_plan run_id q =
     (let envelope = gate_json (gate_of ''chain_envelope'' (canonical_violations q)) in
      case resolve_chain (task_type_value (q_task_type q)) of
        None \<Rightarrow> JObj
          [(''run_id'', JStr run_id), (''task_type'', JStr (task_type_value (q_task_type q))),
           (''final_status'', JStr ''BLOCKED''),
           (''reason'', JStr ''unknown task_type has no registered chain''),
           (''envelope_gate'', envelope)]
      | Some chain \<Rightarrow> JObj
          [(''run_id'', JStr run_id), (''task_type'', JStr (task_type_value (q_task_type q))),
           (''chain_id'', JStr (cd_chain_id chain)), (''mode'', JStr (run_type_value (cd_mode chain))),
           (''handler_names'', jstrs (cd_handler_names chain)), (''envelope_gate'', envelope),
           (''execution'', JStr ''deferred: chain execution requires runners + a checkout''),
           (''auto_merge'', JBool False), (''auto_deploy'', JBool False)])"

definition plan_chain :: "string \<Rightarrow> chain_request \<Rightarrow> json route" where
  "plan_chain run_id q = with_run run_id (\<lambda>record.
     bindC (api_save (record\<lparr>rr_chain_result := Some (chain_plan run_id q)\<rparr>)) (\<lambda>_.
     ret (Respond (chain_plan run_id q))))"

definition quoted :: "string \<Rightarrow> string" where
  "quoted s = [CHR 0x27] @ s @ [CHR 0x27]"

definition identity_mismatch :: "string \<Rightarrow> 'a response" where
  "identity_mismatch msg = HttpError 422 (JObj [(''identity_mismatch'', JStr msg)])"

text \<open>The three identity checks, and the request with the identity of the URL and the record.\<close>

definition identity_error :: "string \<Rightarrow> run_record \<Rightarrow> chain_request \<Rightarrow> string option" where
  "identity_error run_id record q =
     (let mrun = m_run_id (rr_manifest record); mtask = m_task_id (rr_manifest record) in
      if q_run_id q \<noteq> [] \<and> q_run_id q \<noteq> run_id
      then Some (''body.request.run_id '' @ quoted (q_run_id q) @ '' != URL run_id '' @ quoted run_id)
      else if mrun \<noteq> [] \<and> mrun \<noteq> run_id
      then Some (''registered manifest run_id '' @ quoted mrun @ '' != URL run_id '' @ quoted run_id)
      else if mtask \<noteq> [] \<and> q_task_id q \<noteq> [] \<and> q_task_id q \<noteq> mtask
      then Some (''body.request.task_id '' @ quoted (q_task_id q) @ '' != registered task_id '' @ quoted mtask)
      else None)"

definition bind_identity :: "string \<Rightarrow> run_record \<Rightarrow> chain_request \<Rightarrow> chain_request" where
  "bind_identity run_id record q =
     q\<lparr>q_run_id := run_id,
       q_task_id := (if q_task_id q = [] \<and> m_task_id (rr_manifest record) \<noteq> []
                     then m_task_id (rr_manifest record) else q_task_id q)\<rparr>"

text \<open>The guarded part of the route: allocate, run, and note the attempt and its artifacts.\<close>

definition run_attempt_of ::
    "env \<Rightarrow> runtime_executor \<Rightarrow> run_record \<Rightarrow> chain_request \<Rightarrow> string
     \<Rightarrow> (world, run_record \<times> chain_result) comp" where
  "run_attempt_of v runtime record q source_path =
     bindC (allocate v (re_root runtime) record (PathStr source_path)) (\<lambda>allocation.
     let attempt = wa_attempt allocation in
     bindC (runtime_execute v runtime q (PathObj (wa_execution_path allocation))
              (Some (at_attempt_id attempt))) (\<lambda>result.
     ret (record\<lparr>rr_attempts := rr_attempts record @
                   [attempt\<lparr>at_final_status := Some (final_status_value (r_final_status result))\<rparr>],
                 rr_artifacts := rr_artifacts record @ r_evidence_artifacts result\<rparr>,
          result)))"

text \<open>A bad workspace never executes and records no attempt; any other exception escapes.\<close>

definition guarded_attempt ::
    "env \<Rightarrow> runtime_executor \<Rightarrow> string \<Rightarrow> run_record \<Rightarrow> chain_request \<Rightarrow> string
     \<Rightarrow> (server, run_record \<times> chain_result) comp" where
  "guarded_attempt v runtime run_id record q source_path =
     catchC (on_server_world (run_attempt_of v runtime record q source_path))
       (\<lambda>e. case e of
          WorkspacePolicyError msg \<Rightarrow>
            ret (record, api_blocked_result run_id q (''workspace policy: '' @ msg))
        | _ \<Rightarrow> throw e)"

definition execute_chain ::
    "env \<Rightarrow> string \<Rightarrow> chain_request \<Rightarrow> string \<Rightarrow> chain_result route" where
  "execute_chain v run_id request execution_path = with_run run_id (\<lambda>record.
     case identity_error run_id record request of
       Some msg \<Rightarrow> ret (identity_mismatch msg)
     | None \<Rightarrow>
       let q = bind_identity run_id record request in
       if canonical_violations q \<noteq> []
       then ret (HttpError 422 (JObj [(''envelope_violations'', jstrs (canonical_violations q))]))
       else
         bindC (getC api_settings) (\<lambda>settings.
         if rt_production_mode settings \<and> execution_path \<noteq> []
         then ret (HttpError 422 (JObj [(''caller_execution_path_forbidden'',
                JStr (''execution_path is not accepted in production mode; ''
                      @ ''the server allocates the workspace''))]))
         else
           let source_path = (if rt_production_mode settings \<or> execution_path = []
                              then str_path (rt_workspace_root settings) else execution_path) in
           bindC (getC api_world) (\<lambda>w.
           bindC (liftC (build_runtime_executor v w settings)) (\<lambda>runtime.
           bindC (guarded_attempt v runtime run_id record q source_path) (\<lambda>(record', result).
           bindC (api_save (record'\<lparr>rr_chain_execution_result := Some result,
                                    rr_state := ''EXECUTE_CHAIN''\<rparr>)) (\<lambda>_.
           ret (Respond result)))))))"

definition get_chain_results :: "string \<Rightarrow> (json + chain_result) route" where
  "get_chain_results run_id = with_run run_id (\<lambda>record.
     ret (case rr_chain_execution_result record of
            Some result \<Rightarrow> Respond (Inr result)
          | None \<Rightarrow> (case rr_chain_result record of
              Some plan \<Rightarrow> Respond (Inl plan)
            | None \<Rightarrow> HttpError 404 (JStr ''no chain planned or executed for this run''))))"

definition get_run_attempts :: "string \<Rightarrow> json list route" where
  "get_run_attempts run_id = with_run run_id (\<lambda>record.
     ret (Respond (map attempt_json (rr_attempts record))))"

section \<open>Models and health\<close>

definition model_roles :: "model_role list" where
  "model_roles = [MR_CODING_AGENT, MR_VERIFIER, MR_EVALUATOR, MR_ANALYST, MR_ROUTER]"

definition models_summary :: json where
  "models_summary = JObj
     [(''roles'', jstrs (map model_role_value model_roles)),
      (''providers'', jstrs (sort (remdups (map ce_provider MODEL_CATALOG)))),
      (''catalog_size'', JInt (int (length MODEL_CATALOG))),
      (''live_calls_available'', JBool (list_ex ce_live_calls_available MODEL_CATALOG))]"

definition run_llm_invocations :: "string \<Rightarrow> json list route" where
  "run_llm_invocations run_id = with_run run_id (\<lambda>record. ret (Respond (rr_llm_invocations record)))"

definition health :: json where
  "health = JObj
     [(''status'', JStr ''ok''), (''auto_merge'', JBool False), (''auto_deploy'', JBool False),
      (''self_certification_allowed'', JBool False)]"

end
