(* ===== verification/Api_Safety.thy ===== *)
theory Api_Safety
  imports Api
begin

text \<open>
  What the server keeps whatever requests it serves, in whatever order: the routes that write
  are the steps of the relation \<open>api_step\<close>, next to changes of the world and the settings from
  outside, and \<open>server_ok\<close> is their invariant.  It says which decisions a stored report
  may carry, which records stand before the PR gate and how attempts and artifacts are numbered;
  a record that meets it can always be written to the durable store.
\<close>

section \<open>The invariant of a record\<close>

definition attempts_ok :: "run_record \<Rightarrow> bool" where
  "attempts_ok r \<longleftrightarrow>
     map (\<lambda>a. (at_attempt_id a, at_attempt_number a)) (rr_attempts r) =
     map (\<lambda>i. (attempt_id (rr_run_id r) i, int i)) [1..<Suc (length (rr_attempts r))]"

definition artifacts_ok :: "run_record \<Rightarrow> bool" where
  "artifacts_ok r \<longleftrightarrow>
     (\<forall>a \<in> set (rr_artifacts r). a_run_id a = rr_run_id r \<and> a_hash a \<noteq> []
        \<and> a_attempt_id a \<in> Some ` at_attempt_id ` set (rr_attempts r))"

text \<open>
  A stored PASS is bound to a task and a run, and where its report names the run of a verifier, that is
  not the run of the coding agent.  A report that names none is not turned down.
\<close>

definition bound_pass :: "run_record \<Rightarrow> bool" where
  "bound_pass r \<longleftrightarrow>
     (case rr_verifier_report r of
        None \<Rightarrow> False
      | Some p \<Rightarrow> vr_decision p = D_PASS \<and> vr_task_id p \<noteq> [] \<and> rr_run_id r \<noteq> []
          \<and> (vr_verifier_run_id p \<noteq> [] \<longrightarrow> vr_coding_agent_run_id p \<noteq> vr_verifier_run_id p))"

definition record_ok :: "run_record \<Rightarrow> bool" where
  "record_ok r \<longleftrightarrow> passed (manifest_gate (rr_manifest r))
     \<and> (rr_state r = ''PR_GATE'' \<longrightarrow> decision_of r = D_PASS)
     \<and> (decision_of r = D_PASS \<longrightarrow> bound_pass r)
     \<and> attempts_ok r \<and> artifacts_ok r"

definition server_ok :: "server \<Rightarrow> bool" where
  "server_ok s \<longleftrightarrow> repo_wf (api_runs s) \<and> list_all record_ok (repo_list (api_runs s))"

lemma new_record_ok: "passed (manifest_gate m) \<Longrightarrow> record_ok (new_run_record k m)"
  by (simp add: record_ok_def new_run_record_def decision_of_def attempts_ok_def artifacts_ok_def)

lemma attempts_ok_numbers:
  assumes "attempts_ok r"
  shows "map at_attempt_number (rr_attempts r) = map int [1..<Suc (length (rr_attempts r))]"
    and "map at_attempt_id (rr_attempts r) = map (attempt_id (rr_run_id r)) [1..<Suc (length (rr_attempts r))]"
proof -
  let ?l = "map (\<lambda>a. (at_attempt_id a, at_attempt_number a)) (rr_attempts r)"
  have "map snd ?l = map int [1..<Suc (length (rr_attempts r))]"
    "map fst ?l = map (attempt_id (rr_run_id r)) [1..<Suc (length (rr_attempts r))]"
    by (simp_all only: assms [unfolded attempts_ok_def] map_map comp_def fst_conv snd_conv)
  then show "map at_attempt_number (rr_attempts r) = map int [1..<Suc (length (rr_attempts r))]"
    "map at_attempt_id (rr_attempts r) = map (attempt_id (rr_run_id r)) [1..<Suc (length (rr_attempts r))]"
    by (simp_all add: comp_def)
qed

text \<open>The parts of a record the invariant does not look at.\<close>

lemma bound_pass_update [simp]:
  "bound_pass (r\<lparr>rr_chain_result := x\<rparr>) = bound_pass r"
  "bound_pass (r\<lparr>rr_state := st\<rparr>) = bound_pass r"
  "bound_pass (r\<lparr>rr_chain_execution_result := y\<rparr>) = bound_pass r"
  "bound_pass (r\<lparr>rr_attempts := ats\<rparr>) = bound_pass r"
  "bound_pass (r\<lparr>rr_artifacts := arts\<rparr>) = bound_pass r"
  by (simp_all add: bound_pass_def split: option.split)

lemma decision_of_update [simp]:
  "decision_of (r\<lparr>rr_chain_result := x\<rparr>) = decision_of r"
  "decision_of (r\<lparr>rr_state := st\<rparr>) = decision_of r"
  "decision_of (r\<lparr>rr_chain_execution_result := y\<rparr>) = decision_of r"
  "decision_of (r\<lparr>rr_attempts := ats\<rparr>) = decision_of r"
  "decision_of (r\<lparr>rr_artifacts := arts\<rparr>) = decision_of r"
  by (simp_all add: decision_of_def)

lemma numbered_update [simp]:
  "attempts_ok (r\<lparr>rr_chain_result := x\<rparr>) = attempts_ok r"
  "attempts_ok (r\<lparr>rr_state := st\<rparr>) = attempts_ok r"
  "attempts_ok (r\<lparr>rr_chain_execution_result := y\<rparr>) = attempts_ok r"
  "artifacts_ok (r\<lparr>rr_chain_result := x\<rparr>) = artifacts_ok r"
  "artifacts_ok (r\<lparr>rr_state := st\<rparr>) = artifacts_ok r"
  "artifacts_ok (r\<lparr>rr_chain_execution_result := y\<rparr>) = artifacts_ok r"
  by (simp_all add: attempts_ok_def artifacts_ok_def)

section \<open>The steps of the server\<close>

inductive api_step :: "env \<Rightarrow> (nat \<Rightarrow> string) \<Rightarrow> server \<Rightarrow> server \<Rightarrow> bool" for v uuid where
  created: "create_run uuid m s = (x, s') \<Longrightarrow> api_step v uuid s s'"
| verified: "verify_run k report ledger s = (x, s') \<Longrightarrow> api_step v uuid s s'"
| requested_pr: "create_or_update_pr k url why s = (x, s') \<Longrightarrow> api_step v uuid s s'"
| planned: "plan_chain k q s = (x, s') \<Longrightarrow> api_step v uuid s s'"
| executed: "execute_chain v k q path s = (x, s') \<Longrightarrow> api_step v uuid s s'"
| outside: "api_step v uuid s (s\<lparr>api_world := w, api_settings := settings\<rparr>)"

definition served :: "env \<Rightarrow> (nat \<Rightarrow> string) \<Rightarrow> server \<Rightarrow> bool" where
  "served v uuid s \<longleftrightarrow> (\<exists>s0. api_runs s0 = [] \<and> (api_step v uuid)\<^sup>*\<^sup>* s0 s)"

section \<open>Every step keeps the invariant\<close>

lemma server_ok_runs:
  "server_ok s \<Longrightarrow> api_runs s' = api_runs s \<Longrightarrow> server_ok s'"
  by (simp add: server_ok_def)

lemma server_ok_save:
  assumes "server_ok s" and "record_ok r"
  shows "server_ok (s\<lparr>api_runs := dict_set (rr_run_id r) r (api_runs s)\<rparr>)"
proof -
  have "list_all (\<lambda>x. record_ok (snd x)) (dict_set (rr_run_id r) r (api_runs s))"
    using assms by (intro dict_set_all) (auto simp: server_ok_def repo_list_def list_all_iff)
  then show ?thesis
    using assms repo_wf_save [of "api_runs s" r]
    by (auto simp: server_ok_def repo_list_def repo_save_def list_all_iff)
qed

lemma server_ok_get:
  assumes "server_ok s" and "repo_get (api_runs s) k = Some r"
  shows "record_ok r" and "rr_run_id r = k"
proof -
  have "r \<in> set (repo_list (api_runs s))"
    using assms(2) by (force simp: repo_get_def repo_list_def dest: map_of_SomeD)
  then show "record_ok r" using assms(1) by (auto simp: server_ok_def list_all_iff)
  show "rr_run_id r = k" using assms repo_wf_get by (auto simp: server_ok_def)
qed

text \<open>A route either leaves the server alone or works on the record it found.\<close>

lemma with_run_cases:
  assumes "with_run k f s = (x, s')"
  obtains "s' = s" | r where "repo_get (api_runs s) k = Some r" and "f r s = (x, s')"
  using assms by (auto simp: with_run_def bindC_def getC_def ret_def split: option.splits)

lemma create_run_ok:
  assumes s: "server_ok s" and run: "create_run uuid m s = (x, s')"
  shows "server_ok s'"
proof (cases "passed (manifest_gate m)")
  case False
  then show ?thesis using assms by (simp add: create_run_def Let_def)
next
  case True
  have save: "server_ok (t\<lparr>api_runs := repo_add (new_run_record k m) (api_runs t)\<rparr>)" if "server_ok t" for t k
  proof -
    have "record_ok (new_run_record k m)" using True by (rule new_record_ok)
    from server_ok_save [OF that this] show ?thesis by (simp add: repo_add_def)
  qed
  have "server_ok (s\<lparr>api_uuids := n\<rparr>)" for n using s server_ok_runs by simp
  from save [OF this] save [OF s] show ?thesis
    using run True by (auto simp: create_run_def Let_def comp_defs fresh_run_id_def split: if_splits)
qed

lemma effective_pass:
  assumes "effective_decision record report ledger = D_PASS"
  shows "passed (verify_self_cert report ledger)" and "passed (verify_evidence record report ledger)"
    and "vr_decision report = D_PASS"
  using assms by (auto simp: effective_decision_def Let_def split: if_splits)

lemma verify_run_ok:
  assumes s: "server_ok s" and run: "verify_run k report ledger s = (x, s')"
  shows "server_ok s'"
  using run unfolding verify_run_def
proof (cases rule: with_run_cases)
  case (2 r)
  let ?e = "effective_decision r report ledger"
  let ?r = "r\<lparr>rr_verifier_report := Some (report\<lparr>vr_decision := ?e\<rparr>), rr_state := ''VERIFY''\<rparr>"
  have "record_ok r" using server_ok_get [OF s 2(1)] by simp
  moreover have "?e = D_PASS \<Longrightarrow> bound_pass ?r"
    using effective_pass [of r report ledger]
    by (auto simp: bound_pass_def verify_self_cert_def verify_evidence_def
        no_self_certification_passed evidence_gate_passed ledger_linked_def)
  ultimately have "record_ok ?r"
    by (simp add: record_ok_def decision_of_def attempts_ok_def artifacts_ok_def)
  then show ?thesis using server_ok_save [OF s, of ?r] 2(2)
    by (auto simp: Let_def comp_defs api_save_def repo_save_def)
qed (simp add: s)

lemma pr_ok:
  assumes s: "server_ok s" and run: "create_or_update_pr k url why s = (x, s')"
  shows "server_ok s'"
  using run unfolding create_or_update_pr_def
proof (cases rule: with_run_cases)
  case (2 r)
  have r: "record_ok r" using server_ok_get [OF s 2(1)] by simp
  show ?thesis
  proof (cases "decision_of r = D_PASS")
    case True
    then have "record_ok (r\<lparr>rr_state := ''PR_GATE''\<rparr>)" using r
      by (simp add: record_ok_def)
    then show ?thesis using server_ok_save [OF s, of "r\<lparr>rr_state := ''PR_GATE''\<rparr>"] 2(2) s
      by (auto simp: Let_def comp_defs api_save_def repo_save_def split: if_splits)
  qed (use 2 s in \<open>simp add: comp_defs\<close>)
qed (simp add: s)

lemma plan_chain_ok:
  assumes s: "server_ok s" and run: "plan_chain k q s = (x, s')"
  shows "server_ok s'"
  using run unfolding plan_chain_def
proof (cases rule: with_run_cases)
  case (2 r)
  let ?r = "r\<lparr>rr_chain_result := Some (chain_plan k q)\<rparr>"
  have "record_ok ?r" using server_ok_get [OF s 2(1)]
    by (simp add: record_ok_def)
  then show ?thesis using server_ok_save [OF s, of ?r] 2(2)
    by (simp add: comp_defs api_save_def repo_save_def)
qed (simp add: s)

text \<open>The artifacts of a run carry the identity of the run and of the attempt's store.\<close>

lemma execute_artifacts:
  assumes "execute v (build_default_registry v) q sv w = (Inr res, w')"
  shows "list_all (artifact_ok (sv_store sv) (q_run_id q)) (r_evidence_artifacts res)"
proof -
  obtain d where run: "run_chain v (build_default_registry v) (chain_of (q_task_type q))
      (start_context q sv w) = (Inr res, d)"
    using assms by (auto simp: execute_run split: prod.splits)
  note spec = default.chain_spec [OF run start_pending]
  have "ctx_ok d" using spec(8) start_ok by (auto simp: progress_def)
  then have "list_all (artifact_ok (x_store d) (x_run_id d)) (r_evidence_artifacts res)"
    by (simp add: ctx_ok_def spec(9))
  moreover have "x_store d = sv_store sv" "x_run_id d = q_run_id q"
    using spec(8) by (simp_all add: progress_def start_context_def x_run_id_def)
  ultimately show ?thesis by simp
qed

lemma allocate_Inr:
  assumes "allocate v ws record arg w = (Inr al, w')"
  shows "at_attempt_id (wa_attempt al) = attempt_id (rr_run_id record) (Suc (length (rr_attempts record)))"
    and "at_attempt_number (wa_attempt al) = int (Suc (length (rr_attempts record)))"
    and "workspace_resolve w ws arg = Inr (wa_execution_path al)"
  using assms by (auto simp: allocate_def Let_def elim!: bindC_Inr_E)

lemma attempts_ok_snoc:
  assumes "attempts_ok r" and "at_attempt_id a = attempt_id (rr_run_id r) (Suc (length (rr_attempts r)))"
    and "at_attempt_number a = int (Suc (length (rr_attempts r)))"
  shows "attempts_ok (r\<lparr>rr_attempts := rr_attempts r @ [a]\<rparr>)"
  using assms by (simp add: attempts_ok_def)

text \<open>What an attempt adds to the record it was made for.\<close>

definition attempt_added :: "run_record \<Rightarrow> run_record \<Rightarrow> chain_result \<Rightarrow> bool" where
  "attempt_added r r' res \<longleftrightarrow>
     (\<exists>a. r' = r\<lparr>rr_attempts := rr_attempts r @ [a], rr_artifacts := rr_artifacts r @ r_evidence_artifacts res\<rparr>
        \<and> at_attempt_id a = attempt_id (rr_run_id r) (Suc (length (rr_attempts r)))
        \<and> at_attempt_number a = int (Suc (length (rr_attempts r)))
        \<and> list_all (\<lambda>x. a_run_id x = rr_run_id r \<and> a_hash x \<noteq> [] \<and> a_attempt_id x = Some (at_attempt_id a))
            (r_evidence_artifacts res))"

lemma run_attempt_adds:
  assumes run: "run_attempt_of v x record q path w = (Inr (r, res), w')"
    and "re_handlers x = build_default_registry v" and "q_run_id q = rr_run_id record"
  shows "attempt_added record r res"
proof -
  obtain al w1 repo where al: "allocate v (re_root x) record (PathStr path) w = (Inr al, w1)"
    and ex: "execute v (re_handlers x) q (runtime_services x repo (Some (at_attempt_id (wa_attempt al)))) w1
              = (Inr res, w')"
    and r: "r = record\<lparr>rr_attempts := rr_attempts record @
                   [(wa_attempt al)\<lparr>at_final_status := Some (final_status_value (r_final_status res))\<rparr>],
                 rr_artifacts := rr_artifacts record @ r_evidence_artifacts res\<rparr>"
    using run by (auto simp: run_attempt_of_def runtime_execute_def Let_def elim!: bindC_Inr_E)
  have "list_all (artifact_ok (sv_store (runtime_services x repo (Some (at_attempt_id (wa_attempt al)))))
          (rr_run_id record)) (r_evidence_artifacts res)"
    using execute_artifacts ex assms(2,3) by metis
  then show ?thesis using allocate_Inr(1,2) [OF al]
    by (auto simp: attempt_added_def r runtime_services_def artifact_ok_def list_all_iff)
qed

lemma attempt_added_ok:
  assumes "attempt_added record r res" and "record_ok record"
  shows "record_ok (r\<lparr>rr_chain_execution_result := cr, rr_state := ''EXECUTE_CHAIN''\<rparr>)"
proof -
  obtain a where r: "r = record\<lparr>rr_attempts := rr_attempts record @ [a],
      rr_artifacts := rr_artifacts record @ r_evidence_artifacts res\<rparr>"
    and a: "at_attempt_id a = attempt_id (rr_run_id record) (Suc (length (rr_attempts record)))"
    "at_attempt_number a = int (Suc (length (rr_attempts record)))"
    "list_all (\<lambda>x. a_run_id x = rr_run_id record \<and> a_hash x \<noteq> [] \<and> a_attempt_id x = Some (at_attempt_id a))
       (r_evidence_artifacts res)" using assms(1) by (auto simp: attempt_added_def)
  have "attempts_ok r" using attempts_ok_snoc [of "record" a] assms(2) a(1,2)
    by (simp add: r record_ok_def attempts_ok_def)
  moreover have "artifacts_ok r" using assms(2) a(1,3)
    by (auto simp: r artifacts_ok_def record_ok_def list_all_iff)
  ultimately show ?thesis using assms(2) by (simp add: record_ok_def r)
qed

lemma run_attempt_ok:
  assumes run: "run_attempt_of v x record q path w = (Inr (r, res), w')"
    and "re_handlers x = build_default_registry v" and "q_run_id q = rr_run_id record"
    and "record_ok record"
  shows "record_ok (r\<lparr>rr_chain_execution_result := cr, rr_state := ''EXECUTE_CHAIN''\<rparr>)"
    and "rr_run_id r = rr_run_id record"
  using run_attempt_adds [OF assms(1-3)] attempt_added_ok assms(4) by (auto simp: attempt_added_def)

lemma build_runtime_handlers:
  "build_runtime_executor v w st = Inr x \<Longrightarrow> re_handlers x = build_default_registry v"
  by (cases "build_tool_registry DEFAULT_TOOLS []") (auto simp: build_runtime_executor_def)

definition executed_record :: "run_record \<Rightarrow> chain_result \<Rightarrow> run_record" where
  "executed_record r res = r\<lparr>rr_chain_execution_result := Some res, rr_state := ''EXECUTE_CHAIN''\<rparr>"

lemma guarded_attempt_ok:
  assumes run: "guarded_attempt v x k record q path s = (y, s')"
    and "re_handlers x = build_default_registry v" and "q_run_id q = rr_run_id record"
    and "record_ok record"
  shows "api_runs s' = api_runs s"
    and "y = Inr (r, res) \<Longrightarrow> record_ok (executed_record r res)"
    and "y = Inr (r, res) \<Longrightarrow> rr_run_id r = rr_run_id record"
proof -
  obtain z w where z: "run_attempt_of v x record q path (api_world s) = (z, w)" by force
  have "api_runs s' = api_runs s
      \<and> (y = Inr (r, res) \<longrightarrow> record_ok (executed_record r res) \<and> rr_run_id r = rr_run_id record)"
  proof (cases z)
    case (Inl e)
    have "record_ok (executed_record record res)" using assms(4)
      by (simp add: executed_record_def record_ok_def)
    then show ?thesis using run
      by (cases e) (auto simp: guarded_attempt_def on_server_world_def comp_defs z Inl)
  next
    case (Inr p)
    obtain r0 res0 where p: "p = (r0, res0)" by force
    have "run_attempt_of v x record q path (api_world s) = (Inr (r0, res0), w)" using z Inr p by simp
    from run_attempt_ok [OF this assms(2,3,4)] show ?thesis using run
      by (auto simp: guarded_attempt_def on_server_world_def comp_defs z Inr p executed_record_def)
  qed
  then show "api_runs s' = api_runs s" "y = Inr (r, res) \<Longrightarrow> record_ok (executed_record r res)"
    "y = Inr (r, res) \<Longrightarrow> rr_run_id r = rr_run_id record" by blast+
qed

lemma guarded_save_ok:
  assumes s: "server_ok s" and ok: "record_ok record" and id: "q_run_id q = rr_run_id record"
    and rt: "build_runtime_executor v (api_world s) st = Inr x"
    and run: "bindC (guarded_attempt v x k record q path) (\<lambda>(r, res).
        bindC (api_save (r\<lparr>rr_chain_execution_result := Some res, rr_state := ''EXECUTE_CHAIN''\<rparr>))
          (\<lambda>_. ret (Respond res))) s = (y, s')"
  shows "server_ok s'"
proof -
  obtain z s1 where z: "guarded_attempt v x k record q path s = (z, s1)" by force
  note spec = guarded_attempt_ok [OF z build_runtime_handlers [OF rt] id ok]
  show ?thesis
  proof (cases z)
    case (Inl e)
    then show ?thesis using run z spec(1) server_ok_runs [OF s] by (simp add: comp_defs)
  next
    case (Inr p)
    obtain r res where p: "p = (r, res)" by force
    have "server_ok s1" using spec(1) server_ok_runs [OF s] by simp
    from server_ok_save [OF this spec(2)] show ?thesis
      using run z Inr p by (simp add: comp_defs api_save_def repo_save_def executed_record_def)
  qed
qed

lemma bindC_getC: "bindC (getC f) g s = g (f s) s"
  by (simp add: comp_defs)

lemma bindC_liftC: "bindC (liftC x) g s = (case x of Inl e \<Rightarrow> (Inl e, s) | Inr y \<Rightarrow> g y s)"
  by (simp add: comp_defs split: sum.split)

lemma execute_chain_ok:
  assumes s: "server_ok s" and run: "execute_chain v k q path s = (x, s')"
  shows "server_ok s'"
  using run unfolding execute_chain_def
proof (cases rule: with_run_cases)
  case (2 r0)
  have ok: "record_ok r0" and id: "rr_run_id r0 = k" using server_ok_get [OF s 2(1)] by auto
  have q: "q_run_id (bind_identity k r0 q) = rr_run_id r0" by (simp add: bind_identity_def id)
  note save = guarded_save_ok [OF s ok q]
  show ?thesis
  proof (cases "build_runtime_executor v (api_world s) (api_settings s)")
    case (Inl e)
    then show ?thesis using 2(2) s
      by (auto simp: Let_def bindC_getC bindC_liftC split: option.splits if_splits)
  next
    case (Inr rt)
    then show ?thesis using 2(2) s save [OF Inr]
      by (auto simp: Let_def bindC_getC bindC_liftC split: option.splits if_splits)
  qed
qed (simp add: s)

section \<open>What an execution adds to the record it worked on\<close>

lemma guarded_attempt_world: "\<exists>z w. guarded_attempt v x k r q path s = (z, s\<lparr>api_world := w\<rparr>)"
  by (cases "run_attempt_of v x r q path (api_world s)")
     (auto simp: guarded_attempt_def on_server_world_def comp_defs split: sum.split exn.split)

lemma guarded_attempt_adds:
  assumes "guarded_attempt v x k r q path s = (Inr (r', res), s')"
    and "re_handlers x = build_default_registry v" and "q_run_id q = rr_run_id r"
  shows "api_runs s' = api_runs s \<and> (r' = r \<or> attempt_added r r' res)"
proof -
  obtain z w where z: "run_attempt_of v x r q path (api_world s) = (z, w)" by force
  show ?thesis
  proof (cases z)
    case (Inl e)
    then show ?thesis using assms(1)
      by (cases e) (auto simp: guarded_attempt_def on_server_world_def comp_defs z)
  next
    case (Inr p)
    then show ?thesis using assms z run_attempt_adds [of v x r q path "api_world s"]
      by (cases p) (auto simp: guarded_attempt_def on_server_world_def comp_defs)
  qed
qed

lemma guarded_attempt_keeps:
  assumes "guarded_attempt v x k r q path s = (Inr (r', res), s')"
  shows "rr_run_id r' = rr_run_id r" and "rr_chain_result r' = rr_chain_result r"
proof -
  show "rr_run_id r' = rr_run_id r" "rr_chain_result r' = rr_chain_result r"
    using assms
    by (auto simp: guarded_attempt_def on_server_world_def catchC_def zoomC_def run_attempt_of_def Let_def ret_def throw_def
        split: prod.splits sum.splits exn.splits elim!: bindC_Inr_E)
qed

text \<open>An execution on a copy: the record it leaves, with or without a new attempt.\<close>

lemma execute_chain_copy:
  assumes run: "execute_chain v k q path (s\<lparr>api_runs := [(k, r)]\<rparr>) = (Inr (Respond x), s')"
  shows "\<exists>r0. rr_run_id r0 = rr_run_id r \<and> (rr_run_id r = k \<longrightarrow> r0 = r \<or> attempt_added r r0 x)
    \<and> api_runs s' = repo_save (executed_record r0 x) [(k, r)]"
proof -
  let ?s = "s\<lparr>api_runs := [(k, r)]\<rparr>"
  have found: "repo_get [(k, r)] k = Some r" by (simp add: repo_get_def)
  have none: "identity_error k r q = None" and ok: "canonical_violations (bind_identity k r q) = []"
    using run found by (auto simp: execute_chain_def with_run_def bindC_getC identity_mismatch_def Let_def
        split: option.splits if_splits)
  obtain rt p r0 s0 where rt: "build_runtime_executor v (api_world ?s) (api_settings ?s) = Inr rt"
    and g: "guarded_attempt v rt k r (bind_identity k r q) p ?s = (Inr (r0, x), s0)"
    and s': "s' = s0\<lparr>api_runs := repo_save (executed_record r0 x) (api_runs s0)\<rparr>"
    using run none ok
    by (auto simp: execute_chain_def with_run_def bindC_getC bindC_liftC found Let_def executed_record_def
        api_save_def elim!: bindC_Inr_E split: if_splits sum.splits)
  obtain z w where "guarded_attempt v rt k r (bind_identity k r q) p ?s = (z, ?s\<lparr>api_world := w\<rparr>)"
    using guarded_attempt_world by blast
  then have runs: "api_runs s0 = [(k, r)]" using g by simp
  have "rr_run_id r = k \<Longrightarrow> r0 = r \<or> attempt_added r r0 x"
    using guarded_attempt_adds [OF g build_runtime_handlers [OF rt]] by (simp add: bind_identity_def)
  then show ?thesis using guarded_attempt_keeps(1) [OF g] by (auto simp: s' runs)
qed

lemma execute_chain_adds:
  assumes "execute_chain v k q path (s\<lparr>api_runs := [(k, r)]\<rparr>) = (Inr (Respond x), s')"
    and "repo_get (api_runs s') k = Some r'" and "rr_attempts r' \<noteq> rr_attempts r"
  shows "rr_run_id r = k \<and> (\<exists>r0. attempt_added r r0 x \<and> r' = executed_record r0 x)"
proof -
  obtain r0 where r0: "rr_run_id r0 = rr_run_id r" "rr_run_id r = k \<longrightarrow> r0 = r \<or> attempt_added r r0 x"
    and "api_runs s' = repo_save (executed_record r0 x) [(k, r)]" using execute_chain_copy [OF assms(1)] by blast
  moreover have "rr_run_id (executed_record r0 x) = rr_run_id r" using r0(1) by (simp add: executed_record_def)
  ultimately have "rr_run_id r = k" "r' = executed_record r0 x"
    using assms(2,3) by (auto simp: repo_save_def repo_get_def split: if_splits)
  then show ?thesis using r0(2) assms(3) by (auto simp: executed_record_def attempt_added_def)
qed

lemma execute_chain_fields:
  assumes "execute_chain v k q path (s\<lparr>api_runs := [(k, r)]\<rparr>) = (Inr (Respond x), s')"
    and "repo_get (api_runs s') k = Some r'" and "rr_attempts r' \<noteq> rr_attempts r"
  shows "rr_run_id r = k" and "rr_run_id r' = k" and "rr_chain_execution_result r' = Some x"
    and "rr_artifacts r' = rr_artifacts r @ r_evidence_artifacts x"
    and "rr_attempts r' = rr_attempts r @ [last (rr_attempts r')]"
    and "at_attempt_id (last (rr_attempts r')) = attempt_id k (Suc (length (rr_attempts r)))"
  using execute_chain_adds [OF assms] by (auto simp: attempt_added_def executed_record_def)

lemma api_step_ok: "api_step v uuid s s' \<Longrightarrow> server_ok s \<Longrightarrow> server_ok s'"
  by (induction rule: api_step.induct)
     (auto intro: create_run_ok verify_run_ok pr_ok plan_chain_ok execute_chain_ok server_ok_runs)

lemma served_ok: "served v uuid s \<Longrightarrow> server_ok s"
proof -
  assume "served v uuid s"
  then obtain s0 where "api_runs s0 = []" "(api_step v uuid)\<^sup>*\<^sup>* s0 s" by (auto simp: served_def)
  from this(2,1) show ?thesis
  proof (induction rule: rtranclp_induct)
    case base
    then show ?case by (simp add: server_ok_def repo_wf_def repo_list_def)
  next
    case (step y z)
    then show ?case using api_step_ok by blast
  qed
qed

end
