(* ===== verification/Durable_Runs.thy ===== *)
theory Durable_Runs
  imports Api_Safety
begin

text \<open>
  The durable store under the API: a record that meets the server's invariant violates no
  constraint of the schema, so saving it always succeeds, and the database goes on showing the
  runs an in-memory store would hold.
\<close>

definition numbered :: "pg_attempt \<Rightarrow> bool" where
  "numbered x \<longleftrightarrow> (\<exists>n. pa_attempt_id x = attempt_id (pa_run_id x) n \<and> pa_attempt_number x = int n)"

definition pg_wf :: "database \<Rightarrow> bool" where
  "pg_wf db \<longleftrightarrow> list_all numbered (db_attempts db)"

lemma numbered_slot:
  assumes "numbered x" and "numbered y"
  shows "same_slot x y \<longleftrightarrow> pa_attempt_id x = pa_attempt_id y"
  using assms by (auto simp: numbered_def same_slot_def attempt_id_inject)

lemma numbered_row:
  "at_attempt_id a = attempt_id k n \<Longrightarrow> at_attempt_number a = int n \<Longrightarrow> numbered (attempt_row k a)"
  by (auto simp: numbered_def attempt_row_def)

lemma upsert_attempt_ok:
  assumes rows: "list_all numbered rows" and row: "numbered (attempt_row k a)"
  shows "\<exists>rows'. upsert_attempt k a rows = Inr rows' \<and> list_all numbered rows'
           \<and> pa_attempt_id ` set rows' = insert (at_attempt_id a) (pa_attempt_id ` set rows)"
proof (cases "find (\<lambda>x. pa_attempt_id x = at_attempt_id a) rows")
  case None
  then have "\<not> list_ex (same_slot (attempt_row k a)) rows"
    using rows row numbered_slot
    by (fastforce simp: find_None_iff list_ex_iff list_all_iff attempt_row_def)
  then show ?thesis using None rows row
    by (simp add: upsert_attempt_def) (simp add: attempt_row_def)
next
  case (Some old)
  then have old: "old \<in> set rows" "pa_attempt_id old = at_attempt_id a"
    by (auto simp: find_Some_iff)
  have "pa_run_id old = k"
    using old rows row by (auto simp: list_all_iff numbered_def attempt_row_def attempt_id_inject)
  then have same: "(attempt_row k a)\<lparr>pa_run_id := pa_run_id old\<rparr> = attempt_row k a"
    by (simp add: attempt_row_def)
  have "\<not> list_ex (\<lambda>x. pa_attempt_id x \<noteq> at_attempt_id a \<and> same_slot (attempt_row k a) x) rows"
    using rows row numbered_slot by (fastforce simp: list_ex_iff list_all_iff attempt_row_def)
  moreover have "pa_attempt_id ` set (map (\<lambda>x. if pa_attempt_id x = at_attempt_id a then attempt_row k a else x) rows)
      = insert (at_attempt_id a) (pa_attempt_id ` set rows)"
  proof -
    have "map pa_attempt_id (map (\<lambda>x. if pa_attempt_id x = at_attempt_id a then attempt_row k a else x) rows)
        = map pa_attempt_id rows" by (simp add: attempt_row_def)
    then have "pa_attempt_id ` set (map (\<lambda>x. if pa_attempt_id x = at_attempt_id a then attempt_row k a else x) rows)
        = pa_attempt_id ` set rows" by (metis list.set_map)
    moreover have "at_attempt_id a \<in> pa_attempt_id ` set rows" using old by (metis imageI)
    ultimately show ?thesis by (simp add: insert_absorb)
  qed
  ultimately show ?thesis using Some rows row
    by (auto simp: upsert_attempt_def same Let_def list_all_iff)
qed

lemma upsert_attempts_ok:
  assumes "list_all numbered rows" and "list_all (\<lambda>a. numbered (attempt_row k a)) as"
  shows "\<exists>rows'. upsert_attempts k as rows = Inr rows' \<and> list_all numbered rows'
           \<and> pa_attempt_id ` set rows' = at_attempt_id ` set as \<union> pa_attempt_id ` set rows"
  using assms
proof (induction "as" arbitrary: rows)
  case (Cons a as)
  obtain rows1 where one: "upsert_attempt k a rows = Inr rows1" "list_all numbered rows1"
      "pa_attempt_id ` set rows1 = insert (at_attempt_id a) (pa_attempt_id ` set rows)"
    using upsert_attempt_ok Cons.prems by (metis list.pred_inject(2))
  with Cons.IH [of rows1] Cons.prems(2) show ?case by auto
qed simp

lemma attempts_numbered:
  assumes "attempts_ok r"
  shows "list_all (\<lambda>a. numbered (attempt_row (rr_run_id r) a)) (rr_attempts r)"
proof -
  have "\<exists>n. at_attempt_id a = attempt_id (rr_run_id r) n \<and> at_attempt_number a = int n"
    if "a \<in> set (rr_attempts r)" for a
  proof -
    have "(at_attempt_id a, at_attempt_number a) \<in>
        set (map (\<lambda>a. (at_attempt_id a, at_attempt_number a)) (rr_attempts r))" using that by force
    then show ?thesis unfolding assms [unfolded attempts_ok_def] by auto
  qed
  then show ?thesis using numbered_row by (fastforce simp: list_all_iff)
qed

lemma pg_save_valid:
  assumes "attempts_ok r" and "artifacts_ok r" and "pg_wf db"
  shows "\<exists>db'. pg_save md r db = Inr db' \<and> pg_wf db'"
proof -
  obtain rows where rows: "upsert_attempts (rr_run_id r) (rr_attempts r) (db_attempts db) = Inr rows"
    "list_all numbered rows" "pa_attempt_id ` set rows = at_attempt_id ` set (rr_attempts r) \<union> pa_attempt_id ` set (db_attempts db)"
    using upsert_attempts_ok attempts_numbered [OF assms(1)] assms(3) by (metis pg_wf_def)
  have "list_all (attempt_known rows) (map (artifact_row r) (rr_artifacts r))"
    using assms(2) rows(3) by (fastforce simp: list_all_iff artifacts_ok_def attempt_known_def artifact_row_def)
  then show ?thesis using rows
    by (simp add: pg_save_def pg_project_def pg_clear_def pg_wf_def)
qed

lemma pg_save_ok: "record_ok r \<Longrightarrow> pg_wf db \<Longrightarrow> \<exists>db'. pg_save md r db = Inr db' \<and> pg_wf db'"
  using pg_save_valid by (simp add: record_ok_def)

end
