(* ===== verification/Schema_Printers.thy ===== *)
theory Schema_Printers
  imports Api
begin

text \<open>
  How the models in a run record are printed and read back: \<open>model_dump(mode="json")\<close> and the
  constructors of the Pydantic classes of \<open>schemas/run_manifest.py\<close>, \<open>schemas/model_policy.py\<close>,
  \<open>schemas/verifier_report.py\<close>, \<open>schemas/artifact.py\<close>, \<open>schemas/gate_result.py\<close> and
  \<open>schemas/chain.py\<close>, field by field as the classes declare them: their types, their defaults, the
  literals and enums they accept, the fields they forbid and the one they exclude.  A value of
  another type than the declared one is refused; the conversions Pydantic makes of some (a number
  written as a string, say) are not modelled.
\<close>

section \<open>Fields\<close>

text \<open>A class with \<open>extra="forbid"\<close> takes the fields it declares; the fields it needs must be there.\<close>

fun model_fields_of :: "json \<Rightarrow> jdict res" where
  "model_fields_of (JObj d) = Inr d"
| "model_fields_of _ = Inl ValidationError"

definition model_fields :: "string list \<Rightarrow> json \<Rightarrow> jdict res" where
  "model_fields names v = resB (model_fields_of v) (\<lambda>d.
     if list_all (\<lambda>k. k \<in> set names) (map fst d) then Inr d else Inl ValidationError)"

definition required :: "jdict \<Rightarrow> string \<Rightarrow> (json \<Rightarrow> 'a res) \<Rightarrow> 'a res" where
  "required d k f = (case map_of d k of None \<Rightarrow> Inl ValidationError | Some v \<Rightarrow> f v)"

definition optional :: "jdict \<Rightarrow> string \<Rightarrow> (json \<Rightarrow> 'a res) \<Rightarrow> 'a \<Rightarrow> 'a res" where
  "optional d k f x = (case map_of d k of None \<Rightarrow> Inr x | Some v \<Rightarrow> f v)"

lemmas model_defs = model_fields_def required_def optional_def

fun str_of :: "json \<Rightarrow> string res" where
  "str_of (JStr s) = Inr s"
| "str_of _ = Inl ValidationError"

fun int_of :: "json \<Rightarrow> int res" where
  "int_of (JInt i) = Inr i"
| "int_of _ = Inl ValidationError"

fun bool_of :: "json \<Rightarrow> bool res" where
  "bool_of (JBool b) = Inr b"
| "bool_of _ = Inl ValidationError"

fun float_of :: "json \<Rightarrow> string res" where
  "float_of (JFloat r) = Inr r"
| "float_of (JInt i) = Inr (dec_int i)"
| "float_of _ = Inl ValidationError"

fun dict_of :: "json \<Rightarrow> jdict res" where
  "dict_of (JObj d) = Inr d"
| "dict_of _ = Inl ValidationError"

fun list_of :: "(json \<Rightarrow> 'a res) \<Rightarrow> json \<Rightarrow> 'a list res" where
  "list_of f (JArr xs) = res_map f xs"
| "list_of f _ = Inl ValidationError"

definition opt_of :: "(json \<Rightarrow> 'a res) \<Rightarrow> json \<Rightarrow> 'a option res" where
  "opt_of f v = (if v = JNull then Inr None else map_sum id Some (f v))"

fun enum_of :: "('a \<Rightarrow> string) \<Rightarrow> 'a list \<Rightarrow> json \<Rightarrow> 'a res" where
  "enum_of value xs (JStr s) =
     (case find (\<lambda>x. value x = s) xs of Some x \<Rightarrow> Inr x | None \<Rightarrow> Inl ValidationError)"
| "enum_of value xs _ = Inl ValidationError"

text \<open>A score is read from its four decimals.\<close>

definition score_number :: "string \<Rightarrow> nat" where
  "score_number s =
     (let whole = takeWhile (\<lambda>c. c \<noteq> CHR ''.'') s; rest = drop 1 (dropWhile (\<lambda>c. c \<noteq> CHR ''.'') s) in
      undec whole * 10000 + undec (take 4 (rest @ ''0000'')))"

fun score_of :: "json \<Rightarrow> nat res" where
  "score_of (JFloat r) = Inr (score_number r)"
| "score_of _ = Inl ValidationError"

lemma strs_read [simp]: "res_map str_of (map JStr ss) = Inr ss"
  by (induction ss) simp_all

lemma opt_of_str [simp]: "opt_of str_of (opt_json JStr x) = Inr x"
  by (cases x) (simp_all add: opt_of_def opt_json_def)

lemma dec_no_point: "CHR ''.'' \<notin> set (dec n)"
proof (induction n rule: dec.induct)
  case (1 n)
  have digit: "digit k \<noteq> CHR ''.''" if "k < 10" for k
  proof
    assume "digit k = CHR ''.''"
    then have "(of_char (digit k) :: nat) = 46" by simp
    then show False using that by (simp add: of_char_digit)
  qed
  show ?case using 1 digit [of n, symmetric] digit [of "n mod 10", symmetric]
    by (subst dec.simps) auto
qed

lemma length_dec: "n < 10 ^ Suc k \<Longrightarrow> length (dec n) \<le> Suc k"
proof (induction k arbitrary: n)
  case 0
  then show ?case by (subst dec.simps) simp
next
  case (Suc k)
  have "n div 10 < 10 ^ Suc k" using Suc.prems by (simp add: less_mult_imp_div_less)
  from Suc.IH [OF this] show ?case by (subst dec.simps) (simp del: power_Suc)
qed

lemma drop_zeros_pad: "drop_zeros s @ replicate (length s - length (drop_zeros s)) CHR ''0'' = s"
proof -
  let ?r = "takeWhile (\<lambda>c. c = CHR ''0'') (rev s)"
  have "rev s = ?r @ rev (drop_zeros s)" by (simp add: drop_zeros_def)
  then have s: "s = drop_zeros s @ rev ?r" by (metis rev_append rev_rev_ident)
  have "replicate (length ?r) CHR ''0'' = ?r" by (rule replicate_length_same) (auto dest: set_takeWhileD)
  then have zeros: "rev ?r = replicate (length ?r) CHR ''0''" by (metis rev_replicate)
  have "length s = length (drop_zeros s) + length ?r" using s by (metis length_append length_rev)
  then have "length s - length (drop_zeros s) = length ?r" by linarith
  then show ?thesis by (simp only: zeros [symmetric] s [symmetric])
qed

lemma score_number_text: "score_number (score_text n) = n"
proof -
  let ?d = "zero_pad 4 (n mod 10000)"
  let ?f = "drop_zeros ?d"
  let ?g = "if ?f = [] then ''0'' else ?f"
  have "length (dec (n mod 10000)) \<le> 4" using length_dec [of "n mod 10000" 3] by simp
  then have len: "length ?d = 4" by (simp add: zero_pad_def)
  have zeros: "''0000'' = replicate 4 CHR ''0''" by (simp add: numeral_eq_Suc)
  have d: "?f @ replicate (4 - length ?f) CHR ''0'' = ?d" using drop_zeros_pad [of ?d] len by simp
  have "take 4 (?g @ ''0000'') = ?d"
  proof (cases "?f = []")
    case True
    then have "?d = ''0000''" using d by (simp add: zeros)
    then show ?thesis by (simp add: drop_zeros_def)
  next
    case False
    have "length ?f \<le> 4" using d len by (metis le_add1 length_append)
    then show ?thesis using False d by (simp add: zeros)
  qed
  moreover have "\<forall>c \<in> set (dec (n div 10000)). c \<noteq> CHR ''.''" using dec_no_point by metis
  then have "takeWhile (\<lambda>c. c \<noteq> CHR ''.'') (score_text n) = dec (n div 10000)"
    "dropWhile (\<lambda>c. c \<noteq> CHR ''.'') (score_text n) = ''.'' @ ?g"
    by (simp_all add: score_text_def Let_def takeWhile_append2 dropWhile_append2)
  ultimately show ?thesis by (simp add: score_number_def undec_dec)
qed

lemma score_of_text [simp]: "opt_of score_of (opt_json (\<lambda>n. JFloat (score_text n)) x) = Inr x"
  by (cases x) (simp_all add: opt_of_def opt_json_def score_number_text)

section \<open>Enums and literals\<close>

definition run_types :: "run_type list" where
  "run_types = [RT_READ_ONLY_ANALYSIS, RT_IMPLEMENTATION]"

definition decisions :: "decision list" where
  "decisions = [D_PASS, D_FAIL, D_BLOCKED, D_PENDING]"

definition pass_fails :: "pass_fail list" where
  "pass_fails = [PF_PASS, PF_FAIL]"

definition pass_fail_nas :: "pass_fail_na list" where
  "pass_fail_nas = [NA_PASS, NA_FAIL, NA_NOT_APPLICABLE]"

definition pr_gate_literals :: "pr_gate_literal list" where
  "pr_gate_literals = [PL_PASS, PL_FAIL, PL_NOT_READY]"

definition gate_statuses :: "gate_status list" where
  "gate_statuses = [GS_PASS, GS_FAIL, GS_BLOCKED]"

definition handler_types :: "handler_type list" where
  "handler_types = [HT_PURE_CHECK, HT_READ_ONLY_COMMAND, HT_WRITE_COMMAND, HT_AGENT_INVOCATION,
     HT_VERIFIER, HT_PR_ACTION, HT_EVALUATOR]"

definition handler_statuses :: "handler_status list" where
  "handler_statuses = [HS_PASS, HS_FAIL, HS_BLOCKED, HS_SKIPPED]"

definition handler_decisions :: "handler_decision list" where
  "handler_decisions = [HD_CONTINUE, HD_SKIP_NOT_APPLICABLE, HD_FAIL, HD_BLOCKED, HD_STOP]"

definition final_statuses :: "final_status list" where
  "final_statuses = [FS_PASS, FS_FAIL, FS_BLOCKED]"

lemma enum_of_value [simp]:
  "enum_of run_type_value run_types (JStr (run_type_value a)) = Inr a"
  "enum_of decision_value decisions (JStr (decision_value b)) = Inr b"
  "enum_of pass_fail_value pass_fails (JStr (pass_fail_value c)) = Inr c"
  "enum_of pass_fail_na_value pass_fail_nas (JStr (pass_fail_na_value d)) = Inr d"
  "enum_of pr_gate_literal_value pr_gate_literals (JStr (pr_gate_literal_value e)) = Inr e"
  "enum_of gate_status_value gate_statuses (JStr (gate_status_value f)) = Inr f"
  "enum_of handler_type_value handler_types (JStr (handler_type_value g)) = Inr g"
  "enum_of handler_status_value handler_statuses (JStr (handler_status_value h)) = Inr h"
  "enum_of handler_decision_value handler_decisions (JStr (handler_decision_value i)) = Inr i"
  "enum_of final_status_value final_statuses (JStr (final_status_value j)) = Inr j"
  "enum_of pr_status_value pr_statuses (JStr (pr_status_value k)) = Inr k"
  "enum_of model_role_value model_roles (JStr (model_role_value l)) = Inr l"
  apply (cases a; simp add: run_types_def)
  apply (cases b; simp add: decisions_def)
  apply (cases c; simp add: pass_fails_def)
  apply (cases d; simp add: pass_fail_nas_def)
  apply (cases e; simp add: pr_gate_literals_def)
  apply (cases f; simp add: gate_statuses_def)
  apply (cases g; simp add: handler_types_def)
  apply (cases h; simp add: handler_statuses_def)
  apply (cases i; simp add: handler_decisions_def)
  apply (cases j; simp add: final_statuses_def)
  apply (cases k; simp add: pr_statuses_def)
  apply (cases l; simp add: model_roles_def)
  done

declare enum_of.simps(1) [simp del]

section \<open>The manifest\<close>

definition default_rate_limit :: rate_limit where
  "default_rate_limit = \<lparr>rl_requests_per_min = 0, rl_tokens_per_min = 0\<rparr>"

definition default_sp_gate :: sp_gate_report where
  "default_sp_gate =
     \<lparr>vg_change_amplification = PF_PASS, vg_cognitive_load = PF_PASS, vg_unknown_unknowns = PF_PASS,
      vg_deep_module = PF_PASS, vg_interface_simplicity = PF_PASS, vg_error_design = PF_PASS,
      vg_duplication = PF_PASS, vg_scope_control = PF_PASS\<rparr>"

definition rate_limit_json :: "rate_limit \<Rightarrow> json" where
  "rate_limit_json x = JObj
     [(''requests_per_min'', JInt (rl_requests_per_min x)),
      (''tokens_per_min'', JInt (rl_tokens_per_min x))]"

definition RATE_LIMIT_FIELDS :: "string list" where
  "RATE_LIMIT_FIELDS =
     [''requests_per_min'', ''tokens_per_min'']"

definition rate_limit_of_json :: "json \<Rightarrow> rate_limit res" where
  "rate_limit_of_json v = resB (model_fields RATE_LIMIT_FIELDS v) (\<lambda>d.
     resB (optional d ''requests_per_min'' int_of 0) (\<lambda>requests_per_min.
     resB (optional d ''tokens_per_min'' int_of 0) (\<lambda>tokens_per_min.
     Inr \<lparr>rl_requests_per_min = requests_per_min, rl_tokens_per_min = tokens_per_min\<rparr>)))"

interpretation rate_limits: codec rate_limit_json rate_limit_of_json
  by unfold_locales (simp add: model_defs rate_limit_json_def rate_limit_of_json_def
      RATE_LIMIT_FIELDS_def)

definition model_spec_json :: "model_spec \<Rightarrow> json" where
  "model_spec_json x = JObj
     [(''model_id'', JStr (ms_model_id x)), (''provider'', JStr (ms_provider x)),
      (''role'', JStr (model_role_value (ms_role x))), (''model_run_id'', JStr (ms_model_run_id x)),
      (''permissions'', jstrs (ms_permissions x)), (''temperature'', JFloat (ms_temperature x)),
      (''top_p'', JFloat (ms_top_p x)), (''seed'', JInt (ms_seed x)),
      (''prompt_hash'', JStr (ms_prompt_hash x)),
      (''parallel_tool_calls'', JBool (ms_parallel_tool_calls x)),
      (''rate_limit'', rate_limit_json (ms_rate_limit x)),
      (''fallback_model_id'', JStr (ms_fallback_model_id x)),
      (''max_retries'', JInt (ms_max_retries x))]"

definition MODEL_SPEC_FIELDS :: "string list" where
  "MODEL_SPEC_FIELDS =
     [''model_id'', ''provider'', ''role'', ''model_run_id'', ''permissions'', ''temperature'',
      ''top_p'', ''seed'', ''prompt_hash'', ''parallel_tool_calls'', ''rate_limit'',
      ''fallback_model_id'', ''max_retries'']"

definition model_spec_of_json :: "json \<Rightarrow> model_spec res" where
  "model_spec_of_json v = resB (model_fields MODEL_SPEC_FIELDS v) (\<lambda>d.
     resB (optional d ''model_id'' str_of []) (\<lambda>model_id.
     resB (optional d ''provider'' str_of []) (\<lambda>provider.
     resB (required d ''role'' (enum_of model_role_value model_roles)) (\<lambda>role.
     resB (optional d ''model_run_id'' str_of []) (\<lambda>model_run_id.
     resB (optional d ''permissions'' (list_of str_of) []) (\<lambda>permissions.
     resB (optional d ''temperature'' float_of ''0'') (\<lambda>temperature.
     resB (optional d ''top_p'' float_of ''1'') (\<lambda>top_p.
     resB (optional d ''seed'' int_of 23) (\<lambda>seed.
     resB (optional d ''prompt_hash'' str_of []) (\<lambda>prompt_hash.
     resB (optional d ''parallel_tool_calls'' bool_of False) (\<lambda>parallel_tool_calls.
     resB (optional d ''rate_limit'' rate_limit_of_json default_rate_limit) (\<lambda>rate_limit.
     resB (optional d ''fallback_model_id'' str_of []) (\<lambda>fallback_model_id.
     resB (optional d ''max_retries'' int_of 0) (\<lambda>max_retries.
     Inr \<lparr>ms_model_id = model_id, ms_provider = provider, ms_role = role,
          ms_model_run_id = model_run_id, ms_permissions = permissions, ms_temperature = temperature,
          ms_top_p = top_p, ms_seed = seed, ms_prompt_hash = prompt_hash,
          ms_parallel_tool_calls = parallel_tool_calls, ms_rate_limit = rate_limit,
          ms_fallback_model_id = fallback_model_id, ms_max_retries = max_retries\<rparr>))))))))))))))"

interpretation model_specs: codec model_spec_json model_spec_of_json
  by unfold_locales (simp add: model_defs model_spec_json_def model_spec_of_json_def
      MODEL_SPEC_FIELDS_def rate_limits.load_dump)

definition manifest_json :: "run_manifest \<Rightarrow> json" where
  "manifest_json x = JObj
     [(''run_id'', JStr (m_run_id x)), (''goal_id'', JStr (m_goal_id x)),
      (''task_id'', JStr (m_task_id x)), (''sprint_id'', JStr (m_sprint_id x)),
      (''product_backlog_item_id'', JStr (m_product_backlog_item_id x)),
      (''run_type'', JStr (run_type_value (m_run_type x))),
      (''temperature'', JFloat (m_temperature x)), (''top_p'', JFloat (m_top_p x)),
      (''seed'', JInt (m_seed x)), (''model'', JStr (m_model x)),
      (''prompt_hash'', JStr (m_prompt_hash x)), (''schema_mode'', JStr (m_schema_mode x)),
      (''tools'', JStr (m_tools x)), (''parallel_tool_calls'', JBool (m_parallel_tool_calls x)),
      (''models'', JArr (map model_spec_json (m_models x))),
      (''allowed_model_ids'', jstrs (m_allowed_model_ids x)),
      (''auto_merge'', JBool (m_auto_merge x)), (''auto_deploy'', JBool (m_auto_deploy x)),
      (''created_at'', JStr (m_created_at x)), (''executor_id'', JStr (m_executor_id x)),
      (''coding_agent_id'', JStr (m_coding_agent_id x)),
      (''coding_agent_run_id'', JStr (m_coding_agent_run_id x)),
      (''verifier_id'', JStr (m_verifier_id x)), (''verifier_run_id'', JStr (m_verifier_run_id x)),
      (''definition_of_done_version'', JStr (m_definition_of_done_version x)),
      (''allowed_commands'', jstrs (m_allowed_commands x)),
      (''forbidden_commands'', jstrs (m_forbidden_commands x)),
      (''files_in_scope'', jstrs (m_files_in_scope x)),
      (''files_out_of_scope'', jstrs (m_files_out_of_scope x)),
      (''max_agent_attempts'', JInt (m_max_agent_attempts x)),
      (''max_verifier_failures'', JInt (m_max_verifier_failures x)),
      (''on_exhaustion'', JStr (m_on_exhaustion x)),
      (''local_project_path'', JStr (m_local_project_path x)),
      (''github_repo_url'', JStr (m_github_repo_url x))]"

definition MANIFEST_FIELDS :: "string list" where
  "MANIFEST_FIELDS =
     [''run_id'', ''goal_id'', ''task_id'', ''sprint_id'', ''product_backlog_item_id'', ''run_type'',
      ''temperature'', ''top_p'', ''seed'', ''model'', ''prompt_hash'', ''schema_mode'', ''tools'',
      ''parallel_tool_calls'', ''models'', ''allowed_model_ids'', ''auto_merge'', ''auto_deploy'',
      ''created_at'', ''executor_id'', ''coding_agent_id'', ''coding_agent_run_id'', ''verifier_id'',
      ''verifier_run_id'', ''definition_of_done_version'', ''allowed_commands'',
      ''forbidden_commands'', ''files_in_scope'', ''files_out_of_scope'', ''max_agent_attempts'',
      ''max_verifier_failures'', ''on_exhaustion'', ''local_project_path'', ''github_repo_url'']"

definition manifest_of_json :: "json \<Rightarrow> run_manifest res" where
  "manifest_of_json v = resB (model_fields MANIFEST_FIELDS v) (\<lambda>d.
     resB (optional d ''run_id'' str_of []) (\<lambda>run_id.
     resB (optional d ''goal_id'' str_of []) (\<lambda>goal_id.
     resB (optional d ''task_id'' str_of []) (\<lambda>task_id.
     resB (optional d ''sprint_id'' str_of []) (\<lambda>sprint_id.
     resB (optional d ''product_backlog_item_id'' str_of []) (\<lambda>product_backlog_item_id.
     resB (required d ''run_type'' (enum_of run_type_value run_types)) (\<lambda>run_type.
     resB (optional d ''temperature'' float_of ''0'') (\<lambda>temperature.
     resB (optional d ''top_p'' float_of ''1'') (\<lambda>top_p.
     resB (optional d ''seed'' int_of 23) (\<lambda>seed.
     resB (optional d ''model'' str_of []) (\<lambda>model.
     resB (optional d ''prompt_hash'' str_of []) (\<lambda>prompt_hash.
     resB (optional d ''schema_mode'' str_of ''strict'') (\<lambda>schema_mode.
     resB (optional d ''tools'' str_of ''allowlisted'') (\<lambda>tools.
     resB (optional d ''parallel_tool_calls'' bool_of False) (\<lambda>parallel_tool_calls.
     resB (optional d ''models'' (list_of model_spec_of_json) []) (\<lambda>models.
     resB (optional d ''allowed_model_ids'' (list_of str_of) []) (\<lambda>allowed_model_ids.
     resB (optional d ''auto_merge'' bool_of False) (\<lambda>auto_merge.
     resB (optional d ''auto_deploy'' bool_of False) (\<lambda>auto_deploy.
     resB (optional d ''created_at'' str_of []) (\<lambda>created_at.
     resB (optional d ''executor_id'' str_of []) (\<lambda>executor_id.
     resB (optional d ''coding_agent_id'' str_of []) (\<lambda>coding_agent_id.
     resB (optional d ''coding_agent_run_id'' str_of []) (\<lambda>coding_agent_run_id.
     resB (optional d ''verifier_id'' str_of []) (\<lambda>verifier_id.
     resB (optional d ''verifier_run_id'' str_of []) (\<lambda>verifier_run_id.
     resB (optional d ''definition_of_done_version'' str_of []) (\<lambda>definition_of_done_version.
     resB (optional d ''allowed_commands'' (list_of str_of) []) (\<lambda>allowed_commands.
     resB (optional d ''forbidden_commands'' (list_of str_of) []) (\<lambda>forbidden_commands.
     resB (optional d ''files_in_scope'' (list_of str_of) []) (\<lambda>files_in_scope.
     resB (optional d ''files_out_of_scope'' (list_of str_of) []) (\<lambda>files_out_of_scope.
     resB (optional d ''max_agent_attempts'' int_of DEFAULT_MAX_AGENT_ATTEMPTS) (\<lambda>max_agent_attempts.
     resB (optional d ''max_verifier_failures'' int_of DEFAULT_MAX_VERIFIER_FAILURES) (\<lambda>max_verifier_failures.
     resB (optional d ''on_exhaustion'' str_of DEFAULT_ON_EXHAUSTION) (\<lambda>on_exhaustion.
     resB (optional d ''local_project_path'' str_of CANONICAL_LOCAL_PROJECT_PATH) (\<lambda>local_project_path.
     resB (optional d ''github_repo_url'' str_of CANONICAL_GITHUB_REPO_URL) (\<lambda>github_repo_url.
     Inr \<lparr>m_run_id = run_id, m_goal_id = goal_id, m_task_id = task_id, m_sprint_id = sprint_id,
          m_product_backlog_item_id = product_backlog_item_id, m_run_type = run_type,
          m_temperature = temperature, m_top_p = top_p, m_seed = seed, m_model = model,
          m_prompt_hash = prompt_hash, m_schema_mode = schema_mode, m_tools = tools,
          m_parallel_tool_calls = parallel_tool_calls, m_models = models,
          m_allowed_model_ids = allowed_model_ids, m_auto_merge = auto_merge,
          m_auto_deploy = auto_deploy, m_created_at = created_at, m_executor_id = executor_id,
          m_coding_agent_id = coding_agent_id, m_coding_agent_run_id = coding_agent_run_id,
          m_verifier_id = verifier_id, m_verifier_run_id = verifier_run_id,
          m_definition_of_done_version = definition_of_done_version,
          m_allowed_commands = allowed_commands, m_forbidden_commands = forbidden_commands,
          m_files_in_scope = files_in_scope, m_files_out_of_scope = files_out_of_scope,
          m_max_agent_attempts = max_agent_attempts, m_max_verifier_failures = max_verifier_failures,
          m_on_exhaustion = on_exhaustion, m_local_project_path = local_project_path,
          m_github_repo_url = github_repo_url\<rparr>)))))))))))))))))))))))))))))))))))"

interpretation manifests: codec manifest_json manifest_of_json
  by unfold_locales (simp add: model_defs manifest_json_def manifest_of_json_def
      MANIFEST_FIELDS_def model_specs.load_dumps)

section \<open>Reports and artifacts\<close>

definition sp_gate_json :: "sp_gate_report \<Rightarrow> json" where
  "sp_gate_json x = JObj
     [(''change_amplification'', JStr (pass_fail_value (vg_change_amplification x))),
      (''cognitive_load'', JStr (pass_fail_value (vg_cognitive_load x))),
      (''unknown_unknowns'', JStr (pass_fail_value (vg_unknown_unknowns x))),
      (''deep_module'', JStr (pass_fail_value (vg_deep_module x))),
      (''interface_simplicity'', JStr (pass_fail_value (vg_interface_simplicity x))),
      (''error_design'', JStr (pass_fail_value (vg_error_design x))),
      (''duplication'', JStr (pass_fail_value (vg_duplication x))),
      (''scope_control'', JStr (pass_fail_value (vg_scope_control x)))]"

definition SP_GATE_FIELDS :: "string list" where
  "SP_GATE_FIELDS =
     [''change_amplification'', ''cognitive_load'', ''unknown_unknowns'', ''deep_module'',
      ''interface_simplicity'', ''error_design'', ''duplication'', ''scope_control'']"

definition sp_gate_of_json :: "json \<Rightarrow> sp_gate_report res" where
  "sp_gate_of_json v = resB (model_fields SP_GATE_FIELDS v) (\<lambda>d.
     resB (optional d ''change_amplification'' (enum_of pass_fail_value pass_fails) PF_PASS) (\<lambda>change_amplification.
     resB (optional d ''cognitive_load'' (enum_of pass_fail_value pass_fails) PF_PASS) (\<lambda>cognitive_load.
     resB (optional d ''unknown_unknowns'' (enum_of pass_fail_value pass_fails) PF_PASS) (\<lambda>unknown_unknowns.
     resB (optional d ''deep_module'' (enum_of pass_fail_value pass_fails) PF_PASS) (\<lambda>deep_module.
     resB (optional d ''interface_simplicity'' (enum_of pass_fail_value pass_fails) PF_PASS) (\<lambda>interface_simplicity.
     resB (optional d ''error_design'' (enum_of pass_fail_value pass_fails) PF_PASS) (\<lambda>error_design.
     resB (optional d ''duplication'' (enum_of pass_fail_value pass_fails) PF_PASS) (\<lambda>duplication.
     resB (optional d ''scope_control'' (enum_of pass_fail_value pass_fails) PF_PASS) (\<lambda>scope_control.
     Inr \<lparr>vg_change_amplification = change_amplification, vg_cognitive_load = cognitive_load,
          vg_unknown_unknowns = unknown_unknowns, vg_deep_module = deep_module,
          vg_interface_simplicity = interface_simplicity, vg_error_design = error_design,
          vg_duplication = duplication, vg_scope_control = scope_control\<rparr>)))))))))"

interpretation sp_gates: codec sp_gate_json sp_gate_of_json
  by unfold_locales (simp add: model_defs sp_gate_json_def sp_gate_of_json_def SP_GATE_FIELDS_def)

text \<open>The verifier report.\<close>

definition report_json :: "verifier_report \<Rightarrow> json" where
  "report_json x = JObj
     [(''task_id'', JStr (vr_task_id x)), (''run_id'', JStr (vr_run_id x)),
      (''verifier_id'', JStr (vr_verifier_id x)), (''verifier_run_id'', JStr (vr_verifier_run_id x)),
      (''coding_agent_run_id'', JStr (vr_coding_agent_run_id x)),
      (''same_agent_verifier_check'', JStr (pass_fail_value (vr_same_agent_verifier_check x))),
      (''functional_acceptance'', JStr (pass_fail_value (vr_functional_acceptance x))),
      (''test_status'', JStr (pass_fail_na_value (vr_test_status x))),
      (''lint_status'', JStr (pass_fail_na_value (vr_lint_status x))),
      (''typecheck_status'', JStr (pass_fail_na_value (vr_typecheck_status x))),
      (''build_status'', JStr (pass_fail_na_value (vr_build_status x))),
      (''scope_status'', JStr (pass_fail_value (vr_scope_status x))),
      (''strategic_programming_gate'', sp_gate_json (vr_strategic_programming_gate x)),
      (''evidence_status'', JStr (pass_fail_value (vr_evidence_status x))),
      (''pr_gate_status'', JStr (pr_gate_literal_value (vr_pr_gate_status x))),
      (''decision'', JStr (decision_value (vr_decision x))),
      (''failure_reasons'', jstrs (vr_failure_reasons x)),
      (''required_corrections'', jstrs (vr_required_corrections x)),
      (''timestamp'', JStr (vr_timestamp x))]"

definition REPORT_FIELDS :: "string list" where
  "REPORT_FIELDS =
     [''task_id'', ''run_id'', ''verifier_id'', ''verifier_run_id'', ''coding_agent_run_id'',
      ''same_agent_verifier_check'', ''functional_acceptance'', ''test_status'', ''lint_status'',
      ''typecheck_status'', ''build_status'', ''scope_status'', ''strategic_programming_gate'',
      ''evidence_status'', ''pr_gate_status'', ''decision'', ''failure_reasons'',
      ''required_corrections'', ''timestamp'']"

definition report_of_json :: "json \<Rightarrow> verifier_report res" where
  "report_of_json v = resB (model_fields REPORT_FIELDS v) (\<lambda>d.
     resB (required d ''task_id'' str_of) (\<lambda>task_id.
     resB (required d ''run_id'' str_of) (\<lambda>run_id.
     resB (required d ''verifier_id'' str_of) (\<lambda>verifier_id.
     resB (required d ''verifier_run_id'' str_of) (\<lambda>verifier_run_id.
     resB (required d ''coding_agent_run_id'' str_of) (\<lambda>coding_agent_run_id.
     resB (optional d ''same_agent_verifier_check'' (enum_of pass_fail_value pass_fails) PF_PASS) (\<lambda>same_agent_verifier_check.
     resB (optional d ''functional_acceptance'' (enum_of pass_fail_value pass_fails) PF_FAIL) (\<lambda>functional_acceptance.
     resB (optional d ''test_status'' (enum_of pass_fail_na_value pass_fail_nas) NA_NOT_APPLICABLE) (\<lambda>test_status.
     resB (optional d ''lint_status'' (enum_of pass_fail_na_value pass_fail_nas) NA_NOT_APPLICABLE) (\<lambda>lint_status.
     resB (optional d ''typecheck_status'' (enum_of pass_fail_na_value pass_fail_nas) NA_NOT_APPLICABLE) (\<lambda>typecheck_status.
     resB (optional d ''build_status'' (enum_of pass_fail_na_value pass_fail_nas) NA_NOT_APPLICABLE) (\<lambda>build_status.
     resB (optional d ''scope_status'' (enum_of pass_fail_value pass_fails) PF_FAIL) (\<lambda>scope_status.
     resB (optional d ''strategic_programming_gate'' sp_gate_of_json default_sp_gate) (\<lambda>strategic_programming_gate.
     resB (optional d ''evidence_status'' (enum_of pass_fail_value pass_fails) PF_FAIL) (\<lambda>evidence_status.
     resB (optional d ''pr_gate_status'' (enum_of pr_gate_literal_value pr_gate_literals) PL_NOT_READY) (\<lambda>pr_gate_status.
     resB (optional d ''decision'' (enum_of decision_value decisions) D_PENDING) (\<lambda>decision.
     resB (optional d ''failure_reasons'' (list_of str_of) []) (\<lambda>failure_reasons.
     resB (optional d ''required_corrections'' (list_of str_of) []) (\<lambda>required_corrections.
     resB (optional d ''timestamp'' str_of []) (\<lambda>timestamp.
     Inr \<lparr>vr_task_id = task_id, vr_run_id = run_id, vr_verifier_id = verifier_id,
          vr_verifier_run_id = verifier_run_id, vr_coding_agent_run_id = coding_agent_run_id,
          vr_same_agent_verifier_check = same_agent_verifier_check,
          vr_functional_acceptance = functional_acceptance, vr_test_status = test_status,
          vr_lint_status = lint_status, vr_typecheck_status = typecheck_status,
          vr_build_status = build_status, vr_scope_status = scope_status,
          vr_strategic_programming_gate = strategic_programming_gate,
          vr_evidence_status = evidence_status, vr_pr_gate_status = pr_gate_status,
          vr_decision = decision, vr_failure_reasons = failure_reasons,
          vr_required_corrections = required_corrections, vr_timestamp = timestamp\<rparr>))))))))))))))))))))"

interpretation reports: codec report_json report_of_json
  by unfold_locales (simp add: model_defs report_json_def report_of_json_def REPORT_FIELDS_def
      sp_gates.load_dump)

definition artifact_json :: "artifact \<Rightarrow> json" where
  "artifact_json x = JObj
     [(''artifact_id'', JStr (a_artifact_id x)), (''run_id'', JStr (a_run_id x)),
      (''task_id'', JStr (a_task_id x)), (''artifact_type'', JStr (a_artifact_type x)),
      (''path'', JStr (a_path x)), (''hash'', JStr (a_hash x)),
      (''attempt_id'', opt_json JStr (a_attempt_id x)), (''created_at'', JStr (a_created_at x)),
      (''recorded_by'', JStr (a_recorded_by x))]"

definition ARTIFACT_FIELDS :: "string list" where
  "ARTIFACT_FIELDS =
     [''artifact_id'', ''run_id'', ''task_id'', ''artifact_type'', ''path'', ''hash'',
      ''attempt_id'', ''created_at'', ''recorded_by'']"

definition artifact_of_json :: "json \<Rightarrow> artifact res" where
  "artifact_of_json v = resB (model_fields ARTIFACT_FIELDS v) (\<lambda>d.
     resB (required d ''artifact_id'' str_of) (\<lambda>artifact_id.
     resB (required d ''run_id'' str_of) (\<lambda>run_id.
     resB (required d ''task_id'' str_of) (\<lambda>task_id.
     resB (required d ''artifact_type'' str_of) (\<lambda>artifact_type.
     resB (required d ''path'' str_of) (\<lambda>path.
     resB (required d ''hash'' str_of) (\<lambda>hash.
     resB (optional d ''attempt_id'' (opt_of str_of) None) (\<lambda>attempt_id.
     resB (optional d ''created_at'' str_of []) (\<lambda>created_at.
     resB (optional d ''recorded_by'' str_of []) (\<lambda>recorded_by.
     Inr \<lparr>a_artifact_id = artifact_id, a_run_id = run_id, a_task_id = task_id,
          a_artifact_type = artifact_type, a_path = path, a_hash = hash, a_attempt_id = attempt_id,
          a_created_at = created_at, a_recorded_by = recorded_by\<rparr>))))))))))"

interpretation artifacts: codec artifact_json artifact_of_json
  by unfold_locales (simp add: model_defs artifact_json_def artifact_of_json_def
      ARTIFACT_FIELDS_def)

section \<open>Chain results\<close>

text \<open>A gate result does not forbid further fields.\<close>

definition gate_of_json :: "json \<Rightarrow> gate_result res" where
  "gate_of_json v = resB (model_fields_of v) (\<lambda>d.
     resB (required d ''gate_name'' str_of) (\<lambda>gate_name.
     resB (required d ''status'' (enum_of gate_status_value gate_statuses)) (\<lambda>status.
     resB (optional d ''reasons'' (list_of str_of) []) (\<lambda>reasons.
     resB (optional d ''required_corrections'' (list_of str_of) []) (\<lambda>required_corrections.
     Inr \<lparr>g_name = gate_name, g_status = status, g_reasons = reasons,
          g_required_corrections = required_corrections\<rparr>)))))"

interpretation gates: codec gate_json gate_of_json
  by unfold_locales (simp add: model_defs gate_json_def gate_of_json_def)

text \<open>No handler sets the references or the next handler of its result: they are printed as the defaults.\<close>

definition handler_result_json :: "handler_result \<Rightarrow> json" where
  "handler_result_json x = JObj
     [(''handler_name'', JStr (h_handler_name x)),
      (''handler_type'', JStr (handler_type_value (h_handler_type x))),
      (''status'', JStr (handler_status_value (h_status x))),
      (''decision'', JStr (handler_decision_value (h_decision x))),
      (''artifacts_created'', jstrs (h_artifacts_created x)), (''evidence_refs'', JArr []),
      (''gate_results'', JArr (map gate_json (h_gate_results x))), (''next_handler'', JStr []),
      (''failure_reasons'', jstrs (h_failure_reasons x)),
      (''required_corrections'', jstrs (h_required_corrections x)),
      (''metadata'', JObj (h_metadata x))]"

definition HANDLER_RESULT_FIELDS :: "string list" where
  "HANDLER_RESULT_FIELDS =
     [''handler_name'', ''handler_type'', ''status'', ''decision'', ''artifacts_created'',
      ''evidence_refs'', ''gate_results'', ''next_handler'', ''failure_reasons'',
      ''required_corrections'', ''metadata'']"

definition handler_result_of_json :: "json \<Rightarrow> handler_result res" where
  "handler_result_of_json v = resB (model_fields HANDLER_RESULT_FIELDS v) (\<lambda>d.
     resB (required d ''handler_name'' str_of) (\<lambda>handler_name.
     resB (required d ''handler_type'' (enum_of handler_type_value handler_types)) (\<lambda>handler_type.
     resB (required d ''status'' (enum_of handler_status_value handler_statuses)) (\<lambda>status.
     resB (required d ''decision'' (enum_of handler_decision_value handler_decisions)) (\<lambda>decision.
     resB (optional d ''artifacts_created'' (list_of str_of) []) (\<lambda>artifacts_created.
     resB (optional d ''evidence_refs'' (list_of str_of) []) (\<lambda>_.
     resB (optional d ''gate_results'' (list_of gate_of_json) []) (\<lambda>gate_results.
     resB (optional d ''next_handler'' str_of []) (\<lambda>_.
     resB (optional d ''failure_reasons'' (list_of str_of) []) (\<lambda>failure_reasons.
     resB (optional d ''required_corrections'' (list_of str_of) []) (\<lambda>required_corrections.
     resB (optional d ''metadata'' dict_of []) (\<lambda>metadata.
     Inr \<lparr>h_handler_name = handler_name, h_handler_type = handler_type, h_status = status,
          h_decision = decision, h_artifacts_created = artifacts_created,
          h_gate_results = gate_results, h_failure_reasons = failure_reasons,
          h_required_corrections = required_corrections, h_metadata = metadata\<rparr>))))))))))))"

interpretation handler_results: codec handler_result_json handler_result_of_json
  by unfold_locales (simp add: model_defs handler_result_json_def handler_result_of_json_def
      HANDLER_RESULT_FIELDS_def gates.load_dumps)

text \<open>The evidence artifacts are declared with \<open>exclude=True\<close>: they are read, but not printed.\<close>

definition result_json :: "chain_result \<Rightarrow> json" where
  "result_json x = JObj
     [(''run_id'', JStr (r_run_id x)), (''task_id'', JStr (r_task_id x)),
      (''task_type'', JStr (r_task_type x)), (''chain_id'', JStr (r_chain_id x)),
      (''mode'', JStr (run_type_value (r_mode x))),
      (''handler_results'', JArr (map handler_result_json (r_handler_results x))),
      (''final_status'', JStr (final_status_value (r_final_status x))),
      (''verifier_decision'', JStr (decision_value (r_verifier_decision x))),
      (''eval_score'', opt_json (\<lambda>n. JFloat (score_text n)) (r_eval_score x)),
      (''pr_status'', JStr (pr_status_value (r_pr_status x))),
      (''agent_self_certification_used'', JBool (r_agent_self_certification_used x)),
      (''auto_merge'', JBool (r_auto_merge x)), (''auto_deploy'', JBool (r_auto_deploy x))]"

definition RESULT_FIELDS :: "string list" where
  "RESULT_FIELDS =
     [''run_id'', ''task_id'', ''task_type'', ''chain_id'', ''mode'', ''handler_results'',
      ''final_status'', ''verifier_decision'', ''eval_score'', ''pr_status'',
      ''agent_self_certification_used'', ''auto_merge'', ''auto_deploy'', ''evidence_artifacts'']"

definition result_of_json :: "json \<Rightarrow> chain_result res" where
  "result_of_json v = resB (model_fields RESULT_FIELDS v) (\<lambda>d.
     resB (required d ''run_id'' str_of) (\<lambda>run_id.
     resB (required d ''task_id'' str_of) (\<lambda>task_id.
     resB (required d ''task_type'' str_of) (\<lambda>task_type.
     resB (required d ''chain_id'' str_of) (\<lambda>chain_id.
     resB (required d ''mode'' (enum_of run_type_value run_types)) (\<lambda>mode.
     resB (optional d ''handler_results'' (list_of handler_result_of_json) []) (\<lambda>handler_results.
     resB (optional d ''final_status'' (enum_of final_status_value final_statuses) FS_BLOCKED) (\<lambda>final_status.
     resB (optional d ''verifier_decision'' (enum_of decision_value decisions) D_PENDING) (\<lambda>verifier_decision.
     resB (optional d ''eval_score'' (opt_of score_of) None) (\<lambda>eval_score.
     resB (optional d ''pr_status'' (enum_of pr_status_value pr_statuses) PR_NOT_REQUIRED) (\<lambda>pr_status.
     resB (optional d ''agent_self_certification_used'' bool_of False) (\<lambda>agent_self_certification_used.
     resB (optional d ''auto_merge'' bool_of False) (\<lambda>auto_merge.
     resB (optional d ''auto_deploy'' bool_of False) (\<lambda>auto_deploy.
     resB (optional d ''evidence_artifacts'' (list_of artifact_of_json) []) (\<lambda>evidence_artifacts.
     Inr \<lparr>r_run_id = run_id, r_task_id = task_id, r_task_type = task_type, r_chain_id = chain_id,
          r_mode = mode, r_handler_results = handler_results, r_final_status = final_status,
          r_verifier_decision = verifier_decision, r_eval_score = eval_score,
          r_pr_status = pr_status, r_agent_self_certification_used = agent_self_certification_used,
          r_auto_merge = auto_merge, r_auto_deploy = auto_deploy,
          r_evidence_artifacts = evidence_artifacts\<rparr>)))))))))))))))"

lemma result_read: "result_of_json (result_json x) = Inr (shown_result x)"
  by (simp add: model_defs result_json_def result_of_json_def RESULT_FIELDS_def handler_results.load_dumps
      shown_result_def)

section \<open>The printers of the schemas\<close>

definition schema_models :: models where
  "schema_models =
     \<lparr>md_manifest = manifest_json, md_report = report_json, md_result = result_json, md_artifact = artifact_json,
      ld_manifest = manifest_of_json, ld_report = report_of_json, ld_result = result_of_json,
      ld_artifact = artifact_of_json\<rparr>"

lemma schema_models_faithful: "faithful schema_models"
  by (simp add: faithful_def reads_as_def schema_models_def manifests.load_dump reports.load_dump
      artifacts.load_dump result_read)
     (simp add: report_json_def result_json_def artifact_json_def manifest_json_def)

section \<open>Properties\<close>

text \<open>
  C20: a run record survives its snapshot, but for what the schema excludes: read back from the
  snapshot that is printed of it, every record, whatever was executed, reported and recorded, is the
  record again, with its manifest, state, tenant, report, plan, attempts, artifacts and the whole
  chain result, except that the chain result has lost its own list of evidence artifacts and a plan of
  null is read as none.
\<close>

theorem record_survives_snapshot:
  "record_from_snapshot schema_models (record_to_snapshot schema_models r) = Inr (reread r)
   \<and> reread r = r\<lparr>rr_chain_result := (if rr_chain_result r = Some JNull then None else rr_chain_result r),
       rr_chain_execution_result :=
         map_option (\<lambda>x. x\<lparr>r_evidence_artifacts := []\<rparr>) (rr_chain_execution_result r)\<rparr>"
  by (simp add: snapshot_round_trip [OF schema_models_faithful])
     (simp add: reread_def shown_result_def [abs_def])

end
