(* ===== verification/Repository_Choice.thy ===== *)
theory Repository_Choice
  imports Durable_Runs Schema_Printers
begin

text \<open>
  The port every run store implements (\<open>storage/run_repository.py\<close>) and the choice of the active
  store (\<open>api/store.py\<close>): a module with the in-memory registry, the adapter that is bound, and the
  binding by an environment variable.  The routers only call the port; the last section shows that
  they cannot tell which adapter answers.
\<close>

section \<open>The port\<close>

datatype repository = In_Memory run_repository | Postgres database

datatype repo_request = Add_Run run_record | Save_Run run_record | Get_Run string | List_Runs

datatype repo_answer = Stored | Found "run_record option" | Runs "run_record list"

datatype repo_error = Rejected pg_error | Unreadable exn

definition pg_store :: "pg_error + database \<Rightarrow> database \<Rightarrow> (repo_error + repo_answer) \<times> repository" where
  "pg_store r db =
     (case r of Inl e \<Rightarrow> (Inl (Rejected e), Postgres db) | Inr db' \<Rightarrow> (Inr Stored, Postgres db'))"

fun repo_call :: "models \<Rightarrow> repo_request \<Rightarrow> repository \<Rightarrow> (repo_error + repo_answer) \<times> repository" where
  "repo_call md (Add_Run r) (In_Memory runs) = (Inr Stored, In_Memory (repo_add r runs))"
| "repo_call md (Save_Run r) (In_Memory runs) = (Inr Stored, In_Memory (repo_save r runs))"
| "repo_call md (Get_Run k) (In_Memory runs) = (Inr (Found (repo_get runs k)), In_Memory runs)"
| "repo_call md List_Runs (In_Memory runs) = (Inr (Runs (repo_list runs)), In_Memory runs)"
| "repo_call md (Add_Run r) (Postgres db) = pg_store (pg_add md r db) db"
| "repo_call md (Save_Run r) (Postgres db) = pg_store (pg_save md r db) db"
| "repo_call md (Get_Run k) (Postgres db) =
     (case pg_get md db k of
        None \<Rightarrow> Inr (Found None)
      | Some (Inl e) \<Rightarrow> Inl (Unreadable e)
      | Some (Inr r) \<Rightarrow> Inr (Found (Some r)), Postgres db)"
| "repo_call md List_Runs (Postgres db) =
     (case res_map id (pg_list md db) of
        Inl e \<Rightarrow> Inl (Unreadable e) | Inr rs \<Rightarrow> Inr (Runs rs), Postgres db)"

section \<open>The active store\<close>

text \<open>The registry is one object: while it is bound, what is stored through the port is stored in it.\<close>

datatype binding = The_Registry | Bound repository

record store_module =
  sm_registry :: run_repository
  sm_active :: binding

definition imported_store :: store_module where
  "imported_store = \<lparr>sm_registry = [], sm_active = The_Registry\<rparr>"

definition get_repository :: "store_module \<Rightarrow> repository" where
  "get_repository m = (case sm_active m of The_Registry \<Rightarrow> In_Memory (sm_registry m) | Bound r \<Rightarrow> r)"

definition set_repository :: "repository \<Rightarrow> store_module \<Rightarrow> store_module" where
  "set_repository r m = m\<lparr>sm_active := Bound r\<rparr>"

definition reset_repository :: "store_module \<Rightarrow> store_module" where
  "reset_repository m = m\<lparr>sm_active := The_Registry\<rparr>"

text \<open>
  The constructor of the durable adapter: it raises where the driver is not installed, connects, and
  applies the schema, which makes the tables a database does not have.  \<open>connect\<close> is the driver's
  function: it raises where the database cannot be reached.
\<close>

definition require_psycopg :: "bool \<Rightarrow> unit res" where
  "require_psycopg installed =
     (if installed then Inr ()
      else Inl (RuntimeError (''PostgresRunRepository requires the '' @ [CHR 0x27] @ ''psycopg'' @ [CHR 0x27]
        @ '' driver. Install it with `pip install -r backend/requirements-postgres.txt`.'')))"

definition apply_schema :: "database option \<Rightarrow> database" where
  "apply_schema tables = (case tables of None \<Rightarrow> empty_database | Some db \<Rightarrow> db)"

definition open_postgres :: "bool \<Rightarrow> (string \<Rightarrow> database option res) \<Rightarrow> string \<Rightarrow> database res" where
  "open_postgres installed connect dsn =
     (case require_psycopg installed of
        Inl e \<Rightarrow> Inl e
      | Inr _ \<Rightarrow> (case connect dsn of Inl e \<Rightarrow> Inl e | Inr tables \<Rightarrow> Inr (apply_schema tables)))"

text \<open>The binding, for any constructor \<open>open_db\<close> of the durable adapter.\<close>

definition configure_from_env ::
    "(string \<Rightarrow> database res) \<Rightarrow> string option \<Rightarrow> store_module \<Rightarrow> repository res \<times> store_module" where
  "configure_from_env open_db dsn m =
     (case dsn of
        Some d \<Rightarrow>
          if d = [] then (Inr (get_repository (reset_repository m)), reset_repository m)
          else (case open_db d of
            Inl e \<Rightarrow> (Inl e, m)
          | Inr db \<Rightarrow> (Inr (get_repository (set_repository (Postgres db) m)), set_repository (Postgres db) m))
      | None \<Rightarrow> (Inr (get_repository (reset_repository m)), reset_repository m))"

text \<open>A call of a router on the active repository, which is an object that changes in place.\<close>

definition replace_active :: "repository \<Rightarrow> store_module \<Rightarrow> store_module" where
  "replace_active r m =
     (case (sm_active m, r) of
        (The_Registry, In_Memory runs) \<Rightarrow> m\<lparr>sm_registry := runs\<rparr>
      | _ \<Rightarrow> m\<lparr>sm_active := Bound r\<rparr>)"

definition store_call :: "models \<Rightarrow> repo_request \<Rightarrow> store_module \<Rightarrow> (repo_error + repo_answer) \<times> store_module" where
  "store_call md q m = (case repo_call md q (get_repository m) of (a, r) \<Rightarrow> (a, replace_active r m))"

primrec store_calls :: "models \<Rightarrow> repo_request list \<Rightarrow> store_module \<Rightarrow> (repo_error + repo_answer) list" where
  "store_calls md [] m = []"
| "store_calls md (q # qs) m = fst (store_call md q m) # store_calls md qs (snd (store_call md q m))"

section \<open>The adapters agree\<close>

text \<open>What a record must be for the durable store to keep it.\<close>

definition storable :: "run_record \<Rightarrow> bool" where
  "storable r \<longleftrightarrow> attempts_ok r \<and> artifacts_ok r"

fun request_storable :: "repo_request \<Rightarrow> bool" where
  "request_storable (Add_Run r) \<longleftrightarrow> storable r"
| "request_storable (Save_Run r) \<longleftrightarrow> storable r"
| "request_storable _ \<longleftrightarrow> True"

text \<open>The runs of a registry as they are read back.\<close>

definition reread_runs :: "run_repository \<Rightarrow> run_repository" where
  "reread_runs runs = map (map_prod id reread) runs"

lemma reread_runs_save: "reread_runs (repo_save r runs) = repo_save (reread r) (reread_runs runs)"
proof -
  have "map (map_prod id f) (dict_set k x d) = dict_set k (f x) (map (map_prod id f) d)"
    for f :: "run_record \<Rightarrow> run_record" and k x d
    by (induction k x d rule: dict_set.induct) auto
  then show ?thesis by (simp add: reread_runs_def repo_save_def)
qed

lemma reread_runs_get: "repo_get (reread_runs runs) k = map_option reread (repo_get runs k)"
  by (induction runs) (auto simp: reread_runs_def repo_get_def)

lemma reread_runs_list: "repo_list (reread_runs runs) = map reread (repo_list runs)"
  by (simp add: reread_runs_def repo_list_def)

lemma reread_runs_keys: "map fst (reread_runs runs) = map fst runs"
  by (simp add: reread_runs_def comp_def)

lemma pg_save_agrees:
  assumes "pg_wf db" and "shows_runs schema_models db runs" and "storable r"
  shows "\<exists>db'. pg_save schema_models r db = Inr db' \<and> pg_wf db'
    \<and> shows_runs schema_models db' (repo_save (reread r) runs)"
proof -
  obtain db' where db': "pg_save schema_models r db = Inr db'" "pg_wf db'"
    using assms pg_save_valid [of r db schema_models] by (auto simp: storable_def)
  then show ?thesis
    using shows_runs_save [OF assms(2) db'(1) snapshot_round_trip [OF schema_models_faithful]] by simp
qed

text \<open>
  What the port promises: over a store that shows some runs, a call that fits answers from these
  runs and leaves a store that shows the runs with the record in it, as this store keeps it.
\<close>

fun port_answer :: "repo_request \<Rightarrow> run_repository \<Rightarrow> repo_answer" where
  "port_answer (Get_Run k) runs = Found (repo_get runs k)"
| "port_answer List_Runs runs = Runs (repo_list runs)"
| "port_answer _ runs = Stored"

fun port_after :: "(run_record \<Rightarrow> run_record) \<Rightarrow> repo_request \<Rightarrow> run_repository \<Rightarrow> run_repository" where
  "port_after kept (Add_Run r) runs = repo_save (kept r) runs"
| "port_after kept (Save_Run r) runs = repo_save (kept r) runs"
| "port_after kept _ runs = runs"

locale run_port =
  fixes call :: "repo_request \<Rightarrow> 's \<Rightarrow> (repo_error + repo_answer) \<times> 's"
    and holds :: "'s \<Rightarrow> run_repository \<Rightarrow> bool"
    and fits :: "repo_request \<Rightarrow> bool"
    and kept :: "run_record \<Rightarrow> run_record"
  assumes stores: "holds s runs \<Longrightarrow> fits q \<Longrightarrow> q \<in> {Add_Run r, Save_Run r} \<Longrightarrow>
      \<exists>s'. call q s = (Inr Stored, s') \<and> holds s' (repo_save (kept r) runs)"
    and finds: "holds s runs \<Longrightarrow> call (Get_Run k) s = (Inr (Found (repo_get runs k)), s)"
    and lists: "holds s runs \<Longrightarrow> call List_Runs s = (Inr (Runs (repo_list runs)), s)"
begin

lemma call_spec:
  assumes "holds s runs" and "fits q"
  shows "\<exists>s'. call q s = (Inr (port_answer q runs), s') \<and> holds s' (port_after kept q runs)"
  using assms by (cases q) (auto simp: finds lists intro: stores)

end

interpretation memory: run_port "repo_call md" "\<lambda>s runs. s = In_Memory runs" "\<lambda>_. True" "\<lambda>r. r" for md
  by unfold_locales (auto simp: repo_add_def repo_save_def)

interpretation postgres: run_port "repo_call schema_models"
  "\<lambda>s runs. \<exists>db. s = Postgres db \<and> pg_wf db \<and> shows_runs schema_models db runs" request_storable reread
proof unfold_locales
  fix s :: repository and runs q r
  assume s: "\<exists>db. s = Postgres db \<and> pg_wf db \<and> shows_runs schema_models db runs"
  have id: "res_map id (map Inr rs) = Inr rs" for rs :: "run_record list" by (induction rs) simp_all
  show "repo_call schema_models (Get_Run k) s = (Inr (Found (repo_get runs k)), s)" for k
    using s shows_runs_get by (auto split: option.split)
  show "repo_call schema_models List_Runs s = (Inr (Runs (repo_list runs)), s)"
    using s shows_runs_list id by auto
  assume "request_storable q" "q \<in> {Add_Run r, Save_Run r}"
  then have q: "q = Add_Run r \<or> q = Save_Run r" "storable r" by auto
  obtain db where db: "s = Postgres db" "pg_wf db" "shows_runs schema_models db runs" using s by blast
  from pg_save_agrees [OF db(2,3) q(2)] show "\<exists>s'. repo_call schema_models q s = (Inr Stored, s')
      \<and> (\<exists>db. s' = Postgres db \<and> pg_wf db \<and> shows_runs schema_models db (repo_save (reread r) runs))"
    using q(1) db(1) by (auto simp: pg_store_def pg_add_def)
qed

text \<open>What the durable store makes of an answer: every record in it is the one that is read back.\<close>

fun reread_answer :: "repo_answer \<Rightarrow> repo_answer" where
  "reread_answer Stored = Stored"
| "reread_answer (Found r) = Found (map_option reread r)"
| "reread_answer (Runs rs) = Runs (map reread rs)"

lemma port_answer_reread: "port_answer q (reread_runs runs) = reread_answer (port_answer q runs)"
  by (cases q) (simp_all add: reread_runs_get reread_runs_list)

lemma port_after_reread: "port_after reread q (reread_runs runs) = reread_runs (port_after (\<lambda>r. r) q runs)"
  by (cases q) (simp_all add: reread_runs_save)

definition agree :: "store_module \<Rightarrow> store_module \<Rightarrow> bool" where
  "agree m n \<longleftrightarrow>
     sm_active m = The_Registry
   \<and> (\<exists>db. sm_active n = Bound (Postgres db) \<and> pg_wf db \<and> shows_runs schema_models db (reread_runs (sm_registry m)))"

lemma store_call_agrees:
  assumes "agree m n" and "request_storable q"
  shows "fst (store_call schema_models q m) = Inr (port_answer q (sm_registry m))"
    and "fst (store_call schema_models q n) = Inr (reread_answer (port_answer q (sm_registry m)))"
    and "agree (snd (store_call schema_models q m)) (snd (store_call schema_models q n))"
proof -
  let ?runs = "sm_registry m" and ?md = schema_models
  obtain db where m: "sm_active m = The_Registry" and n: "sm_active n = Bound (Postgres db)"
    and db: "pg_wf db" "shows_runs ?md db (reread_runs ?runs)"
    using assms(1) by (auto simp: agree_def)
  have "repo_call ?md q (In_Memory ?runs) = (Inr (port_answer q ?runs), In_Memory (port_after (\<lambda>r. r) q ?runs))"
    using memory.call_spec [of "In_Memory ?runs" ?runs ?md q] by simp
  then have mem: "store_call ?md q m = (Inr (port_answer q ?runs), m\<lparr>sm_registry := port_after (\<lambda>r. r) q ?runs\<rparr>)"
    using m by (simp add: store_call_def get_repository_def replace_active_def)
  obtain db' where "repo_call ?md q (Postgres db) = (Inr (reread_answer (port_answer q ?runs)), Postgres db')"
    and db': "pg_wf db'" "shows_runs ?md db' (reread_runs (port_after (\<lambda>r. r) q ?runs))"
    using postgres.call_spec [OF _ assms(2), of "Postgres db" "reread_runs ?runs"] db
    unfolding port_answer_reread port_after_reread by blast
  then have "store_call ?md q n
      = (Inr (reread_answer (port_answer q ?runs)), n\<lparr>sm_active := Bound (Postgres db')\<rparr>)"
    using n by (simp add: store_call_def get_repository_def replace_active_def)
  with mem show "fst (store_call ?md q m) = Inr (port_answer q ?runs)"
    "fst (store_call ?md q n) = Inr (reread_answer (port_answer q ?runs))"
    "agree (snd (store_call ?md q m)) (snd (store_call ?md q n))"
    using m db' by (simp_all add: agree_def)
qed

lemma store_calls_agree:
  assumes "agree m n" and "list_all request_storable qs"
  shows "store_calls schema_models qs n = map (map_sum id reread_answer) (store_calls schema_models qs m)
    \<and> list_all (\<lambda>a. \<exists>x. a = Inr x) (store_calls schema_models qs n)"
  using assms
proof (induction qs arbitrary: m n)
  case (Cons q qs)
  then have "request_storable q" by simp
  note calls = store_call_agrees [OF Cons.prems(1) this]
  have "list_all request_storable qs" using Cons.prems(2) by simp
  note rest = Cons.IH [OF calls(3) this]
  show ?case unfolding store_calls.simps calls(1,2) list.map map_sum.simps list.pred_inject list.inject
    using rest by blast
qed simp

section \<open>Properties\<close>

text \<open>
  C14: the durable store refines the in-memory one, over any sequence of calls: a server bound to an
  empty database by the environment gets from the port, call for call, the answers it would get
  without the environment variable, for adding, saving, looking up and listing runs, but that every
  record in an answer is as it is read back from its snapshot: its chain result has no list of evidence
  artifacts, which the schema keeps out of print.  None of the calls is rejected, as long as the
  attempts of what is stored are numbered and its artifacts belong to them.
\<close>

theorem durable_store_refines_memory:
  assumes "dsn \<noteq> []" and "open_db dsn = Inr empty_database" and "list_all request_storable qs"
  shows "store_calls schema_models qs (snd (configure_from_env open_db (Some dsn) imported_store))
       = map (map_sum id reread_answer)
           (store_calls schema_models qs (snd (configure_from_env open_db None imported_store)))
    \<and> list_all (\<lambda>a. \<exists>x. a = Inr x)
        (store_calls schema_models qs (snd (configure_from_env open_db (Some dsn) imported_store)))"
proof -
  let ?m = "snd (configure_from_env open_db None imported_store)"
  let ?n = "snd (configure_from_env open_db (Some dsn) imported_store)"
  have "agree ?m ?n"
    using assms by (simp add: agree_def configure_from_env_def imported_store_def reset_repository_def
        set_repository_def pg_wf_def shows_runs_def empty_database_def reread_runs_def)
  then show ?thesis using assms(3) by (rule store_calls_agree)
qed

text \<open>A record that was executed and verified, with evidence.\<close>

definition sample_artifact :: artifact where
  "sample_artifact =
     \<lparr>a_artifact_id = ''r1:diff.patch'', a_run_id = ''r1'', a_task_id = ''t1'', a_artifact_type = ''DIFF'',
      a_path = ''/store/r1/r1-a1/diff.patch'', a_hash = ''00'', a_attempt_id = Some ''r1-a1'',
      a_created_at = ''now'', a_recorded_by = ''git''\<rparr>"

definition executed_sample :: run_record where
  "executed_sample = attempted_record
     \<lparr>rr_verifier_report := Some (new_verifier_report ''t1'' ''r1'' ''v'' ''v1'' ''c1''),
      rr_chain_execution_result := Some
        ((api_blocked_result ''r1'' (default_request TT_BUG_FIX RT_IMPLEMENTATION) ''no'')
          \<lparr>r_eval_score := Some 6667, r_evidence_artifacts := [sample_artifact]\<rparr>),
      rr_artifacts := [sample_artifact]\<rparr>"

theorem durable_store_refines_memory_witness:
  "store_calls schema_models [Add_Run executed_sample, Get_Run ''r1'', Get_Run ''r2'', List_Runs]
     (snd (configure_from_env (\<lambda>_. Inr empty_database) (Some ''postgresql://db'') imported_store))
   = [Inr Stored, Inr (Found (Some (reread executed_sample))), Inr (Found None), Inr (Runs [reread executed_sample])]
   \<and> reread executed_sample \<noteq> executed_sample"
proof -
  let ?qs = "[Add_Run executed_sample, Get_Run ''r1'', Get_Run ''r2'', List_Runs]"
  have "attempt_id ''r1'' (Suc 0) = ''r1-a1''" by code_simp
  then have "storable executed_sample"
    by (simp add: storable_def attempts_ok_def artifacts_ok_def executed_sample_def attempted_record_def
        new_run_record_def sample_artifact_def)
  then have "list_all request_storable ?qs" by simp
  moreover have "rr_run_id executed_sample = ''r1''"
    by (simp add: executed_sample_def attempted_record_def new_run_record_def)
  then have "store_calls schema_models ?qs (snd (configure_from_env (\<lambda>_. Inr empty_database) None imported_store))
      = [Inr Stored, Inr (Found (Some executed_sample)), Inr (Found None), Inr (Runs [executed_sample])]"
    by (simp add: store_call_def get_repository_def replace_active_def configure_from_env_def imported_store_def
        reset_repository_def repo_add_def repo_get_def repo_list_def)
  moreover have "r_evidence_artifacts (the (rr_chain_execution_result (reread executed_sample)))
      \<noteq> r_evidence_artifacts (the (rr_chain_execution_result executed_sample))"
    by (simp add: executed_sample_def shown_result_def)
  then have "reread executed_sample \<noteq> executed_sample" by metis
  ultimately show ?thesis
    using durable_store_refines_memory [of "''postgresql://db''" "\<lambda>_. Inr empty_database" ?qs] by simp
qed

end
