(* ===== verification/Served_Runs.thy ===== *)
theory Served_Runs
  imports Durable_Runs Schema_Printers Sample_Run
begin

text \<open>
  What holds of the runs of a server after any sequence of requests, in memory and in the durable
  store: the properties of the API (\<open>api/routes_runs.py\<close>, \<open>api/routes_chains.py\<close>) over the invariant
  of \<open>Api_Safety\<close>, with a server that registered, verified and gated a run as their witness.
\<close>

section \<open>A server that has served\<close>

definition sample_manifest :: run_manifest where
  "sample_manifest = (default_manifest RT_IMPLEMENTATION)
     \<lparr>m_run_id := ''r1'', m_model := ''m'', m_prompt_hash := ''p'', m_definition_of_done_version := ''1'',
      m_files_in_scope := [''app/*''], m_verifier_id := ''v'', m_verifier_run_id := ''v1'',
      m_coding_agent_run_id := ''c1''\<rparr>"

definition sample_report :: verifier_report where
  "sample_report = (new_verifier_report ''t1'' ''r1'' ''v'' ''v1'' ''c1'')\<lparr>vr_decision := D_PASS\<rparr>"

definition start_server :: server where
  "start_server =
     \<lparr>api_runs = [],
      api_settings = \<lparr>rt_workspace_root = parse_path ''/ws'', rt_artifacts_root = parse_path ''/store'',
        rt_provider_mode = [], rt_production_mode = True\<rparr>,
      api_world = two_roots, api_uuids = 0\<rparr>"

lemma sample_manifest_passes: "passed (manifest_gate sample_manifest)"
  by (simp add: manifest_gate_passed model_policy_passed sample_manifest_def default_manifest_def)

definition verified_record :: run_record where
  "verified_record = (new_run_record ''r1'' sample_manifest)
     \<lparr>rr_verifier_report := Some sample_report, rr_state := ''PR_GATE''\<rparr>"

lemma sample_effective:
  "effective_decision (new_run_record ''r1'' sample_manifest) sample_report (new_ledger ''t1'' ''r1'') = D_PASS"
  by (simp add: effective_decision_def verify_self_cert_def verify_evidence_def Let_def
      no_self_certification_passed evidence_gate_passed ledger_linked_def new_ledger_def new_run_record_def
      sample_report_def new_verifier_report_def named_ids_def)

lemma sample_created:
  "\<exists>x. create_run uuid sample_manifest start_server
     = (x, start_server\<lparr>api_runs := [(''r1'', new_run_record ''r1'' sample_manifest)]\<rparr>)"
proof -
  have "m_run_id sample_manifest = ''r1''" by (simp add: sample_manifest_def)
  moreover have "rr_run_id (new_run_record ''r1'' sample_manifest) = ''r1''" by (simp add: new_run_record_def)
  ultimately show ?thesis using sample_manifest_passes
    by (simp add: create_run_def Let_def comp_defs repo_add_def start_server_def)
qed

definition reported_record :: run_record where
  "reported_record = (new_run_record ''r1'' sample_manifest)
     \<lparr>rr_verifier_report := Some sample_report, rr_state := ''VERIFY''\<rparr>"

lemma sample_verified:
  "\<exists>y. verify_run ''r1'' sample_report (new_ledger ''t1'' ''r1'')
      (start_server\<lparr>api_runs := [(''r1'', new_run_record ''r1'' sample_manifest)]\<rparr>)
    = (y, start_server\<lparr>api_runs := [(''r1'', reported_record)]\<rparr>)"
proof -
  have "sample_report\<lparr>vr_decision := D_PASS\<rparr> = sample_report" by (simp add: sample_report_def)
  moreover have "rr_run_id (new_run_record ''r1'' sample_manifest) = ''r1''" by (simp add: new_run_record_def)
  ultimately show ?thesis
    by (simp add: verify_run_def with_run_def comp_defs repo_get_def Let_def sample_effective
        api_save_def repo_save_def reported_record_def)
qed

lemma sample_gated:
  "\<exists>z. create_or_update_pr ''r1'' [] ''local'' (start_server\<lparr>api_runs := [(''r1'', reported_record)]\<rparr>)
    = (z, start_server\<lparr>api_runs := [(''r1'', verified_record)]\<rparr>)"
proof -
  have "passed (pr_gate D_PASS (request_pr_facts sample_manifest [] ''local''))"
    by (simp add: pr_gate_passed request_pr_facts_def no_pr_facts_def sample_manifest_def default_manifest_def)
  moreover have "decision_of reported_record = D_PASS" "rr_manifest reported_record = sample_manifest"
    "rr_run_id reported_record = ''r1''"
    by (simp_all add: decision_of_def reported_record_def sample_report_def new_run_record_def)
  moreover have "reported_record\<lparr>rr_state := ''PR_GATE''\<rparr> = verified_record" "rr_run_id verified_record = ''r1''"
    by (simp_all add: reported_record_def verified_record_def new_run_record_def)
  ultimately show ?thesis
    by (simp add: create_or_update_pr_def with_run_def comp_defs repo_get_def Let_def api_save_def repo_save_def)
qed

lemma sample_served:
  "served v uuid (start_server\<lparr>api_runs := [(''r1'', verified_record)]\<rparr>)"
proof -
  have "(api_step v uuid)\<^sup>*\<^sup>* start_server (start_server\<lparr>api_runs := [(''r1'', verified_record)]\<rparr>)"
    using sample_created [of uuid] sample_verified sample_gated created verified requested_pr
    by (meson rtranclp.rtrancl_into_rtrancl rtranclp.rtrancl_refl)
  then show ?thesis unfolding served_def by (intro exI [of _ start_server]) (simp add: start_server_def)
qed

section \<open>A server that executes\<close>

lemma sample_resolves: "workspace_resolve two_roots (resolve_path two_roots (parse_path ''/ws'')) (PathStr ''/ws'')
    = Inr (resolve_path two_roots (parse_path ''/ws''))" by code_simp

lemma default_tools_build: "\<exists>reg. build_tool_registry DEFAULT_TOOLS [] = Inr reg"
  by (simp add: DEFAULT_TOOLS_def inventory_tool_def register_tool_def FORBIDDEN_TOOL_NAMES_def)

text \<open>Requests of the run \<open>r1\<close> for different tasks.\<close>

definition task_request :: "string \<Rightarrow> chain_request" where
  "task_request task = sample_request\<lparr>q_run_id := [], q_task_id := task\<rparr>"

lemma sample_executes:
  "\<exists>x r' s'. execute_chain quiet_env ''r1'' (task_request t) []
      (start_server\<lparr>api_runs := [(''r1'', new_run_record ''r1'' sample_manifest)]\<rparr>) = (Inr (Respond x), s')
    \<and> repo_get (api_runs s') ''r1'' = Some r' \<and> length (rr_attempts r') = 1 \<and> rr_manifest r' = sample_manifest
    \<and> map fst (api_runs s') = [''r1'']
    \<and> rr_verifier_report r' = None \<and> rr_chain_result r' = None \<and> r_task_id x = t"
proof -
  let ?r = "new_run_record ''r1'' sample_manifest" and ?q = "task_request t"
  let ?s = "start_server\<lparr>api_runs := [(''r1'', ?r)]\<rparr>"
  let ?b = "bind_identity ''r1'' ?r ?q"
  have id: "identity_error ''r1'' ?r ?q = None"
    by (simp add: identity_error_def task_request_def new_run_record_def sample_manifest_def default_manifest_def)
  have "canonical_violations ?b = canonical_violations sample_request" "q_scrum ?b = q_scrum sample_request"
    by (simp_all add: bind_identity_def canonical_violations_def task_request_def)
  then have q: "canonical_violations ?b = []" "\<not> passed (scrum_gate (envelope_scrum (q_scrum ?b)) None)"
    using sample_scrum_fails by simp_all
  obtain reg where reg: "build_tool_registry DEFAULT_TOOLS [] = Inr reg" using default_tools_build by blast
  let ?x = "\<lparr>re_root = workspace_policy two_roots (parse_path ''/ws''), re_artifacts_root = parse_path ''/store'',
        re_agents = no_agents, re_tools = reg, re_handlers = build_default_registry quiet_env\<rparr>"
  have rt: "build_runtime_executor quiet_env two_roots (api_settings ?s) = Inr ?x"
    by (simp add: build_runtime_executor_def reg start_server_def settings_agent_config_def)
  have ws: "str_path (parse_path ''/ws'') = ''/ws''" by code_simp
  obtain al w1 where al: "allocate quiet_env (re_root ?x) ?r (PathStr ''/ws'') two_roots = (Inr al, w1)"
      "wa_execution_path al = resolve_path two_roots (parse_path ''/ws'')" and w1: "w1 = two_roots\<lparr>w_tick := Suc 0\<rparr>"
    using sample_resolves
    by (simp add: allocate_def workspace_policy_def comp_defs git_head_commit_def git_is_repo_def or_git_failure_def
        git_run_def quiet_env_def read_clock_def Let_def two_roots_def)
  have again: "workspace_resolve w1 (re_root ?x) (PathObj (wa_execution_path al))
      = Inr (resolve_path two_roots (parse_path ''/ws''))"
    unfolding w1 al(2) by (simp add: workspace_policy_def) code_simp
  let ?sv = "runtime_services ?x (resolve_path two_roots (parse_path ''/ws'')) (Some (at_attempt_id (wa_attempt al)))"
  have "sv_manifest ?sv = None" "sv_scrum ?sv = None" by (simp_all add: runtime_services_def)
  from incomplete_scrum_run [OF q(1) this q(2)] obtain x w2 where
    ex: "execute quiet_env (build_default_registry quiet_env) ?b ?sv w1 = (Inr x, w2)" and task: "r_task_id x = q_task_id ?b" by blast
  have t: "r_task_id x = t"
    using task by (simp add: bind_identity_def task_request_def new_run_record_def sample_manifest_def default_manifest_def)
  have "\<exists>r'. run_attempt_of quiet_env ?x ?r ?b ''/ws'' two_roots = (Inr (r', x), w2)
      \<and> length (rr_attempts r') = 1 \<and> rr_manifest r' = sample_manifest
      \<and> rr_verifier_report r' = None \<and> rr_chain_result r' = None"
    using al(1) again ex
    by (simp add: run_attempt_of_def runtime_execute_def comp_defs Let_def new_run_record_def)
  then obtain r' where r': "run_attempt_of quiet_env ?x ?r ?b ''/ws'' two_roots = (Inr (r', x), w2)"
    "length (rr_attempts r') = 1 \<and> rr_manifest r' = sample_manifest
      \<and> rr_verifier_report r' = None \<and> rr_chain_result r' = None" by blast
  have r1: "rr_run_id r' = ''r1''" using run_attempt_adds [OF r'(1)] by (auto simp: attempt_added_def new_run_record_def bind_identity_def)
  have "execute_chain quiet_env ''r1'' ?q [] ?s = (Inr (Respond x),
      ?s\<lparr>api_world := w2, api_runs := repo_save (executed_record r' x) [(''r1'', ?r)]\<rparr>)"
    using id q(1) rt r'(1) ws
    by (simp add: execute_chain_def with_run_def bindC_getC bindC_liftC repo_get_def guarded_attempt_def
        on_server_world_def start_server_def comp_defs api_save_def executed_record_def Let_def)
  then show ?thesis using r'(2) r1 t
    by (intro exI conjI) (assumption, auto simp: repo_save_def repo_get_def executed_record_def)
qed

text \<open>A record read back keeps what the invariant looks at.\<close>

lemma record_ok_reread [simp]: "record_ok (reread r) = record_ok r"
proof -
  have "decision_of (reread r) = decision_of r" by (simp add: decision_of_def)
  moreover have "bound_pass (reread r) = bound_pass r"
    by (cases "rr_verifier_report r") (simp_all add: bound_pass_def)
  moreover have "attempts_ok (reread r) = attempts_ok r" "artifacts_ok (reread r) = artifacts_ok r"
    unfolding attempts_ok_def artifacts_ok_def reread_sel by (rule refl)+
  ultimately show ?thesis unfolding record_ok_def reread_sel by simp
qed

section \<open>The attempts of all stored runs\<close>

definition stored_attempt_ids :: "run_repository \<Rightarrow> string list" where
  "stored_attempt_ids runs = concat (map (\<lambda>r. map at_attempt_id (rr_attempts r)) (repo_list runs))"

lemma distinct_run_ids: "repo_wf runs \<Longrightarrow> distinct (map rr_run_id (repo_list runs))"
proof -
  assume wf: "repo_wf runs"
  then have "map rr_run_id (repo_list runs) = map fst runs"
    by (auto simp: repo_wf_def repo_list_def list_all_iff)
  with wf show ?thesis by (simp add: repo_wf_def)
qed

lemma distinct_attempts:
  assumes "list_all record_ok rs" and "distinct (map rr_run_id rs)"
  shows "distinct (concat (map (\<lambda>r. map at_attempt_id (rr_attempts r)) rs))"
  using assms
proof (induction rs)
  case (Cons r rs)
  have ids: "map at_attempt_id (rr_attempts x) = map (attempt_id (rr_run_id x)) [1..<Suc (length (rr_attempts x))]"
    if "x \<in> set (r # rs)" for x
  proof -
    have "attempts_ok x" using Cons.prems(1) that unfolding list_all_iff record_ok_def by blast
    then show ?thesis by (rule attempts_ok_numbers(2))
  qed
  have own: "distinct (map at_attempt_id (rr_attempts r))"
    by (simp only: ids list.set_intros distinct_map distinct_upt) (simp add: inj_on_def attempt_id_inject)
  have "i \<notin> at_attempt_id ` set (rr_attempts x)" if "x \<in> set rs" "i \<in> set (map at_attempt_id (rr_attempts r))" for x i
  proof -
    have "rr_run_id x \<noteq> rr_run_id r" using Cons.prems(2) that(1) by (metis distinct.simps(2) imageI list.simps(9) list.set_map)
    then have "i \<notin> set (map at_attempt_id (rr_attempts x))"
      using that ids [of r] ids [of x] by (auto simp: attempt_id_inject simp del: upt_Suc)
    then show ?thesis by simp
  qed
  then show ?case using Cons own by auto
qed simp

lemma attempt_id_stored:
  assumes "server_ok s" and "attempt_id k n \<in> set (stored_attempt_ids (api_runs s))"
    and "repo_get (api_runs s) k = Some r"
  shows "n \<le> length (rr_attempts r)"
proof -
  obtain x where x: "x \<in> set (repo_list (api_runs s))" "attempt_id k n \<in> set (map at_attempt_id (rr_attempts x))"
    using assms(2) by (auto simp: stored_attempt_ids_def)
  have "record_ok x" using x(1) assms(1) by (auto simp: server_ok_def list_all_iff)
  then have "map at_attempt_id (rr_attempts x) = map (attempt_id (rr_run_id x)) [1..<Suc (length (rr_attempts x))]"
    using attempts_ok_numbers(2) by (simp add: record_ok_def)
  then have id: "rr_run_id x = k" and n: "n \<le> length (rr_attempts x)"
    using x(2) by (auto simp: attempt_id_inject simp del: upt_Suc)
  have wf: "repo_wf (api_runs s)" using assms(1) by (simp add: server_ok_def)
  obtain i where "(i, x) \<in> set (api_runs s)" using x(1) by (auto simp: repo_list_def)
  then have "repo_get (api_runs s) k = Some x"
    using wf id by (auto simp: repo_wf_def repo_get_def list_all_iff)
  with assms(3) n show ?thesis by simp
qed

section \<open>Properties\<close>

text \<open>
  C11: whatever requests the server has served, in whatever order, a run stands before the PR gate
  only with the decision PASS, and a stored PASS came in a report that names a task and whose verifier
  run, where it names one, is not the run of the coding agent; every stored run passed the manifest
  gate.  A report that names no verifier run is not turned down, which is what the code does.
\<close>

theorem pr_gate_needs_pass:
  assumes "served v uuid s" and "repo_get (api_runs s) k = Some r"
  shows "rr_run_id r = k \<and> passed (manifest_gate (rr_manifest r))
    \<and> (rr_state r = ''PR_GATE'' \<longrightarrow> decision_of r = D_PASS)
    \<and> (decision_of r = D_PASS \<longrightarrow> (\<exists>p. rr_verifier_report r = Some p \<and> vr_task_id p \<noteq> []
          \<and> (vr_verifier_run_id p = [] \<or> vr_coding_agent_run_id p \<noteq> vr_verifier_run_id p)))"
proof -
  note get = server_ok_get [OF served_ok [OF assms(1)] assms(2)]
  have "bound_pass r \<Longrightarrow> \<exists>p. rr_verifier_report r = Some p \<and> vr_task_id p \<noteq> []
          \<and> (vr_verifier_run_id p = [] \<or> vr_coding_agent_run_id p \<noteq> vr_verifier_run_id p)"
    by (auto simp: bound_pass_def split: option.splits)
  then show ?thesis using get by (auto simp: record_ok_def)
qed

theorem pr_gate_needs_pass_witness:
  "\<exists>s r. served quiet_env (\<lambda>_. ''0123456789ab'') s \<and> repo_get (api_runs s) ''r1'' = Some r
     \<and> rr_state r = ''PR_GATE'' \<and> decision_of r = D_PASS"
proof -
  let ?s = "start_server\<lparr>api_runs := [(''r1'', verified_record)]\<rparr>"
  have served: "served quiet_env (\<lambda>_. ''0123456789ab'') ?s" by (rule sample_served)
  have get: "repo_get (api_runs ?s) ''r1'' = Some verified_record" by (simp add: repo_get_def)
  have "rr_state verified_record = ''PR_GATE''" by (simp add: verified_record_def)
  with pr_gate_needs_pass [OF served get] served get show ?thesis by blast
qed






text \<open>
  C24: in a server that has served any requests, one after the other, no two attempts of the stored
  runs have the same id, and the next attempt that is allocated to a stored run gets the next number
  and an id none of them has, in the admitted workspace.
\<close>

theorem served_attempts_have_own_ids:
  assumes "served v uuid s" and "repo_get (api_runs s) k = Some r"
    and "allocate v base r arg w = (Inr al, w')"
  shows "distinct (stored_attempt_ids (api_runs s))
    \<and> at_attempt_id (wa_attempt al) \<notin> set (stored_attempt_ids (api_runs s))
    \<and> at_attempt_number (wa_attempt al) = int (length (rr_attempts r) + 1)
    \<and> at_final_status (wa_attempt al) = None
    \<and> workspace_resolve w base arg = Inr (wa_execution_path al)"
proof -
  have ok: "server_ok s" using served_ok [OF assms(1)] .
  then have "distinct (stored_attempt_ids (api_runs s))"
    using distinct_attempts distinct_run_ids by (auto simp: server_ok_def stored_attempt_ids_def)
  moreover have "at_attempt_id (wa_attempt al) = attempt_id k (Suc (length (rr_attempts r)))"
    using allocate_Inr(1) [OF assms(3)] server_ok_get(2) [OF ok assms(2)] by simp
  then have "at_attempt_id (wa_attempt al) \<notin> set (stored_attempt_ids (api_runs s))"
    using attempt_id_stored [OF ok _ assms(2)] by (metis not_less_eq_eq order_refl)
  moreover have "at_final_status (wa_attempt al) = None"
    using assms(3) by (auto simp: allocate_def Let_def elim!: bindC_Inr_E)
  ultimately show ?thesis using allocate_Inr(2,3) [OF assms(3)] by simp
qed

lemma sample_allocated:
  "\<exists>al w'. allocate quiet_env (parse_path ''/ws'') r (PathStr ''/ws/repo'') two_roots = (Inr al, w')"
proof -
  have "workspace_resolve two_roots (parse_path ''/ws'') (PathStr ''/ws/repo'')
      = Inr (resolve_path two_roots (parse_path ''/ws/repo''))"
    by code_simp
  then show ?thesis
    by (simp add: allocate_def comp_defs git_head_commit_def git_is_repo_def or_git_failure_def git_run_def
        quiet_env_def read_clock_def Let_def)
qed

theorem served_attempts_have_own_ids_witness:
  "\<exists>s r al w'. served quiet_env (\<lambda>_. ''0123456789ab'') s \<and> repo_get (api_runs s) ''r1'' = Some r
     \<and> length (rr_attempts r) = 1 \<and> length (stored_attempt_ids (api_runs s)) = 1
     \<and> allocate quiet_env (parse_path ''/ws'') r (PathStr ''/ws/repo'') two_roots = (Inr al, w')
     \<and> at_attempt_number (wa_attempt al) = 2
     \<and> at_attempt_id (wa_attempt al) \<notin> set (stored_attempt_ids (api_runs s))"
proof -
  let ?u = "\<lambda>_ :: nat. ''0123456789ab''"
  let ?s = "start_server\<lparr>api_runs := [(''r1'', new_run_record ''r1'' sample_manifest)]\<rparr>"
  obtain x r s where run: "execute_chain quiet_env ''r1'' (task_request ''a'') [] ?s = (Inr (Respond x), s)"
    and r: "repo_get (api_runs s) ''r1'' = Some r" "length (rr_attempts r) = 1" "map fst (api_runs s) = [''r1'']"
    using sample_executes [of "''a''"] by metis
  have "(api_step quiet_env ?u)\<^sup>*\<^sup>* start_server s"
    using sample_created [of ?u] run created executed
    by (meson rtranclp.rtrancl_into_rtrancl rtranclp.rtrancl_refl)
  then have served: "served quiet_env ?u s" unfolding served_def
    by (intro exI [of _ start_server]) (simp add: start_server_def)
  obtain al w' where al: "allocate quiet_env (parse_path ''/ws'') r (PathStr ''/ws/repo'') two_roots = (Inr al, w')"
    using sample_allocated by blast
  have "api_runs s = [(''r1'', r)]" using r(1,3) by (auto simp: repo_get_def)
  then have "length (stored_attempt_ids (api_runs s)) = 1" using r(2) by (simp add: stored_attempt_ids_def repo_list_def)
  then show ?thesis using served_attempts_have_own_ids [OF served r(1) al] served r al by auto
qed



end
