(* ===== verification/Application.thy ===== *)
theory Application
  imports Repository_Choice Served_Runs
begin

text \<open>
  The application (\<open>main.py\<close>): the routes of its three routers and the health check as one function
  from requests to replies, the start-up that binds a run store, and the store behind the routes.
  The routes of \<open>Api\<close> work on the runs they are given: with the in-memory registry these are all
  runs, with the durable store a copy of the record they look up, which is written back.  The lemmas
  show that no request touches a run it does not name, and that the two stores cannot be told apart
  by their answers.
\<close>

section \<open>Requests and replies\<close>

record verify_request =
  vq_verifier_report :: verifier_report
  vq_evidence_ledger :: evidence_ledger

record pr_request =
  pq_pr_url :: string
  pq_pr_skip_reason :: string

record chain_execute_request =
  eq_request :: chain_request
  eq_execution_path :: string

datatype http_request =
    Get_Health
  | Post_Run run_manifest
  | Get_Runs
  | Get_Run_View string
  | Get_Run_State string
  | Post_Verify string verify_request
  | Post_Pr string pr_request
  | Get_Chains
  | Get_Chain string
  | Post_Plan string chain_request
  | Post_Execute string chain_execute_request
  | Get_Results string
  | Get_Attempts string
  | Get_Models
  | Get_Catalog
  | Get_Invocations string

datatype body =
    Json json
  | Jsons "json list"
  | Created_Run create_run_response
  | Run_States "(string \<times> string) list"
  | Run_View run_view
  | Verified verify_response
  | Pr_Opened pr_response
  | Executed chain_result
  | Catalog "catalog_entry list"

text \<open>An exception that escapes a route is the framework's 500, which does not show it.\<close>

datatype reply = Answer nat body | Refusal nat json | Server_Error

definition run_route :: "nat \<Rightarrow> ('a \<Rightarrow> body) \<Rightarrow> 'a route \<Rightarrow> server \<Rightarrow> reply \<times> server" where
  "run_route status wrap route s =
     (case route s of
        (Inl e, s') \<Rightarrow> (Server_Error, s')
      | (Inr (Respond x), s') \<Rightarrow> (Answer status (wrap x), s')
      | (Inr (HttpError n detail), s') \<Rightarrow> (Refusal n detail, s'))"

definition models_catalog :: "catalog_entry list" where
  "models_catalog = MODEL_CATALOG"

text \<open>A chain result is answered as it is printed, without its list of evidence artifacts.\<close>

fun results_body :: "json + chain_result \<Rightarrow> body" where
  "results_body (Inl plan) = Json plan"
| "results_body (Inr result) = Executed (shown_result result)"

fun app_request :: "env \<Rightarrow> (nat \<Rightarrow> string) \<Rightarrow> http_request \<Rightarrow> server \<Rightarrow> reply \<times> server" where
  "app_request v uuid Get_Health = run_route 200 Json (ret (Respond health))"
| "app_request v uuid (Post_Run m) = run_route 201 Created_Run (create_run uuid m)"
| "app_request v uuid Get_Runs = run_route 200 Run_States (bindC list_runs (\<lambda>rs. ret (Respond rs)))"
| "app_request v uuid (Get_Run_View k) = run_route 200 Run_View (get_run k)"
| "app_request v uuid (Get_Run_State k) = run_route 200 (\<lambda>x. Run_States [x]) (get_run_state k)"
| "app_request v uuid (Post_Verify k b) =
     run_route 200 Verified (verify_run k (vq_verifier_report b) (vq_evidence_ledger b))"
| "app_request v uuid (Post_Pr k b) =
     run_route 200 Pr_Opened (create_or_update_pr k (pq_pr_url b) (pq_pr_skip_reason b))"
| "app_request v uuid Get_Chains = run_route 200 Jsons (ret (Respond list_chains))"
| "app_request v uuid (Get_Chain i) = run_route 200 Json (ret (get_chain i))"
| "app_request v uuid (Post_Plan k q) = run_route 200 Json (plan_chain k q)"
| "app_request v uuid (Post_Execute k b) =
     run_route 200 (\<lambda>x. Executed (shown_result x)) (execute_chain v k (eq_request b) (eq_execution_path b))"
| "app_request v uuid (Get_Results k) = run_route 200 results_body (get_chain_results k)"
| "app_request v uuid (Get_Attempts k) = run_route 200 Jsons (get_run_attempts k)"
| "app_request v uuid Get_Models = run_route 200 Json (ret (Respond models_summary))"
| "app_request v uuid Get_Catalog = run_route 200 Catalog (ret (Respond models_catalog))"
| "app_request v uuid (Get_Invocations k) = run_route 200 Jsons (run_llm_invocations k)"

text \<open>The run a request looks up, and the run it may change.\<close>

fun names_run :: "http_request \<Rightarrow> string option" where
  "names_run (Get_Run_View k) = Some k"
| "names_run (Get_Run_State k) = Some k"
| "names_run (Post_Verify k b) = Some k"
| "names_run (Post_Pr k b) = Some k"
| "names_run (Post_Plan k q) = Some k"
| "names_run (Post_Execute k b) = Some k"
| "names_run (Get_Results k) = Some k"
| "names_run (Get_Attempts k) = Some k"
| "names_run (Get_Invocations k) = Some k"
| "names_run _ = None"

fun writing :: "http_request \<Rightarrow> bool" where
  "writing (Post_Run m) \<longleftrightarrow> True"
| "writing (Post_Verify k b) \<longleftrightarrow> True"
| "writing (Post_Pr k b) \<longleftrightarrow> True"
| "writing (Post_Plan k q) \<longleftrightarrow> True"
| "writing (Post_Execute k b) \<longleftrightarrow> True"
| "writing _ \<longleftrightarrow> False"

fun target :: "http_request \<Rightarrow> reply \<Rightarrow> string option" where
  "target (Post_Run m) (Answer n (Created_Run c)) = Some (cr_run_id c)"
| "target q a = names_run q"

fun accepted :: "reply \<Rightarrow> bool" where
  "accepted (Answer n b) \<longleftrightarrow> True"
| "accepted _ \<longleftrightarrow> False"

section \<open>The work of a request\<close>

text \<open>
  What a request did to the runs is nothing or the storing of one record; what it answers, which
  record it stores and what it leaves of the world depend on the runs through its own run only.
\<close>

definition stored :: "run_record option \<Rightarrow> run_repository \<Rightarrow> run_repository" where
  "stored x runs = (case x of None \<Rightarrow> runs | Some r \<Rightarrow> repo_save r runs)"

definition did :: "server \<Rightarrow> world \<Rightarrow> nat \<Rightarrow> run_record option \<Rightarrow> server" where
  "did s w n x = s\<lparr>api_world := w, api_uuids := n, api_runs := stored x (api_runs s)\<rparr>"

definition same_work ::
    "server \<Rightarrow> run_repository \<Rightarrow> ('a \<Rightarrow> run_record option \<Rightarrow> bool) \<Rightarrow> (server \<Rightarrow> 'a \<times> server) \<Rightarrow> bool" where
  "same_work s runs P f \<longleftrightarrow> (\<exists>y w n x. P y x
     \<and> f s = (y, did s w n x) \<and> f (s\<lparr>api_runs := runs\<rparr>) = (y, did (s\<lparr>api_runs := runs\<rparr>) w n x))"

named_theorems work_rules \<open>what the parts of a route do\<close>

lemma work_ret [work_rules]: "P (Inr a) None \<Longrightarrow> same_work s runs P (ret a)"
  unfolding same_work_def
  by (intro exI [of _ "Inr a"] exI [of _ "api_world s"] exI [of _ "api_uuids s"] exI [of _ None])
     (simp add: did_def stored_def ret_def)

lemma work_getC [work_rules]:
  "g (s\<lparr>api_runs := runs\<rparr>) = g s \<Longrightarrow> same_work s runs P (h (g s)) \<Longrightarrow> same_work s runs P (bindC (getC g) h)"
  by (simp add: same_work_def bindC_getC)

lemma work_liftC [work_rules]:
  "(\<And>e. x = Inl e \<Longrightarrow> P (Inl e) None) \<Longrightarrow> (\<And>y. x = Inr y \<Longrightarrow> same_work s runs P (h y))
    \<Longrightarrow> same_work s runs P (bindC (liftC x) h)"
proof (cases x)
  case (Inl e)
  assume "\<And>e. x = Inl e \<Longrightarrow> P (Inl e) None"
  then have "same_work s runs P (\<lambda>t. (Inl e, t))" unfolding same_work_def
    by (intro exI [of _ "Inl e"] exI [of _ "api_world s"] exI [of _ "api_uuids s"] exI [of _ None])
       (simp add: did_def stored_def Inl)
  then show ?thesis by (simp add: same_work_def bindC_liftC Inl)
qed (simp add: same_work_def bindC_liftC)

lemma work_save [work_rules]:
  "P (Inr a) (Some r) \<Longrightarrow> same_work s runs P (bindC (api_save r) (\<lambda>_. ret a))"
  unfolding same_work_def
  by (intro exI [of _ "Inr a"] exI [of _ "api_world s"] exI [of _ "api_uuids s"] exI [of _ "Some r"])
     (simp add: did_def stored_def comp_defs api_save_def)

lemma work_world:
  assumes "\<And>t. f t = (z (api_world t), t\<lparr>api_world := u (api_world t)\<rparr>)"
    and "\<And>e. z (api_world s) = Inl e \<Longrightarrow> P (Inl e) None"
    and "\<And>y. z (api_world s) = Inr y \<Longrightarrow> same_work (s\<lparr>api_world := u (api_world s)\<rparr>) runs P (h y)"
  shows "same_work s runs P (bindC f h)"
proof (cases "z (api_world s)")
  case (Inl e)
  then show ?thesis using assms(1,2) unfolding same_work_def
    by (intro exI [of _ "Inl e"] exI [of _ "u (api_world s)"] exI [of _ "api_uuids s"] exI [of _ None])
       (simp add: did_def stored_def bindC_def)
next
  case (Inr y)
  let ?s = "s\<lparr>api_world := u (api_world s)\<rparr>"
  have eq: "bindC f h s = h y ?s" "bindC f h (s\<lparr>api_runs := runs\<rparr>) = h y (?s\<lparr>api_runs := runs\<rparr>)"
    using Inr assms(1) by (simp_all add: bindC_def) (rule arg_cong [of _ _ "h y"], simp)
  have "did ?s w n x = did s w n x" "did (?s\<lparr>api_runs := runs\<rparr>) w n x = did (s\<lparr>api_runs := runs\<rparr>) w n x" for w n x
    by (simp_all add: did_def)
  then show ?thesis using assms(3) [OF Inr] by (simp only: same_work_def eq)
qed

lemma work_with_run:
  assumes "repo_get runs k = repo_get (api_runs s) k" and "P (Inr (not_found ''run'')) None"
    and "\<And>r. repo_get (api_runs s) k = Some r \<Longrightarrow> same_work s runs P (f r)"
  shows "same_work s runs P (with_run k f)"
proof (cases "repo_get (api_runs s) k")
  case None
  then show ?thesis using assms(1,2) work_ret [of P "not_found ''run''" s runs]
    by (simp add: same_work_def with_run_def bindC_getC)
next
  case (Some r)
  then show ?thesis using assms(1,3) by (simp add: same_work_def with_run_def bindC_getC)
qed

text \<open>A route stores at most the record it found, and only when it answers.\<close>

definition plan_given :: "run_record \<Rightarrow> bool" where
  "plan_given r \<longleftrightarrow> rr_chain_result r \<noteq> Some JNull"

definition keeps :: "run_record option \<Rightarrow> exn + 'a response \<Rightarrow> run_record option \<Rightarrow> bool" where
  "keeps found y x \<longleftrightarrow> (\<forall>r'. x = Some r' \<longrightarrow> (\<exists>b. y = Inr (Respond b))
     \<and> (\<exists>r. found = Some r \<and> rr_run_id r' = rr_run_id r \<and> (plan_given r \<longrightarrow> plan_given r')))"

lemma keeps_None [simp]: "keeps found y None"
  by (simp add: keeps_def)

lemma guarded_attempt_local:
  "guarded_attempt v x k r q p t =
     (fst (guarded_attempt v x k r q p (s\<lparr>api_world := api_world t\<rparr>)),
      t\<lparr>api_world := snd (run_attempt_of v x r q p (api_world t))\<rparr>)"
  by (cases "run_attempt_of v x r q p (api_world t)")
     (auto simp: guarded_attempt_def on_server_world_def comp_defs split: sum.split exn.split)

lemma keeps_refused [simp]: "keeps found (Inr (HttpError n j)) x \<longleftrightarrow> x = None"
  by (auto simp: keeps_def)

lemma keeps_stored [simp]:
  "keeps (Some r) (Inr (Respond b)) (Some r') \<longleftrightarrow> rr_run_id r' = rr_run_id r \<and> (plan_given r \<longrightarrow> plan_given r')"
  by (simp add: keeps_def)

lemma work_record:
  assumes "repo_get runs k = repo_get (api_runs s) k"
    and "\<And>r. repo_get (api_runs s) k = Some r \<Longrightarrow> same_work s runs (keeps (Some r)) (f r)"
  shows "same_work s runs (keeps (repo_get (api_runs s) k)) (with_run k f)"
  using assms by (intro work_with_run) (simp_all add: not_found_def)

lemma plan_given_chain_plan: "plan_given (r\<lparr>rr_chain_result := Some (chain_plan k q)\<rparr>)"
  by (simp add: plan_given_def chain_plan_def Let_def split: option.split)

lemma plan_given_update [simp]:
  "plan_given (r\<lparr>rr_verifier_report := p\<rparr>) = plan_given r"
  "plan_given (r\<lparr>rr_state := st\<rparr>) = plan_given r"
  "plan_given (r\<lparr>rr_chain_execution_result := y\<rparr>) = plan_given r"
  by (simp_all add: plan_given_def)

lemma execute_chain_work:
  assumes "repo_get runs k = repo_get (api_runs s) k"
  shows "same_work s runs (keeps (repo_get (api_runs s) k)) (execute_chain v k q path)"
proof -
  have attempt: "same_work s runs (keeps (Some r)) (bindC (guarded_attempt v x k r b p) (\<lambda>(r', res).
      bindC (api_save (r'\<lparr>rr_chain_execution_result := Some res, rr_state := ''EXECUTE_CHAIN''\<rparr>))
        (\<lambda>_. ret (Respond res))))" for x r b p
  proof (rule work_world [where z = "\<lambda>w. fst (guarded_attempt v x k r b p (s\<lparr>api_world := w\<rparr>))"
        and u = "\<lambda>w. snd (run_attempt_of v x r b p w)"])
    fix y assume y: "fst (guarded_attempt v x k r b p (s\<lparr>api_world := api_world s\<rparr>)) = Inr y"
    obtain r' res where "y = (r', res)" by force
    moreover from y this obtain s1 where "guarded_attempt v x k r b p s = (Inr (r', res), s1)"
      by (cases "guarded_attempt v x k r b p s") auto
    from guarded_attempt_keeps [OF this] have "rr_run_id r' = rr_run_id r" "plan_given r' = plan_given r"
      by (simp_all add: plan_given_def)
    ultimately show "same_work (s\<lparr>api_world := snd (run_attempt_of v x r b p (api_world s))\<rparr>) runs (keeps (Some r))
        (case y of (r', res) \<Rightarrow> bindC (api_save (r'\<lparr>rr_chain_execution_result := Some res, rr_state := ''EXECUTE_CHAIN''\<rparr>))
          (\<lambda>_. ret (Respond res)))"
      by (auto intro!: work_save)
  qed (use guarded_attempt_local in \<open>simp_all\<close>)
  have route: "same_work s runs (keeps (Some r)) (case identity_error k r q of Some msg \<Rightarrow> ret (identity_mismatch msg)
       | None \<Rightarrow> f (bind_identity k r q))"
    if "\<And>b. same_work s runs (keeps (Some r)) (f b)" for r f
    using that by (auto simp: identity_mismatch_def split: option.split intro!: work_ret)
  show ?thesis unfolding execute_chain_def Let_def
    using assms by (intro work_record route) (auto intro!: work_rules attempt)
qed

lemma verify_run_work:
  "repo_get runs k = repo_get (api_runs s) k
    \<Longrightarrow> same_work s runs (keeps (repo_get (api_runs s) k)) (verify_run k p l)"
  unfolding verify_run_def Let_def by (auto intro!: work_record work_save)

lemma pr_work:
  "repo_get runs k = repo_get (api_runs s) k
    \<Longrightarrow> same_work s runs (keeps (repo_get (api_runs s) k)) (create_or_update_pr k url why)"
  unfolding create_or_update_pr_def Let_def by (auto intro!: work_record work_save work_ret)

lemma plan_chain_work:
  "repo_get runs k = repo_get (api_runs s) k
    \<Longrightarrow> same_work s runs (keeps (repo_get (api_runs s) k)) (plan_chain k q)"
  unfolding plan_chain_def by (auto intro!: work_record work_save simp: plan_given_chain_plan)

lemma reading_work:
  assumes "repo_get runs k = repo_get (api_runs s) k"
  shows "same_work s runs (\<lambda>y x. x = None) (get_run k)" "same_work s runs (\<lambda>y x. x = None) (get_run_state k)"
    "same_work s runs (\<lambda>y x. x = None) (get_chain_results k)" "same_work s runs (\<lambda>y x. x = None) (get_run_attempts k)"
    "same_work s runs (\<lambda>y x. x = None) (run_llm_invocations k)"
  using assms
  by (auto simp: get_run_def get_run_state_def get_chain_results_def get_run_attempts_def run_llm_invocations_def
      intro!: work_with_run work_ret)

lemma create_run_work:
  "same_work s runs (\<lambda>y x. case x of None \<Rightarrow> \<forall>b. y \<noteq> Inr (Respond b)
     | Some r \<Rightarrow> plan_given r \<and> (\<exists>b. y = Inr (Respond b) \<and> cr_run_id b = rr_run_id r)) (create_run uuid m)"
proof (cases "passed (manifest_gate m)")
  case False
  then show ?thesis by (auto simp: create_run_def Let_def intro!: work_ret)
next
  case True
  let ?n = "api_uuids s"
  let ?k = "if m_run_id m \<noteq> [] then m_run_id m else ''run-'' @ take 12 (uuid ?n)"
  show ?thesis unfolding same_work_def
    using True
    by (intro exI [of _ "Inr (Respond \<lparr>cr_run_id = ?k, cr_state = ''INTAKE'', cr_manifest_gate = manifest_gate m\<rparr>)"]
          exI [of _ "api_world s"] exI [of _ "if m_run_id m \<noteq> [] then ?n else Suc ?n"] exI [of _ "Some (new_run_record ?k m)"])
       (auto simp: create_run_def Let_def comp_defs fresh_run_id_def did_def stored_def plan_given_def repo_add_def
         repo_save_def new_run_record_def)
qed

text \<open>The work of a request, over all routes.\<close>

definition request_did :: "server \<Rightarrow> http_request \<Rightarrow> reply \<Rightarrow> run_record option \<Rightarrow> bool" where
  "request_did s q a x \<longleftrightarrow> (\<forall>r'. x = Some r' \<longrightarrow> accepted a \<and> writing q \<and> target q a = Some (rr_run_id r')
     \<and> (pred_option plan_given (repo_get (api_runs s) (rr_run_id r')) \<longrightarrow> plan_given r'))"

lemma run_route_work:
  assumes "same_work s runs P f" and "\<And>b x. P (Inr (Respond b)) x \<Longrightarrow> Q (Answer status (wrap b)) x"
    and "\<And>n j x. P (Inr (HttpError n j)) x \<Longrightarrow> Q (Refusal n j) x" and "\<And>e x. P (Inl e) x \<Longrightarrow> Q Server_Error x"
  shows "same_work s runs Q (run_route status wrap f)"
proof -
  obtain y w n x where y: "P y x" "f s = (y, did s w n x)"
    "f (s\<lparr>api_runs := runs\<rparr>) = (y, did (s\<lparr>api_runs := runs\<rparr>) w n x)" using assms(1) by (auto simp: same_work_def)
  let ?a = "case y of Inl e \<Rightarrow> Server_Error | Inr (Respond b) \<Rightarrow> Answer status (wrap b) | Inr (HttpError n j) \<Rightarrow> Refusal n j"
  have "Q ?a x" using y(1) assms(2-4) by (auto split: sum.split response.split)
  then show ?thesis unfolding same_work_def using y(2,3)
    by (intro exI [of _ ?a] exI [of _ w] exI [of _ n] exI [of _ x])
       (auto simp: run_route_def split: sum.split response.split)
qed

lemma record_route_work:
  fixes f :: "'a route"
  assumes "same_work s runs (keeps (repo_get (api_runs s) k)) f" and "repo_wf (api_runs s)"
    and "writing q" and "\<And>a. target q a = Some k"
  shows "same_work s runs (request_did s q) (run_route status wrap f)"
proof (rule run_route_work [OF assms(1)])
  fix b :: 'a and x assume "keeps (repo_get (api_runs s) k) (Inr (Respond b)) x"
  then show "request_did s q (Answer status (wrap b)) x"
    using assms(2-4) repo_wf_get by (fastforce simp: keeps_def request_did_def)
qed (auto simp: keeps_def request_did_def)

lemma reading_route_work:
  "same_work s runs (\<lambda>y x. x = None) f \<Longrightarrow> same_work s runs (request_did s q) (run_route status wrap f)"
  by (erule run_route_work) (auto simp: request_did_def)

lemma request_work:
  assumes "repo_wf (api_runs s)" and "q \<noteq> Get_Runs"
    and same: "\<And>k. names_run q = Some k \<Longrightarrow> repo_get runs k = repo_get (api_runs s) k"
  shows "same_work s runs (request_did s q) (app_request v uuid q)"
proof (cases q)
  case (Post_Run m)
  have "same_work s runs (request_did s q) (run_route 201 Created_Run (create_run uuid m))"
    by (rule run_route_work [OF create_run_work])
       (auto simp: request_did_def Post_Run split: option.splits)
  then show ?thesis by (simp add: Post_Run)
next
  case (Post_Verify k b)
  then show ?thesis using assms by (auto intro!: record_route_work verify_run_work)
next
  case (Post_Pr k b)
  then show ?thesis using assms by (auto intro!: record_route_work pr_work)
next
  case (Post_Plan k b)
  then show ?thesis using assms by (auto intro!: record_route_work plan_chain_work)
next
  case (Post_Execute k b)
  then show ?thesis using assms by (auto intro!: record_route_work execute_chain_work)
qed (use assms in \<open>auto intro!: reading_route_work reading_work work_ret\<close>)

lemma list_runs_answer:
  "app_request v uuid Get_Runs s = (Answer 200 (Run_States (map (\<lambda>r. (rr_run_id r, rr_state r)) (repo_list (api_runs s)))), s)"
  by (simp add: run_route_def list_runs_def comp_defs)

section \<open>Requests over the in-memory registry\<close>

lemma app_request_step:
  assumes "app_request v uuid q s = (a, s')"
  shows "s' = s \<or> api_step v uuid s s'"
proof -
  have "s' = snd (app_request v uuid q s)" using assms by simp
  have route: "\<exists>y. f s = (y, s')" if "run_route n wrap f s = (a, s')" for n wrap and f :: "'x route"
    using that by (cases "f s") (auto simp: run_route_def split: sum.splits response.splits)
  show ?thesis
  proof (cases "writing q")
    case True
    then show ?thesis using assms by (cases q) (auto dest!: route intro: api_step.intros)
  next
    case False
    then show ?thesis using assms
      by (cases q)
         (auto dest!: route simp: ret_def list_runs_def comp_defs get_run_def get_run_state_def get_chain_results_def
           get_run_attempts_def run_llm_invocations_def with_run_def split: option.splits)
  qed
qed

lemma app_request_ok:
  assumes "app_request v uuid q s = (a, s')" and "server_ok s"
  shows "server_ok s'"
  using app_request_step [OF assms(1)] api_step_ok assms(2) by blast

lemma app_request_served:
  assumes "app_request v uuid q s = (a, s')" and "served v uuid s"
  shows "served v uuid s'"
  using app_request_step [OF assms(1)] assms(2) unfolding served_def by (meson rtranclp.rtrancl_into_rtrancl)

section \<open>The store behind the routes\<close>

text \<open>
  With the in-memory registry a route works on the stored records themselves.  The durable store
  hands it a copy of the record it looks up (of all records, where it lists them), and the route
  gives back the record it changed (writing one back as it was read would leave the database as it
  is); a failure of the store is an exception.
\<close>

definition copy_of :: "models \<Rightarrow> http_request \<Rightarrow> repository \<Rightarrow> repo_error + run_repository" where
  "copy_of md q repo =
     (if q = Get_Runs
      then (case fst (repo_call md List_Runs repo) of
          Inr (Runs rs) \<Rightarrow> Inr (map (\<lambda>r. (rr_run_id r, r)) rs) | Inr _ \<Rightarrow> Inr [] | Inl e \<Rightarrow> Inl e)
      else (case names_run q of
          None \<Rightarrow> Inr []
        | Some k \<Rightarrow> (case fst (repo_call md (Get_Run k) repo) of
            Inr (Found (Some r)) \<Rightarrow> Inr [(k, r)] | Inr _ \<Rightarrow> Inr [] | Inl e \<Rightarrow> Inl e)))"

definition changed :: "run_repository \<Rightarrow> run_repository \<Rightarrow> run_record option" where
  "changed old new = map_option snd (find (\<lambda>(k, r). repo_get old k \<noteq> Some r) new)"

fun serve ::
    "models \<Rightarrow> env \<Rightarrow> (nat \<Rightarrow> string) \<Rightarrow> http_request \<Rightarrow> repository \<times> server
     \<Rightarrow> reply \<times> repository \<times> server" where
  "serve md v uuid q (In_Memory runs, s) =
     (case app_request v uuid q (s\<lparr>api_runs := runs\<rparr>) of
        (a, s') \<Rightarrow> (a, In_Memory (api_runs s'), s'\<lparr>api_runs := []\<rparr>))"
| "serve md v uuid q (Postgres db, s) =
     (case copy_of md q (Postgres db) of
        Inl e \<Rightarrow> (Server_Error, Postgres db, s)
      | Inr runs \<Rightarrow>
        (case app_request v uuid q (s\<lparr>api_runs := runs\<rparr>) of
           (a, s') \<Rightarrow>
             (case changed runs (api_runs s') of
                None \<Rightarrow> (a, Postgres db, s'\<lparr>api_runs := []\<rparr>)
              | Some r \<Rightarrow>
                (case repo_call md (Save_Run r) (Postgres db) of
                   (Inl e, repo) \<Rightarrow> (Server_Error, repo, s'\<lparr>api_runs := []\<rparr>)
                 | (Inr _, repo) \<Rightarrow> (a, repo, s'\<lparr>api_runs := []\<rparr>)))))"

record application =
  ap_store :: store_module
  ap_server :: server

definition handle_request ::
    "models \<Rightarrow> env \<Rightarrow> (nat \<Rightarrow> string) \<Rightarrow> http_request \<Rightarrow> application \<Rightarrow> reply \<times> application" where
  "handle_request md v uuid q app =
     (case serve md v uuid q (get_repository (ap_store app), ap_server app) of
        (a, repo, s) \<Rightarrow> (a, \<lparr>ap_store = replace_active repo (ap_store app), ap_server = s\<rparr>))"

primrec answers ::
    "models \<Rightarrow> env \<Rightarrow> (nat \<Rightarrow> string) \<Rightarrow> http_request list \<Rightarrow> application \<Rightarrow> reply list" where
  "answers md v uuid [] app = []"
| "answers md v uuid (q # qs) app =
     fst (handle_request md v uuid q app) # answers md v uuid qs (snd (handle_request md v uuid q app))"

text \<open>\<open>lifespan\<close>: the application starts by binding its store, and does not start where that raises.\<close>

definition lifespan ::
    "(string \<Rightarrow> database res) \<Rightarrow> string option \<Rightarrow> server \<Rightarrow> application res" where
  "lifespan open_db dsn s =
     (case configure_from_env open_db dsn imported_store of
        (Inl e, m) \<Rightarrow> Inl e
      | (Inr _, m) \<Rightarrow> Inr \<lparr>ap_store = m, ap_server = s\<lparr>api_runs := []\<rparr>\<rparr>)"

section \<open>The record a route changed\<close>

lemma dict_set_same: "map_of d k = Some v \<Longrightarrow> distinct (map fst d) \<Longrightarrow> dict_set k v d = d"
  by (induction k v d rule: dict_set.induct) (auto split: if_splits)

lemma changed_none: "distinct (map fst runs) \<Longrightarrow> changed runs runs = None"
  by (auto simp: changed_def repo_get_def find_None_iff)

lemma changed_stored:
  assumes "distinct (map fst runs)"
  shows "changed runs (repo_save r runs)
    = (if repo_get runs (rr_run_id r) = Some r then None else Some r)"
proof (cases "repo_get runs (rr_run_id r) = Some r")
  case True
  then have "repo_save r runs = runs" using assms by (simp add: repo_get_def repo_save_def dict_set_same)
  then show ?thesis using True changed_none [OF assms] by simp
next
  case False
  have "find (\<lambda>(k, x). map_of runs k \<noteq> Some x) (dict_set i r d) = Some (i, r)"
    if "\<And>k x. (k, x) \<in> set d \<Longrightarrow> k \<noteq> i \<Longrightarrow> map_of runs k = Some x" "map_of runs i \<noteq> Some r" "distinct (map fst d)" for i d
    using that by (induction i r d rule: dict_set.induct) (force split: if_splits)+
  then have "find (\<lambda>(k, x). map_of runs k \<noteq> Some x) (dict_set (rr_run_id r) r runs) = Some (rr_run_id r, r)"
    using False assms by (simp add: repo_get_def)
  then show ?thesis using False by (simp add: changed_def repo_save_def repo_get_def)
qed

section \<open>What a reread record hides\<close>

text \<open>
  The durable store hands a route the record as it is read back, without the list of evidence artifacts
  in its chain result.  No route looks at that list in a stored record, and no reply shows it: over
  reread runs a route answers the same and leaves the same runs, up to another reading.
\<close>

definition reread_server :: "server \<Rightarrow> server" where
  "reread_server s = s\<lparr>api_runs := reread_runs (api_runs s)\<rparr>"

lemma reread_server_sel [simp]:
  "api_world (reread_server s) = api_world s" "api_settings (reread_server s) = api_settings s"
  "api_uuids (reread_server s) = api_uuids s" "api_runs (reread_server s) = reread_runs (api_runs s)"
  by (simp_all add: reread_server_def)

lemma reread_server_update [simp]:
  "reread_server (s\<lparr>api_world := w\<rparr>) = (reread_server s)\<lparr>api_world := w\<rparr>"
  "reread_server (s\<lparr>api_uuids := n\<rparr>) = (reread_server s)\<lparr>api_uuids := n\<rparr>"
  "reread_server (s\<lparr>api_runs := runs\<rparr>) = s\<lparr>api_runs := reread_runs runs\<rparr>"
  by (simp_all add: reread_server_def)

lemma reread_runs_idem [simp]: "reread_runs (reread_runs runs) = reread_runs runs"
  by (induction runs) (auto simp: reread_runs_def)

definition blind :: "(server \<Rightarrow> 'a \<times> server) \<Rightarrow> (server \<Rightarrow> 'a \<times> server) \<Rightarrow> server \<Rightarrow> bool" where
  "blind f g s \<longleftrightarrow> fst (g (reread_server s)) = fst (f s)
     \<and> reread_server (snd (g (reread_server s))) = reread_server (snd (f s))"

named_theorems blind_rules \<open>what the parts of a route do on reread runs\<close>

lemma reread_server_idem [simp]: "reread_server (reread_server s) = reread_server s"
  by (simp add: reread_server_def)

lemma blind_ret [blind_rules]: "blind (ret x) (ret x) s"
  by (simp add: blind_def ret_def)

lemma blind_getC [blind_rules]:
  "g (reread_server s) = g s \<Longrightarrow> blind (h (g s)) (h' (g s)) s \<Longrightarrow> blind (bindC (getC g) h) (bindC (getC g) h') s"
  by (simp add: blind_def bindC_getC)

lemma blind_liftC [blind_rules]:
  "(\<And>y. x = Inr y \<Longrightarrow> blind (h y) (h' y) s) \<Longrightarrow> blind (bindC (liftC x) h) (bindC (liftC x) h') s"
  by (cases x) (simp_all add: blind_def bindC_liftC)

lemma blind_if [blind_rules]:
  "(b \<Longrightarrow> blind f g s) \<Longrightarrow> (\<not> b \<Longrightarrow> blind f' g' s) \<Longrightarrow> blind (if b then f else f') (if b then g else g') s"
  by simp

lemma blind_save [blind_rules]:
  assumes "reread r' = reread r"
  shows "blind (bindC (api_save r) (\<lambda>_. ret a)) (bindC (api_save r') (\<lambda>_. ret a)) s"
proof -
  have "rr_run_id (reread r') = rr_run_id (reread r)" by (simp only: assms)
  then show ?thesis using assms
    by (simp add: blind_def comp_defs api_save_def reread_runs_save)
qed

lemma blind_with_run [blind_rules]:
  assumes "\<And>r. repo_get (api_runs s) k = Some r \<Longrightarrow> blind (f r) (f (reread r)) s"
  shows "blind (with_run k f) (with_run k f) s"
proof (cases "repo_get (api_runs s) k")
  case None
  then show ?thesis by (simp add: blind_def with_run_def bindC_getC reread_runs_get ret_def)
next
  case (Some r)
  then show ?thesis using assms by (simp add: blind_def with_run_def bindC_getC reread_runs_get)
qed

lemma reread_update:
  "reread (reread r\<lparr>rr_verifier_report := p, rr_state := st\<rparr>) = reread (r\<lparr>rr_verifier_report := p, rr_state := st\<rparr>)"
  "reread (reread r\<lparr>rr_state := st\<rparr>) = reread (r\<lparr>rr_state := st\<rparr>)"
  "reread (reread r\<lparr>rr_chain_result := c\<rparr>) = reread (r\<lparr>rr_chain_result := c\<rparr>)"
  "reread (reread r\<lparr>rr_chain_execution_result := x, rr_state := st\<rparr>) = reread (r\<lparr>rr_chain_execution_result := x, rr_state := st\<rparr>)"
  "reread (r\<lparr>rr_attempts := as, rr_artifacts := bs\<rparr>) = reread r\<lparr>rr_attempts := as, rr_artifacts := bs\<rparr>"
  by (simp_all add: reread_def option.map_comp comp_def)

lemma reread_decision [simp]:
  "decision_of (reread r) = decision_of r" "effective_decision (reread r) p l = effective_decision r p l"
  "verify_evidence (reread r) p l = verify_evidence r p l" "identity_error k (reread r) q = identity_error k r q"
  "bind_identity k (reread r) q = bind_identity k r q"
  by (simp_all add: decision_of_def effective_decision_def verify_evidence_def identity_error_def bind_identity_def)

text \<open>An attempt on the reread record is the reread attempt.\<close>

lemma allocate_reread: "allocate v ws (reread r) p = allocate v ws r p"
  by (simp add: allocate_def)

lemma attempt_reread:
  "run_attempt_of v x (reread r) q p w
     = map_prod (map_sum id (map_prod reread id)) id (run_attempt_of v x r q p w)"
proof -
  have "bindC m (\<lambda>y. ret (f (g y))) w = map_prod (map_sum id f) id (bindC m (\<lambda>y. ret (g y)) w)"
    for f g and m :: "(world, 'z) comp" and w
    by (simp add: comp_defs split: prod.split sum.split)
  note final = this
  have "bindC m h' w = map_prod (map_sum id f) id (bindC m h w)"
    if "\<And>y w. h' y w = map_prod (map_sum id f) id (h y w)" for f h h' and m :: "(world, 'z) comp" and w
    using that by (simp add: bindC_def split: prod.split sum.split)
  note outer = this
  show ?thesis unfolding run_attempt_of_def Let_def allocate_reread reread_sel
    by (rule outer, rule outer) (simp add: ret_def reread_update)
qed

lemma guarded_reread:
  "guarded_attempt v x k (reread r) q p (reread_server s)
     = map_prod (map_sum id (map_prod reread id)) reread_server (guarded_attempt v x k r q p s)"
  by (cases "run_attempt_of v x r q p (api_world s)")
     (auto simp: guarded_attempt_def on_server_world_def comp_defs attempt_reread split: sum.split exn.split)

lemma blind_attempt:
  "blind (bindC (guarded_attempt v x k r q p) (\<lambda>(r', res).
       bindC (api_save (r'\<lparr>rr_chain_execution_result := Some res, rr_state := ''EXECUTE_CHAIN''\<rparr>)) (\<lambda>_. ret (Respond res))))
     (bindC (guarded_attempt v x k (reread r) q p) (\<lambda>(r', res).
       bindC (api_save (r'\<lparr>rr_chain_execution_result := Some res, rr_state := ''EXECUTE_CHAIN''\<rparr>)) (\<lambda>_. ret (Respond res)))) s"
proof (cases "guarded_attempt v x k r q p s")
  case (Pair y t)
  show ?thesis
  proof (cases y)
    case (Inl e)
    then show ?thesis using Pair by (simp add: blind_def bindC_def guarded_reread)
  next
    case (Inr z)
    obtain r' res where z: "z = (r', res)" by force
    let ?save = "\<lambda>r. bindC (api_save (r\<lparr>rr_chain_execution_result := Some res, rr_state := ''EXECUTE_CHAIN''\<rparr>))
      (\<lambda>_. ret (Respond res))"
    have "blind (?save r') (?save (reread r')) t" by (rule blind_save) (rule reread_update)
    then show ?thesis using Pair Inr z by (simp add: blind_def bindC_def guarded_reread)
  qed
qed

lemma execute_chain_blind: "blind (execute_chain v k q path) (execute_chain v k q path) s"
  unfolding execute_chain_def Let_def
  by (rule blind_with_run) (auto simp: identity_mismatch_def split: option.split intro!: blind_rules blind_attempt)

lemma verify_run_blind: "blind (verify_run k p l) (verify_run k p l) s"
  unfolding verify_run_def Let_def by (rule blind_with_run) (auto intro!: blind_save reread_update)

lemma pr_blind: "blind (create_or_update_pr k url why) (create_or_update_pr k url why) s"
  unfolding create_or_update_pr_def Let_def
  by (rule blind_with_run) (auto intro!: blind_rules reread_update)

lemma plan_chain_blind: "blind (plan_chain k q) (plan_chain k q) s"
  unfolding plan_chain_def by (rule blind_with_run) (auto intro!: blind_save reread_update)

lemma create_run_blind: "blind (create_run uuid m) (create_run uuid m) s"
  by (auto simp: create_run_def fresh_run_id_def blind_def comp_defs Let_def repo_add_def reread_runs_save [unfolded repo_save_def])

lemma reading_blind:
  "blind (get_run k) (get_run k) s" "blind (get_run_state k) (get_run_state k) s"
  "blind (get_run_attempts k) (get_run_attempts k) s" "blind (run_llm_invocations k) (run_llm_invocations k) s"
  by (auto simp: get_run_def get_run_state_def get_run_attempts_def run_llm_invocations_def intro!: blind_with_run
      intro: blind_ret)

lemma run_route_blind:
  assumes "blind f g s"
  shows "blind (run_route n wrap f) (run_route n wrap g) s"
  using assms
  by (cases "f s"; cases "g (reread_server s)")
     (auto simp: blind_def run_route_def split: sum.split response.split)

lemma results_blind:
  assumes "list_all plan_given (repo_list (api_runs s))"
  shows "blind (run_route n results_body (get_chain_results k)) (run_route n results_body (get_chain_results k)) s"
proof (cases "repo_get (api_runs s) k")
  case None
  then show ?thesis
    by (simp add: blind_def run_route_def get_chain_results_def with_run_def bindC_getC reread_runs_get ret_def not_found_def)
next
  case (Some r)
  have "plan_given r"
    using assms Some by (force simp: repo_get_def repo_list_def list_all_iff dest: map_of_SomeD)
  then show ?thesis using Some
    by (auto simp: blind_def run_route_def get_chain_results_def with_run_def bindC_getC reread_runs_get ret_def
        plan_given_def split: option.split)
qed

lemma request_blind:
  assumes "list_all plan_given (repo_list (api_runs s))"
  shows "blind (app_request v uuid q) (app_request v uuid q) s"
proof (cases q)
  case Get_Runs
  then show ?thesis
    by (simp add: blind_def run_route_def list_runs_def comp_defs reread_runs_list)
next
  case (Get_Results k)
  then show ?thesis using results_blind [OF assms] by (simp add: blind_def)
qed (auto simp: blind_def [of "app_request v uuid q"] blind_def [symmetric]
    intro!: run_route_blind blind_ret reading_blind execute_chain_blind verify_run_blind pr_blind plan_chain_blind create_run_blind)

section \<open>The stores agree\<close>

text \<open>
  \<open>s\<close> is the server over the registry; the durable one has the same world and a database that
  shows the same runs as they are read back.
\<close>

definition alike :: "server \<Rightarrow> application \<Rightarrow> application \<Rightarrow> bool" where
  "alike s m n \<longleftrightarrow> server_ok s \<and> list_all plan_given (repo_list (api_runs s))
   \<and> m = \<lparr>ap_store = \<lparr>sm_registry = api_runs s, sm_active = The_Registry\<rparr>, ap_server = s\<lparr>api_runs := []\<rparr>\<rparr>
   \<and> (\<exists>db. sm_active (ap_store n) = Bound (Postgres db) \<and> pg_wf db
        \<and> shows_runs schema_models db (reread_runs (api_runs s)) \<and> ap_server n = s\<lparr>api_runs := []\<rparr>)"

lemma plan_given_stored:
  assumes "list_all plan_given (repo_list runs)" and "\<And>r. x = Some r \<Longrightarrow> plan_given r"
  shows "list_all plan_given (repo_list (stored x runs))"
proof (cases x)
  case (Some r)
  have "list_all (\<lambda>p. plan_given (snd p)) (dict_set (rr_run_id r) r runs)"
    using assms Some by (intro dict_set_all) (auto simp: repo_list_def list_all_iff)
  then show ?thesis using Some by (simp add: stored_def repo_list_def repo_save_def list.pred_map comp_def)
qed (use assms in \<open>simp add: stored_def\<close>)

text \<open>What the copy of a request shows of the runs.\<close>

lemma copy_shows:
  assumes "pg_wf db" and "shows_runs schema_models db runs" and "repo_wf runs"
  shows "q = Get_Runs \<Longrightarrow> copy_of schema_models q (Postgres db) = Inr runs"
    and "q \<noteq> Get_Runs \<Longrightarrow> \<exists>copy. copy_of schema_models q (Postgres db) = Inr copy \<and> distinct (map fst copy)
       \<and> (\<forall>k. names_run q = Some k \<longrightarrow> repo_get copy k = repo_get runs k)
       \<and> (\<forall>k r. repo_get copy k = Some r \<longrightarrow> repo_get runs k = Some r)"
proof -
  have "\<exists>db'. Postgres db = Postgres db' \<and> pg_wf db' \<and> shows_runs schema_models db' runs" using assms(1,2) by blast
  note port = postgres.finds [OF this] postgres.lists [OF this]
  have "map (\<lambda>r. (rr_run_id r, r)) (map snd runs) = runs"
    using assms(3) by (auto simp: repo_wf_def list_all_iff intro!: map_idI)
  then show "copy_of schema_models q (Postgres db) = Inr runs" if "q = Get_Runs"
    using that by (simp add: copy_of_def port repo_list_def del: repo_call.simps)
  show "\<exists>copy. copy_of schema_models q (Postgres db) = Inr copy \<and> distinct (map fst copy)
       \<and> (\<forall>k. names_run q = Some k \<longrightarrow> repo_get copy k = repo_get runs k)
       \<and> (\<forall>k r. repo_get copy k = Some r \<longrightarrow> repo_get runs k = Some r)" if "q \<noteq> Get_Runs"
  proof (cases "names_run q")
    case None
    then show ?thesis using that by (simp add: copy_of_def repo_get_def)
  next
    case (Some k)
    then show ?thesis using that
      by (cases "repo_get runs k") (auto simp: copy_of_def port repo_get_def simp del: repo_call.simps)
  qed
qed

text \<open>
  A request over the durable store: its reply is that of the routes on the runs the database shows, and
  afterwards the database shows the runs these leave, read again.
\<close>

lemma durable_step:
  assumes ok: "server_ok s" and db: "pg_wf db" "shows_runs schema_models db (api_runs s)"
    and read: "reread_server s = s" and run: "app_request v uuid q s = (a, s')"
  shows "\<exists>db'. serve schema_models v uuid q (Postgres db, s\<lparr>api_runs := []\<rparr>) = (a, Postgres db', s'\<lparr>api_runs := []\<rparr>)
          \<and> pg_wf db' \<and> shows_runs schema_models db' (reread_runs (api_runs s'))"
proof (cases "q = Get_Runs")
  case True
  have wf: "repo_wf (api_runs s)" using ok by (simp add: server_ok_def)
  then have "changed (api_runs s) (api_runs s) = None" by (intro changed_none) (simp add: repo_wf_def)
  moreover have "reread_runs (api_runs s) = api_runs s" using read by (metis reread_server_sel(4))
  ultimately show ?thesis using True run db copy_shows(1) [OF db wf True]
    by (auto simp: run_route_def list_runs_def comp_defs)
next
  case False
  have wf: "repo_wf (api_runs s)" using ok by (simp add: server_ok_def)
  have same: "reread_runs (api_runs s) = api_runs s" using read by (metis reread_server_sel(4))
  obtain copy where copy: "copy_of schema_models q (Postgres db) = Inr copy" "distinct (map fst copy)"
    "\<And>k. names_run q = Some k \<Longrightarrow> repo_get copy k = repo_get (api_runs s) k"
    "\<And>k r. repo_get copy k = Some r \<Longrightarrow> repo_get (api_runs s) k = Some r"
    using copy_shows(2) [OF db wf False] by blast
  have "same_work s copy (request_did s q) (app_request v uuid q)"
    using wf False copy(3) by (rule request_work)
  then obtain w n x where did: "request_did s q a x" "s' = did s w n x"
    "app_request v uuid q (s\<lparr>api_runs := copy\<rparr>) = (a, did (s\<lparr>api_runs := copy\<rparr>) w n x)"
    using run by (auto simp: same_work_def)
  have clear: "(did (s\<lparr>api_runs := copy\<rparr>) w n x)\<lparr>api_runs := []\<rparr> = s'\<lparr>api_runs := []\<rparr>"
    by (simp add: did(2) did_def)
  have runs': "api_runs s' = stored x (api_runs s)" by (simp add: did(2) did_def)
  show ?thesis
  proof (cases "changed copy (stored x copy)")
    case None
    then have "stored x (api_runs s) = api_runs s"
      using changed_stored [OF copy(2)] copy(4) wf
      by (cases x) (auto simp: stored_def repo_save_def repo_get_def repo_wf_def dict_set_same split: if_splits)
    then show ?thesis using None db did(3) copy(1) clear same
      by (simp add: runs' did_def)
  next
    case (Some r)
    then have x: "x = Some r" using changed_stored [OF copy(2)] changed_none [OF copy(2)]
      by (cases x) (auto simp: stored_def split: if_splits)
    then have "repo_get (api_runs s') (rr_run_id r) = Some r" by (simp add: runs' stored_def repo_save_def repo_get_def)
    then have "record_ok r" using server_ok_get(1) app_request_ok [OF run ok] by blast
    then have "storable r" by (simp add: storable_def record_ok_def)
    from pg_save_agrees [OF db this] obtain db' where
      "pg_save schema_models r db = Inr db'" "pg_wf db'"
      "shows_runs schema_models db' (repo_save (reread r) (api_runs s))" by blast
    then show ?thesis using Some did(3) copy(1) clear same
      by (simp add: runs' x stored_def did_def pg_store_def reread_runs_save)
  qed
qed

lemma server_ok_reread: "server_ok s \<Longrightarrow> server_ok (reread_server s)"
  by (auto simp: server_ok_def repo_wf_def reread_runs_list reread_runs_keys list_all_iff)
     (auto simp: reread_runs_def)

lemma plan_given_request:
  assumes "server_ok s" and "list_all plan_given (repo_list (api_runs s))" and "app_request v uuid q s = (a, s')"
  shows "list_all plan_given (repo_list (api_runs s'))"
proof (cases "q = Get_Runs")
  case True
  then show ?thesis using assms(2,3) list_runs_answer by simp
next
  case False
  have "same_work s (api_runs s) (request_did s q) (app_request v uuid q)"
    by (rule request_work) (use assms(1) False in \<open>simp_all add: server_ok_def\<close>)
  then obtain x where did: "request_did s q a x" "api_runs s' = stored x (api_runs s)"
    using assms(3) by (auto simp: same_work_def did_def)
  have "plan_given r" if "x = Some r" for r
  proof -
    have "pred_option plan_given (repo_get (api_runs s) (rr_run_id r))"
      using assms(2) by (force simp: option.pred_set repo_get_def repo_list_def list_all_iff dest: map_of_SomeD)
    then show ?thesis using did(1) that by (simp add: request_did_def)
  qed
  with assms(2) show ?thesis unfolding did(2) by (rule plan_given_stored)
qed

lemma handle_request_alike:
  assumes "alike s m n" and run: "app_request v uuid q s = (a, s')"
  shows "\<exists>m' n'. handle_request schema_models v uuid q m = (a, m')
    \<and> handle_request schema_models v uuid q n = (a, n') \<and> alike s' m' n'"
proof -
  obtain db where m: "m = \<lparr>ap_store = \<lparr>sm_registry = api_runs s, sm_active = The_Registry\<rparr>, ap_server = s\<lparr>api_runs := []\<rparr>\<rparr>"
    and n: "sm_active (ap_store n) = Bound (Postgres db)" "ap_server n = s\<lparr>api_runs := []\<rparr>"
    and db: "pg_wf db" "shows_runs schema_models db (api_runs (reread_server s))"
    and s: "server_ok s" "list_all plan_given (repo_list (api_runs s))"
    using assms(1) by (auto simp: alike_def)
  obtain s2 where s2: "app_request v uuid q (reread_server s) = (a, s2)" "reread_server s2 = reread_server s'"
    using request_blind [OF s(2), of v uuid q] run
    by (cases "app_request v uuid q (reread_server s)") (simp add: blind_def)
  have rest: "(reread_server s)\<lparr>api_runs := []\<rparr> = s\<lparr>api_runs := []\<rparr>" by (simp add: reread_server_def)
  obtain db' where db': "serve schema_models v uuid q (Postgres db, s\<lparr>api_runs := []\<rparr>) = (a, Postgres db', s2\<lparr>api_runs := []\<rparr>)"
    "pg_wf db'" "shows_runs schema_models db' (reread_runs (api_runs s2))"
    using durable_step [OF server_ok_reread [OF s(1)] db reread_server_idem s2(1)] unfolding rest by blast
  have "s2\<lparr>api_runs := []\<rparr> = s'\<lparr>api_runs := []\<rparr>" "reread_runs (api_runs s2) = reread_runs (api_runs s')"
    using arg_cong [OF s2(2), of "\<lambda>t. t\<lparr>api_runs := []\<rparr>"] arg_cong [OF s2(2), of api_runs]
    by (simp_all add: reread_server_def)
  moreover have "server_ok s'" using app_request_ok [OF run s(1)] .
  moreover have "list_all plan_given (repo_list (api_runs s'))" using s run by (rule plan_given_request)
  ultimately show ?thesis using db' n run
    by (simp add: handle_request_def get_repository_def replace_active_def m alike_def)
qed

lemma answers_alike:
  assumes "alike s m n"
  shows "answers schema_models v uuid qs n = answers schema_models v uuid qs m"
  using assms
proof (induction qs arbitrary: s m n)
  case (Cons q qs)
  obtain a s' where run: "app_request v uuid q s = (a, s')" by force
  from handle_request_alike [OF Cons.prems run] obtain m' n' where
    "handle_request schema_models v uuid q m = (a, m')" "handle_request schema_models v uuid q n = (a, n')"
    "alike s' m' n'" by blast
  then show ?case using Cons.IH [of s' m' n'] by simp
qed simp

lemma lifespan_alike:
  assumes "dsn \<noteq> []" and "open_db dsn = Inr empty_database" and "api_runs s = []"
  shows "\<exists>m n. lifespan open_db None s = Inr m \<and> lifespan open_db (Some dsn) s = Inr n \<and> alike s m n"
proof -
  have "s\<lparr>api_runs := []\<rparr> = s" using assms(3) by simp
  with assms show ?thesis
    by (simp add: lifespan_def configure_from_env_def imported_store_def reset_repository_def set_repository_def
        alike_def server_ok_def repo_wf_def repo_list_def pg_wf_def shows_runs_def empty_database_def reread_runs_def)
qed

section \<open>Properties\<close>

text \<open>
  C15: whichever store the environment binds, the application answers the same: over any sequence
  of HTTP requests, executions and failing requests included, an application started on a database
  without tables gives request for request the replies it would give with the in-memory registry.  The
  models are printed and read as the schemas declare them, so the stored records differ, the durable
  ones without the evidence list of their chain result, but no reply does.
\<close>

theorem stores_answer_alike:
  assumes "dsn \<noteq> []" and "connect dsn = Inr None" and "api_runs s = []"
  shows "\<exists>m n. lifespan (open_postgres True connect) None s = Inr m
    \<and> lifespan (open_postgres True connect) (Some dsn) s = Inr n
    \<and> answers schema_models v uuid qs n = answers schema_models v uuid qs m"
proof -
  have "open_postgres True connect dsn = Inr empty_database"
    using assms(2) by (simp add: open_postgres_def require_psycopg_def apply_schema_def)
  then show ?thesis
    using lifespan_alike [of dsn "open_postgres True connect" s] assms(1,3) answers_alike by blast
qed

text \<open>A run is registered, executed, looked at and verified.\<close>

lemma sample_execution_answer:
  "\<exists>x. answers schema_models quiet_env (\<lambda>_. [])
      (Post_Run sample_manifest # Post_Execute ''r1'' \<lparr>eq_request = task_request ''a'', eq_execution_path = []\<rparr> # qs)
      \<lparr>ap_store = imported_store, ap_server = start_server\<rparr> ! 1 = Answer 200 (Executed x) \<and> r_task_id x = ''a''"
proof -
  let ?s = "start_server\<lparr>api_runs := [(''r1'', new_run_record ''r1'' sample_manifest)]\<rparr>"
  obtain y where y: "create_run (\<lambda>_. []) sample_manifest start_server = (y, ?s)" using sample_created by blast
  obtain x s' where x: "execute_chain quiet_env ''r1'' (task_request ''a'') [] ?s = (Inr (Respond x), s')" "r_task_id x = ''a''"
    using sample_executes [of "''a''"] by blast
  have none: "start_server\<lparr>api_runs := []\<rparr> = start_server" "api_runs start_server = []" by (simp_all add: start_server_def)
  have "\<exists>b. app_request quiet_env (\<lambda>_. []) (Post_Run sample_manifest) start_server = (b, ?s)"
    using y by (simp add: run_route_def split: sum.split response.split)
  then obtain b where b: "app_request quiet_env (\<lambda>_. []) (Post_Run sample_manifest) start_server = (b, ?s)" by blast
  have "app_request quiet_env (\<lambda>_. []) (Post_Execute ''r1'' \<lparr>eq_request = task_request ''a'', eq_execution_path = []\<rparr>) ?s
      = (Answer 200 (Executed (shown_result x)), s')"
    using x(1) by (simp add: run_route_def)
  then have "answers schema_models quiet_env (\<lambda>_. [])
      (Post_Run sample_manifest # Post_Execute ''r1'' \<lparr>eq_request = task_request ''a'', eq_execution_path = []\<rparr> # qs)
      \<lparr>ap_store = imported_store, ap_server = start_server\<rparr> ! 1 = Answer 200 (Executed (shown_result x))"
    by (simp add: b none(1) handle_request_def get_repository_def replace_active_def imported_store_def
        del: app_request.simps)
  then show ?thesis using x(2) by auto
qed

theorem stores_answer_alike_witness:
  "\<exists>m n x. let qs = [Post_Run sample_manifest,
         Post_Execute ''r1'' \<lparr>eq_request = task_request ''a'', eq_execution_path = []\<rparr>, Get_Results ''r1'',
         Post_Verify ''r1'' \<lparr>vq_verifier_report = sample_report, vq_evidence_ledger = new_ledger ''t1'' ''r1''\<rparr>,
         Get_Runs] in
     lifespan (open_postgres True (\<lambda>_. Inr None)) None start_server = Inr m
   \<and> lifespan (open_postgres True (\<lambda>_. Inr None)) (Some ''postgresql://db'') start_server = Inr n
   \<and> answers schema_models quiet_env (\<lambda>_. []) qs n = answers schema_models quiet_env (\<lambda>_. []) qs m
   \<and> answers schema_models quiet_env (\<lambda>_. []) qs n ! 1 = Answer 200 (Executed x) \<and> r_task_id x = ''a''"
proof -
  let ?qs = "[Get_Results ''r1'',
         Post_Verify ''r1'' \<lparr>vq_verifier_report = sample_report, vq_evidence_ledger = new_ledger ''t1'' ''r1''\<rparr>,
         Get_Runs]"
  let ?q2 = "Post_Run sample_manifest # Post_Execute ''r1'' \<lparr>eq_request = task_request ''a'', eq_execution_path = []\<rparr> # ?qs"
  have none: "api_runs start_server = []" by (simp add: start_server_def)
  then have m: "lifespan (open_postgres True (\<lambda>_. Inr None)) None start_server
      = Inr \<lparr>ap_store = imported_store, ap_server = start_server\<rparr>"
    by (simp add: lifespan_def configure_from_env_def reset_repository_def imported_store_def)
  obtain x where "answers schema_models quiet_env (\<lambda>_. []) ?q2 \<lparr>ap_store = imported_store, ap_server = start_server\<rparr> ! 1
      = Answer 200 (Executed x)" "r_task_id x = ''a''"
    using sample_execution_answer [of ?qs] by blast
  moreover obtain m' n where "lifespan (open_postgres True (\<lambda>_. Inr None)) None start_server = Inr m'"
    "lifespan (open_postgres True (\<lambda>_. Inr None)) (Some ''postgresql://db'') start_server = Inr n"
    "answers schema_models quiet_env (\<lambda>_. []) ?q2 n = answers schema_models quiet_env (\<lambda>_. []) ?q2 m'"
    using stores_answer_alike [of "''postgresql://db''" "\<lambda>_. Inr None" start_server quiet_env "\<lambda>_. []" ?q2,
      OF list.distinct(2) refl none] by blast
  moreover from this(1) m have "m' = \<lparr>ap_store = imported_store, ap_server = start_server\<rparr>" by simp
  ultimately show ?thesis unfolding Let_def by metis
qed

text \<open>
  C16: a request changes no run but its own: one that is refused or fails, and any that only reads,
  leaves all stored runs as they are; an answered one leaves every run but the one it names (or
  creates) as it was, and none is ever removed.
\<close>

theorem requests_are_isolated:
  assumes "served v uuid s" and "app_request v uuid q s = (a, s')"
  shows "served v uuid s' \<and> (\<not> accepted a \<or> \<not> writing q \<longrightarrow> api_runs s' = api_runs s)
    \<and> (\<forall>k. target q a \<noteq> Some k \<longrightarrow> repo_get (api_runs s') k = repo_get (api_runs s) k)
    \<and> prefix (map fst (api_runs s)) (map fst (api_runs s'))"
proof -
  have served: "served v uuid s'" using app_request_served [OF assms(2,1)] .
  have wf: "repo_wf (api_runs s)" using served_ok [OF assms(1)] by (simp add: server_ok_def)
  show ?thesis
  proof (cases "q = Get_Runs")
    case True
    then show ?thesis using served assms(2) list_runs_answer by simp
  next
    case False
    have "same_work s (api_runs s) (request_did s q) (app_request v uuid q)"
      using wf False by (rule request_work) simp
    then obtain x where did: "request_did s q a x" "api_runs s' = stored x (api_runs s)"
      using assms(2) by (auto simp: same_work_def did_def)
    have "prefix (map fst d) (map fst (dict_set k r d))" for k and r :: run_record and d
      by (induction k r d rule: dict_set.induct) auto
    then show ?thesis using did served
      by (cases x) (auto simp: stored_def request_did_def repo_save_def runs.get_put_other)
  qed
qed

theorem requests_are_isolated_witness:
  "\<exists>a s'. app_request quiet_env (\<lambda>_. []) (Post_Run (sample_manifest\<lparr>m_run_id := ''r2''\<rparr>))
      (start_server\<lparr>api_runs := [(''r1'', verified_record)]\<rparr>) = (a, s')
    \<and> accepted a \<and> repo_get (api_runs s') ''r1'' = Some verified_record \<and> map fst (api_runs s') = [''r1'', ''r2'']"
proof -
  let ?s = "start_server\<lparr>api_runs := [(''r1'', verified_record)]\<rparr>" and ?m = "sample_manifest\<lparr>m_run_id := ''r2''\<rparr>"
  have "passed (manifest_gate ?m)"
    by (simp add: manifest_gate_passed model_policy_passed sample_manifest_def default_manifest_def)
  moreover have "rr_run_id (new_run_record ''r2'' ?m) = ''r2''" by (simp add: new_run_record_def)
  ultimately obtain c s' where run: "app_request quiet_env (\<lambda>_. []) (Post_Run ?m) ?s = (Answer 201 (Created_Run c), s')"
    "cr_run_id c = ''r2''" "map fst (api_runs s') = [''r1'', ''r2'']"
    by (simp add: run_route_def create_run_def Let_def comp_defs repo_add_def)
  from requests_are_isolated [OF sample_served run(1)] run(2)
  have "repo_get (api_runs s') ''r1'' = repo_get (api_runs ?s) ''r1''" by simp
  with run show ?thesis by (simp add: repo_get_def)
qed

end
