(* ===== verification/Shared_Records.thy ===== *)
theory Shared_Records
  imports Application
begin

text \<open>
  Requests that overlap over the in-memory registry (\<open>storage/run_repository.py\<close>).  The registry hands
  every route the stored record itself, an object the threads share: a route looks its record up,
  reads what it decides on, and later assigns the fields of the object one by one before it puts
  the object back under its run id.  The relation below interleaves these parts over any number of
  threads, with the records on a heap and the registry mapping run ids to addresses; creating a run
  twice leaves a thread with the address of the record that was replaced.  The work of a chain on
  the files is one step here.
\<close>

section \<open>The assignments of a route\<close>

datatype assignment =
    Put_Report "verifier_report option"
  | Put_State string
  | Put_Plan "json option"
  | Put_Result "chain_result option"
  | Push_Attempt run_attempt
  | Push_Artifacts "artifact list"

fun assign :: "assignment \<Rightarrow> run_record \<Rightarrow> run_record" where
  "assign (Put_Report p) r = r\<lparr>rr_verifier_report := p\<rparr>"
| "assign (Put_State st) r = r\<lparr>rr_state := st\<rparr>"
| "assign (Put_Plan j) r = r\<lparr>rr_chain_result := j\<rparr>"
| "assign (Put_Result x) r = r\<lparr>rr_chain_execution_result := x\<rparr>"
| "assign (Push_Attempt a) r = r\<lparr>rr_attempts := rr_attempts r @ [a]\<rparr>"
| "assign (Push_Artifacts as) r = r\<lparr>rr_artifacts := rr_artifacts r @ as\<rparr>"

text \<open>
  What a route assigns, in the order of its lines: \<open>r\<close> is the record as the route found it and \<open>r'\<close>
  as it would leave it if nobody else touched it.
\<close>

fun assignments :: "http_request \<Rightarrow> run_record \<Rightarrow> run_record \<Rightarrow> assignment list" where
  "assignments (Post_Verify k b) r r' = [Put_Report (rr_verifier_report r'), Put_State (rr_state r')]"
| "assignments (Post_Pr k b) r r' = [Put_State (rr_state r')]"
| "assignments (Post_Plan k q) r r' = [Put_Plan (rr_chain_result r')]"
| "assignments (Post_Execute k b) r r' =
     map Push_Attempt (drop (length (rr_attempts r)) (rr_attempts r'))
     @ [Push_Artifacts (drop (length (rr_artifacts r)) (rr_artifacts r')),
        Put_Result (rr_chain_execution_result r'), Put_State (rr_state r')]"
| "assignments _ r r' = []"

section \<open>Threads over one heap\<close>

datatype thread = Resting | Found_At string nat | Assigning nat "assignment list"

record shared =
  sh_heap :: "run_record list"
  sh_registry :: "(string \<times> nat) list"
  sh_server :: server
  sh_threads :: "thread list"

inductive shared_step :: "env \<Rightarrow> (nat \<Rightarrow> string) \<Rightarrow> shared \<Rightarrow> shared \<Rightarrow> bool" for v uuid where
  make: "app_request v uuid (Post_Run m) ((sh_server s)\<lparr>api_runs := []\<rparr>) = (a, srv) \<Longrightarrow> accepted a \<Longrightarrow>
    repo_list (api_runs srv) = [r] \<Longrightarrow>
    shared_step v uuid s (s\<lparr>sh_server := srv\<lparr>api_runs := []\<rparr>, sh_heap := sh_heap s @ [r],
      sh_registry := dict_set (rr_run_id r) (length (sh_heap s)) (sh_registry s)\<rparr>)"
| find: "i < length (sh_threads s) \<Longrightarrow> sh_threads s ! i = Resting \<Longrightarrow> map_of (sh_registry s) k = Some l \<Longrightarrow>
    shared_step v uuid s (s\<lparr>sh_threads := (sh_threads s)[i := Found_At k l]\<rparr>)"
| decide: "i < length (sh_threads s) \<Longrightarrow> sh_threads s ! i = Found_At k l \<Longrightarrow>
    names_run q = Some k \<Longrightarrow> writing q \<Longrightarrow>
    app_request v uuid q ((sh_server s)\<lparr>api_runs := [(k, sh_heap s ! l)]\<rparr>) = (a, srv) \<Longrightarrow> accepted a \<Longrightarrow>
    repo_get (api_runs srv) k = Some r' \<Longrightarrow>
    shared_step v uuid s
      (s\<lparr>sh_server := srv\<lparr>api_runs := []\<rparr>, sh_threads := (sh_threads s)[i := Assigning l (assignments q (sh_heap s ! l) r')]\<rparr>)"
| set_field: "i < length (sh_threads s) \<Longrightarrow> sh_threads s ! i = Assigning l (w # ws) \<Longrightarrow>
    shared_step v uuid s (s\<lparr>sh_heap := (sh_heap s)[l := assign w (sh_heap s ! l)],
      sh_threads := (sh_threads s)[i := Assigning l ws]\<rparr>)"
| put_back: "i < length (sh_threads s) \<Longrightarrow> sh_threads s ! i = Assigning l [] \<Longrightarrow>
    shared_step v uuid s (s\<lparr>sh_registry := dict_set (rr_run_id (sh_heap s ! l)) l (sh_registry s),
      sh_threads := (sh_threads s)[i := Resting]\<rparr>)"
| refuse: "i < length (sh_threads s) \<Longrightarrow> sh_threads s ! i = Found_At k l \<Longrightarrow>
    shared_step v uuid s (s\<lparr>sh_threads := (sh_threads s)[i := Resting]\<rparr>)"
| elsewhere: "shared_step v uuid s
    (s\<lparr>sh_server := (sh_server s)\<lparr>api_world := w, api_settings := settings, api_uuids := n\<rparr>\<rparr>)"

definition fresh_shared :: "server \<Rightarrow> nat \<Rightarrow> shared" where
  "fresh_shared srv n =
     \<lparr>sh_heap = [], sh_registry = [], sh_server = srv, sh_threads = replicate n Resting\<rparr>"

definition shared_get :: "shared \<Rightarrow> string \<Rightarrow> run_record option" where
  "shared_get s k = map_option (\<lambda>l. sh_heap s ! l) (map_of (sh_registry s) k)"

section \<open>The assignments are the route\<close>

text \<open>Left alone, the assignments of a route make of the record it found the one it would leave.\<close>

lemma assign_all:
  "fold assign (map Push_Attempt as) r = r\<lparr>rr_attempts := rr_attempts r @ as\<rparr>"
  by (induction "as" arbitrary: r) simp_all

text \<open>What each writing route makes of the record it found.\<close>

definition reported :: "run_record \<Rightarrow> verify_request \<Rightarrow> verifier_report" where
  "reported r b = (vq_verifier_report b)
     \<lparr>vr_decision := effective_decision r (vq_verifier_report b) (vq_evidence_ledger b)\<rparr>"

definition left_by :: "string \<Rightarrow> http_request \<Rightarrow> run_record \<Rightarrow> run_record \<Rightarrow> bool" where
  "left_by k q r r' \<longleftrightarrow>
     (case q of
        Post_Verify i b \<Rightarrow> r' = r\<lparr>rr_verifier_report := Some (reported r b), rr_state := ''VERIFY''\<rparr>
      | Post_Pr i b \<Rightarrow> decision_of r = D_PASS \<and> r' = r\<lparr>rr_state := ''PR_GATE''\<rparr>
      | Post_Plan i c \<Rightarrow> r' = r\<lparr>rr_chain_result := Some (chain_plan k c)\<rparr>
      | Post_Execute i b \<Rightarrow> (\<exists>r0 x. (r0 = r \<or> attempt_added r r0 x) \<and> r' = executed_record r0 x)
      | _ \<Rightarrow> False)"

lemma route_leaves:
  assumes run: "app_request v uuid q (srv\<lparr>api_runs := [(k, r)]\<rparr>) = (a, srv')"
    and q: "names_run q = Some k" "writing q" and "accepted a" and id: "rr_run_id r = k"
    and get: "repo_get (api_runs srv') k = Some r'"
  shows "left_by k q r r'"
proof (cases q)
  case (Post_Verify i b)
  then show ?thesis using run q id get
    by (auto simp: left_by_def run_route_def verify_run_def with_run_def comp_defs repo_get_def Let_def api_save_def
        repo_save_def reported_def)
next
  case (Post_Pr i b)
  then show ?thesis using run q id get assms(4)
    by (auto simp: left_by_def run_route_def create_or_update_pr_def with_run_def comp_defs repo_get_def Let_def
        api_save_def repo_save_def split: if_splits)
next
  case (Post_Plan i c)
  then show ?thesis using run q id get
    by (auto simp: left_by_def run_route_def plan_chain_def with_run_def comp_defs repo_get_def api_save_def repo_save_def)
next
  case (Post_Execute i b)
  then obtain x where "execute_chain v k (eq_request b) (eq_execution_path b) (srv\<lparr>api_runs := [(k, r)]\<rparr>)
      = (Inr (Respond x), srv')"
    using run q assms(4) by (auto simp: run_route_def split: prod.splits sum.splits response.splits)
  from execute_chain_copy [OF this] obtain r0 where r0: "rr_run_id r0 = k" "r0 = r \<or> attempt_added r r0 x"
    "api_runs srv' = repo_save (executed_record r0 x) [(k, r)]" using id by blast
  have "rr_run_id (executed_record r0 x) = k" using r0(1) by (simp add: executed_record_def)
  then have "r' = executed_record r0 x" using get r0(3) by (simp add: repo_save_def repo_get_def)
  then show ?thesis using r0(2) by (auto simp: left_by_def Post_Execute)
qed (use q in simp_all)

lemma assignments_replay:
  assumes "left_by k q r r'"
  shows "fold assign (assignments q r r') r = r'"
proof (cases q)
  case (Post_Execute i b)
  then obtain r0 x where r0: "r0 = r \<or> attempt_added r r0 x" "r' = executed_record r0 x"
    using assms by (auto simp: left_by_def)
  from r0(1) show ?thesis
    by (elim disjE) (auto simp: Post_Execute r0(2) assign_all executed_record_def attempt_added_def)
qed (use assms in \<open>auto simp: left_by_def\<close>)

section \<open>What every interleaving keeps\<close>

text \<open>
  An attempt is named after its run and numbered at most by its place: two that were made at once
  carry one number.
\<close>

definition attempt_named :: "string \<Rightarrow> nat \<Rightarrow> run_attempt \<Rightarrow> bool" where
  "attempt_named k i a \<longleftrightarrow> (\<exists>n \<in> {1..Suc i}. at_attempt_id a = attempt_id k n \<and> at_attempt_number a = int n)"

definition shared_ok :: "run_record \<Rightarrow> bool" where
  "shared_ok r \<longleftrightarrow> passed (manifest_gate (rr_manifest r))
     \<and> (decision_of r = D_PASS \<longrightarrow> bound_pass r)
     \<and> (\<forall>i < length (rr_attempts r). attempt_named (rr_run_id r) i (rr_attempts r ! i))
     \<and> artifacts_ok r"

text \<open>An assignment that may still come, and that no other makes wrong.\<close>

fun assignable :: "assignment \<Rightarrow> run_record \<Rightarrow> bool" where
  "assignable (Put_Report p) r \<longleftrightarrow>
     (decision_of (r\<lparr>rr_verifier_report := p\<rparr>) = D_PASS \<longrightarrow> bound_pass (r\<lparr>rr_verifier_report := p\<rparr>))"
| "assignable (Push_Attempt a) r \<longleftrightarrow> attempt_named (rr_run_id r) (length (rr_attempts r)) a"
| "assignable (Push_Artifacts as) r \<longleftrightarrow>
     (\<forall>x \<in> set as. a_run_id x = rr_run_id r \<and> a_hash x \<noteq> []
        \<and> a_attempt_id x \<in> Some ` at_attempt_id ` set (rr_attempts r))"
| "assignable _ r \<longleftrightarrow> True"

fun all_assignable :: "assignment list \<Rightarrow> run_record \<Rightarrow> bool" where
  "all_assignable [] r \<longleftrightarrow> True"
| "all_assignable (w # ws) r \<longleftrightarrow> assignable w r \<and> all_assignable ws (assign w r)"

text \<open>What the assignments of other threads may do to a record, and what they leave assignable.\<close>

definition grows :: "run_record \<Rightarrow> run_record \<Rightarrow> bool" where
  "grows r r' \<longleftrightarrow> rr_run_id r' = rr_run_id r \<and> length (rr_attempts r) \<le> length (rr_attempts r')
     \<and> set (rr_attempts r) \<subseteq> set (rr_attempts r')"

lemma grows_refl [simp]: "grows r r"
  by (simp add: grows_def)

lemma assign_grows: "grows r (assign w r)"
  by (cases w) (auto simp: grows_def)

lemma grows_assign: "grows r r' \<Longrightarrow> grows (assign w r) (assign w r')"
  by (cases w) (auto simp: grows_def)

lemma attempt_named_next:
  "at_attempt_id a = attempt_id k (Suc i) \<Longrightarrow> at_attempt_number a = int (Suc i) \<Longrightarrow> attempt_named k i a"
  by (auto simp: attempt_named_def intro!: bexI [of _ "Suc i"])

lemma attempt_named_mono: "attempt_named k i a \<Longrightarrow> i \<le> j \<Longrightarrow> attempt_named k j a"
  by (force simp: attempt_named_def)

lemma assignable_grows:
  assumes "assignable w r" and "grows r r'"
  shows "assignable w r'"
proof -
  have "Some ` at_attempt_id ` set (rr_attempts r) \<subseteq> Some ` at_attempt_id ` set (rr_attempts r')"
    using assms(2) by (intro image_mono) (simp add: grows_def)
  then show ?thesis using assms
    by (cases w) (auto simp: grows_def decision_of_def bound_pass_def split: option.splits
        intro: attempt_named_mono)
qed

lemma all_assignable_grows: "all_assignable ws r \<Longrightarrow> grows r r' \<Longrightarrow> all_assignable ws r'"
  by (induction ws arbitrary: r r') (auto intro: assignable_grows grows_assign)

lemma shared_ok_assign:
  assumes "shared_ok r" and "assignable w r"
  shows "shared_ok (assign w r)"
proof (cases w)
  case (Put_Report p)
  then show ?thesis using assms by (simp add: shared_ok_def artifacts_ok_def)
next
  case (Push_Attempt a)
  then show ?thesis using assms
    by (auto simp: shared_ok_def artifacts_ok_def nth_append less_Suc_eq)
next
  case (Push_Artifacts as)
  then show ?thesis using assms by (auto simp: shared_ok_def artifacts_ok_def)
qed (use assms in \<open>auto simp: shared_ok_def artifacts_ok_def\<close>)

text \<open>What a route decides on is assignable to the record it found.\<close>

lemma reported_bound:
  assumes "vr_decision (reported r b) = D_PASS"
  shows "bound_pass (r\<lparr>rr_verifier_report := Some (reported r b)\<rparr>)"
  using assms effective_pass [of r "vq_verifier_report b" "vq_evidence_ledger b"]
  by (auto simp: reported_def bound_pass_def verify_self_cert_def verify_evidence_def
      no_self_certification_passed evidence_gate_passed ledger_linked_def)

lemma assignments_assignable:
  assumes "left_by k q r r'"
  shows "all_assignable (assignments q r r') r"
proof (cases q)
  case (Post_Verify i b)
  then show ?thesis using assms reported_bound [of r b] by (simp add: left_by_def decision_of_def)
next
  case (Post_Execute i b)
  then obtain r0 x where r0: "r0 = r \<or> attempt_added r r0 x" "r' = executed_record r0 x"
    using assms by (auto simp: left_by_def)
  from r0(1) show ?thesis
  proof
    assume "attempt_added r r0 x"
    then show ?thesis
      by (auto simp: attempt_added_def Post_Execute r0(2) executed_record_def list_all_iff intro!: attempt_named_next)
  qed (simp add: Post_Execute r0(2) executed_record_def)
qed (use assms in \<open>simp_all add: left_by_def\<close>)

text \<open>The invariant of the heap, the registry and the threads.\<close>

fun thread_ok :: "run_record list \<Rightarrow> thread \<Rightarrow> bool" where
  "thread_ok h Resting \<longleftrightarrow> True"
| "thread_ok h (Found_At k l) \<longleftrightarrow> l < length h \<and> rr_run_id (h ! l) = k"
| "thread_ok h (Assigning l ws) \<longleftrightarrow> l < length h \<and> all_assignable ws (h ! l)"

definition registry_ok :: "run_record list \<Rightarrow> (string \<times> nat) list \<Rightarrow> bool" where
  "registry_ok h reg \<longleftrightarrow> list_all (\<lambda>(k, l). l < length h \<and> rr_run_id (h ! l) = k) reg"

definition heap_ok :: "shared \<Rightarrow> bool" where
  "heap_ok s \<longleftrightarrow> list_all shared_ok (sh_heap s) \<and> registry_ok (sh_heap s) (sh_registry s)
     \<and> list_all (thread_ok (sh_heap s)) (sh_threads s)"

text \<open>Heaps that only grow keep the registry and the threads in order.\<close>

definition extends :: "run_record list \<Rightarrow> run_record list \<Rightarrow> bool" where
  "extends h h' \<longleftrightarrow> length h \<le> length h' \<and> (\<forall>l < length h. grows (h ! l) (h' ! l))"

lemma thread_ok_extends: "thread_ok h t \<Longrightarrow> extends h h' \<Longrightarrow> thread_ok h' t"
  by (cases t) (auto simp: extends_def grows_def intro: all_assignable_grows [unfolded grows_def])

lemma registry_ok_extends: "registry_ok h reg \<Longrightarrow> extends h h' \<Longrightarrow> registry_ok h' reg"
  by (auto simp: registry_ok_def extends_def grows_def list_all_iff)

lemma registry_ok_set:
  "registry_ok h reg \<Longrightarrow> l < length h \<Longrightarrow> registry_ok h (dict_set (rr_run_id (h ! l)) l reg)"
  unfolding registry_ok_def by (rule dict_set_all) auto

lemma extends_snoc: "extends h (h @ [r])"
  by (simp add: extends_def nth_append)

lemma extends_assign: "l < length h \<Longrightarrow> extends h (h[l := assign w (h ! l)])"
  by (auto simp: extends_def nth_list_update assign_grows)

lemma registry_get:
  "registry_ok h reg \<Longrightarrow> map_of reg k = Some l \<Longrightarrow> l < length h \<and> rr_run_id (h ! l) = k"
  by (auto simp: registry_ok_def list_all_iff dest!: map_of_SomeD)

lemma record_ok_shared:
  assumes "record_ok r"
  shows "shared_ok r"
proof -
  have "attempt_named (rr_run_id r) i (rr_attempts r ! i)" if i: "i < length (rr_attempts r)" for i
  proof -
    have "map (\<lambda>a. (at_attempt_id a, at_attempt_number a)) (rr_attempts r) ! i
        = map (\<lambda>i. (attempt_id (rr_run_id r) i, int i)) [1..<Suc (length (rr_attempts r))] ! i"
      using assms by (simp add: record_ok_def attempts_ok_def)
    then show ?thesis using i by (intro attempt_named_next) (simp_all del: upt_Suc)
  qed
  then show ?thesis using assms by (simp add: shared_ok_def record_ok_def)
qed

lemma made_ok:
  assumes "app_request v uuid (Post_Run m) (srv\<lparr>api_runs := []\<rparr>) = (a, srv')" and "repo_list (api_runs srv') = [r]"
  shows "shared_ok r"
proof -
  have "server_ok (srv\<lparr>api_runs := []\<rparr>)" by (simp add: server_ok_def repo_wf_def repo_list_def)
  from app_request_ok [OF assms(1) this] have "record_ok r" using assms(2) by (simp add: server_ok_def)
  then show ?thesis by (rule record_ok_shared)
qed

lemma heap_ok_step:
  assumes "shared_step v uuid s s'" and "heap_ok s"
  shows "heap_ok s'"
  using assms
proof (induction rule: shared_step.induct)
  case (make m s a srv r)
  have "shared_ok r" using made_ok make by blast
  moreover have "registry_ok (sh_heap s @ [r]) (dict_set (rr_run_id r) (length (sh_heap s)) (sh_registry s))"
    using registry_ok_set [OF registry_ok_extends [OF _ extends_snoc], of "sh_heap s" "sh_registry s" "length (sh_heap s)" r]
      make by (simp add: heap_ok_def)
  moreover have "list_all (thread_ok (sh_heap s @ [r])) (sh_threads s)"
    using make thread_ok_extends extends_snoc by (fastforce simp: heap_ok_def list_all_iff)
  ultimately show ?case using make by (simp add: heap_ok_def)
next
  case (find i s k l)
  then show ?case using registry_get by (auto simp: heap_ok_def intro: list_all_update)
next
  case (decide i s k l q a srv r')
  have l: "l < length (sh_heap s)" "rr_run_id (sh_heap s ! l) = k"
    using decide by (auto simp: heap_ok_def list_all_length)
  have "all_assignable (assignments q (sh_heap s ! l) r') (sh_heap s ! l)"
    using route_leaves decide l(2) by (intro assignments_assignable) blast
  then show ?case using decide l by (auto simp: heap_ok_def intro!: list_all_update)
next
  case (set_field i s l w ws)
  have l: "l < length (sh_heap s)" "assignable w (sh_heap s ! l)" "all_assignable ws (assign w (sh_heap s ! l))"
    using set_field by (auto simp: heap_ok_def list_all_length)
  have "shared_ok (assign w (sh_heap s ! l))"
    using set_field l by (intro shared_ok_assign) (auto simp: heap_ok_def list_all_length)
  then show ?case using set_field l extends_assign [OF l(1), of w]
    by (auto simp: heap_ok_def registry_ok_extends list_all_iff thread_ok_extends
        dest!: set_update_subset_insert [THEN subsetD])
next
  case (put_back i s l)
  then have "l < length (sh_heap s)" by (auto simp: heap_ok_def list_all_length)
  then show ?case using put_back by (auto simp: heap_ok_def registry_ok_set intro!: list_all_update)
qed (auto simp: heap_ok_def intro: list_all_update)

section \<open>Two threads on one record\<close>

lemma assign_steps:
  "i < length (sh_threads s) \<Longrightarrow> sh_threads s ! i = Assigning l ws \<Longrightarrow> l < length (sh_heap s) \<Longrightarrow>
   (shared_step v uuid)\<^sup>*\<^sup>* s (s\<lparr>sh_heap := (sh_heap s)[l := fold assign ws (sh_heap s ! l)],
      sh_threads := (sh_threads s)[i := Assigning l []]\<rparr>)"
proof (induction ws arbitrary: s)
  case Nil
  then have "s\<lparr>sh_heap := (sh_heap s)[l := sh_heap s ! l], sh_threads := (sh_threads s)[i := Assigning l []]\<rparr> = s"
    by (metis list_update_id shared.surjective shared.update_convs(1,4))
  then show ?case by simp
next
  case (Cons w ws)
  let ?s = "s\<lparr>sh_heap := (sh_heap s)[l := assign w (sh_heap s ! l)], sh_threads := (sh_threads s)[i := Assigning l ws]\<rparr>"
  have "shared_step v uuid s ?s" using set_field Cons.prems by blast
  moreover have "(shared_step v uuid)\<^sup>*\<^sup>* ?s (?s\<lparr>sh_heap := (sh_heap ?s)[l := fold assign ws (sh_heap ?s ! l)],
      sh_threads := (sh_threads ?s)[i := Assigning l []]\<rparr>)" using Cons.IH [of ?s] Cons.prems by simp
  ultimately show ?case using Cons.prems by simp
qed

lemma verify_decides:
  "rr_run_id r = k \<Longrightarrow> \<exists>a. accepted a
    \<and> app_request v uuid (Post_Verify k b) (srv\<lparr>api_runs := [(k, r)]\<rparr>)
      = (a, srv\<lparr>api_runs := [(k, r\<lparr>rr_verifier_report := Some (reported r b), rr_state := ''VERIFY''\<rparr>)]\<rparr>)"
  by (simp add: run_route_def verify_run_def with_run_def comp_defs repo_get_def Let_def api_save_def repo_save_def
      reported_def)

lemma pr_decides:
  "rr_run_id r = k \<Longrightarrow> decision_of r = D_PASS \<Longrightarrow>
   passed (pr_gate D_PASS (request_pr_facts (rr_manifest r) (pq_pr_url b) (pq_pr_skip_reason b))) \<Longrightarrow>
   \<exists>a. accepted a \<and> app_request v uuid (Post_Pr k b) (srv\<lparr>api_runs := [(k, r)]\<rparr>)
      = (a, srv\<lparr>api_runs := [(k, r\<lparr>rr_state := ''PR_GATE''\<rparr>)]\<rparr>)"
  by (simp add: run_route_def create_or_update_pr_def with_run_def comp_defs repo_get_def Let_def api_save_def
      repo_save_def)

text \<open>One run and two threads.\<close>

definition two_threads :: "run_record \<Rightarrow> thread \<Rightarrow> thread \<Rightarrow> shared" where
  "two_threads r t u =
     \<lparr>sh_heap = [r], sh_registry = [(''r1'', 0)], sh_server = start_server, sh_threads = [t, u]\<rparr>"

lemma second_verifies:
  assumes "rr_run_id r = ''r1''"
  shows "(shared_step v uuid)\<^sup>*\<^sup>* (two_threads r t Resting)
    (two_threads (r\<lparr>rr_verifier_report := Some (reported r b), rr_state := ''VERIFY''\<rparr>) t Resting)"
proof -
  let ?r = "r\<lparr>rr_verifier_report := Some (reported r b), rr_state := ''VERIFY''\<rparr>"
  let ?ws = "assignments (Post_Verify ''r1'' b) r ?r"
  obtain a where a: "accepted a" "app_request v uuid (Post_Verify ''r1'' b) (start_server\<lparr>api_runs := [(''r1'', r)]\<rparr>)
      = (a, start_server\<lparr>api_runs := [(''r1'', ?r)]\<rparr>)" using verify_decides [OF assms] by blast
  have idle: "start_server\<lparr>api_runs := []\<rparr> = start_server" by (simp add: start_server_def)
  have "shared_step v uuid (two_threads r t Resting) (two_threads r t (Found_At ''r1'' 0))"
    using find [of 1 "two_threads r t Resting" "''r1''" 0] by (simp add: two_threads_def)
  moreover have "shared_step v uuid (two_threads r t (Found_At ''r1'' 0)) (two_threads r t (Assigning 0 ?ws))"
    using decide [of 1 "two_threads r t (Found_At ''r1'' 0)" "''r1''" 0 "Post_Verify ''r1'' b" v uuid a _ ?r] a
    by (simp add: two_threads_def repo_get_def idle)
  moreover have "(shared_step v uuid)\<^sup>*\<^sup>* (two_threads r t (Assigning 0 ?ws)) (two_threads ?r t (Assigning 0 []))"
    using assign_steps [of 1 "two_threads r t (Assigning 0 ?ws)" 0 ?ws v uuid] by (simp add: two_threads_def)
  moreover have "shared_step v uuid (two_threads ?r t (Assigning 0 [])) (two_threads ?r t Resting)"
    using put_back [of 1 "two_threads ?r t (Assigning 0 [])" 0] assms by (simp add: two_threads_def)
  ultimately show ?thesis by (meson converse_rtranclp_into_rtranclp rtranclp.rtrancl_into_rtrancl)
qed

text \<open>
  A verdict that comes between the test of the PR route and its assignment: the run stands before
  the PR gate with a FAIL.
\<close>

definition failing_report :: verify_request where
  "failing_report =
     \<lparr>vq_verifier_report = sample_report\<lparr>vr_decision := D_FAIL\<rparr>, vq_evidence_ledger = new_ledger ''t1'' ''r1''\<rparr>"

lemma racing_verdict:
  "\<exists>s r. (shared_step v uuid)\<^sup>*\<^sup>* (fresh_shared start_server 2) s \<and> shared_get s ''r1'' = Some r
     \<and> rr_state r = ''PR_GATE'' \<and> decision_of r = D_FAIL"
proof -
  let ?n = "new_run_record ''r1'' sample_manifest"
  let ?b = "\<lparr>vq_verifier_report = sample_report, vq_evidence_ledger = new_ledger ''t1'' ''r1''\<rparr>"
  let ?p = "\<lparr>pq_pr_url = [], pq_pr_skip_reason = ''local''\<rparr>"
  have idle: "start_server\<lparr>api_runs := []\<rparr> = start_server" by (simp add: start_server_def)
  have ids: "rr_run_id ?n = ''r1''" "rr_run_id reported_record = ''r1''"
    by (simp_all add: reported_record_def new_run_record_def)
  have "m_run_id sample_manifest = ''r1''" by (simp add: sample_manifest_def)
  then have "\<exists>a. accepted a \<and> app_request v uuid (Post_Run sample_manifest) start_server
      = (a, start_server\<lparr>api_runs := [(''r1'', ?n)]\<rparr>)"
    using sample_manifest_passes ids(1)
    by (simp add: run_route_def create_run_def Let_def comp_defs repo_add_def start_server_def)
  then obtain a where "accepted a" "app_request v uuid (Post_Run sample_manifest) start_server
      = (a, start_server\<lparr>api_runs := [(''r1'', ?n)]\<rparr>)" by blast
  then have one: "shared_step v uuid (fresh_shared start_server 2) (two_threads ?n Resting Resting)"
    using make [of v uuid sample_manifest "fresh_shared start_server 2" a "start_server\<lparr>api_runs := [(''r1'', ?n)]\<rparr>" ?n] ids(1)
    by (simp add: fresh_shared_def two_threads_def repo_list_def idle numeral_2_eq_2)
  have "sample_report\<lparr>vr_decision := D_PASS\<rparr> = sample_report" by (simp add: sample_report_def)
  then have "?n\<lparr>rr_verifier_report := Some (reported ?n ?b), rr_state := ''VERIFY''\<rparr> = reported_record"
    by (simp add: reported_def reported_record_def sample_effective)
  then have two: "(shared_step v uuid)\<^sup>*\<^sup>* (two_threads ?n Resting Resting) (two_threads reported_record Resting Resting)"
    using second_verifies [OF ids(1), of v uuid Resting ?b] by simp
  have three: "shared_step v uuid (two_threads reported_record Resting Resting)
      (two_threads reported_record (Found_At ''r1'' 0) Resting)"
    using find [of 0 "two_threads reported_record Resting Resting" "''r1''" 0] by (simp add: two_threads_def)
  have pr: "decision_of reported_record = D_PASS"
    "passed (pr_gate D_PASS (request_pr_facts (rr_manifest reported_record) (pq_pr_url ?p) (pq_pr_skip_reason ?p)))"
    by (simp_all add: decision_of_def reported_record_def sample_report_def new_run_record_def pr_gate_passed
        request_pr_facts_def no_pr_facts_def sample_manifest_def default_manifest_def)
  obtain a where a: "accepted a" "app_request v uuid (Post_Pr ''r1'' ?p) (start_server\<lparr>api_runs := [(''r1'', reported_record)]\<rparr>)
      = (a, start_server\<lparr>api_runs := [(''r1'', reported_record\<lparr>rr_state := ''PR_GATE''\<rparr>)]\<rparr>)"
    using pr_decides [OF ids(2) pr] by blast
  have four: "shared_step v uuid (two_threads reported_record (Found_At ''r1'' 0) Resting)
      (two_threads reported_record (Assigning 0 [Put_State ''PR_GATE'']) Resting)"
    using decide [of 0 "two_threads reported_record (Found_At ''r1'' 0) Resting" "''r1''" 0 "Post_Pr ''r1'' ?p" v uuid a _
        "reported_record\<lparr>rr_state := ''PR_GATE''\<rparr>"] a
    by (simp add: two_threads_def repo_get_def idle)
  let ?f = "reported_record\<lparr>rr_verifier_report := Some (reported reported_record failing_report), rr_state := ''VERIFY''\<rparr>"
  have five: "(shared_step v uuid)\<^sup>*\<^sup>* (two_threads reported_record (Assigning 0 [Put_State ''PR_GATE'']) Resting)
      (two_threads ?f (Assigning 0 [Put_State ''PR_GATE'']) Resting)" by (rule second_verifies [OF ids(2)])
  let ?g = "?f\<lparr>rr_state := ''PR_GATE''\<rparr>"
  have six: "shared_step v uuid (two_threads ?f (Assigning 0 [Put_State ''PR_GATE'']) Resting)
      (two_threads ?g (Assigning 0 []) Resting)"
    using set_field [of 0 "two_threads ?f (Assigning 0 [Put_State ''PR_GATE'']) Resting" 0 "Put_State ''PR_GATE''" "[]"]
    by (simp add: two_threads_def)
  have "decision_of ?g = D_FAIL"
    by (simp add: decision_of_def reported_def failing_report_def effective_decision_def)
  moreover have "shared_get (two_threads ?g (Assigning 0 []) Resting) ''r1'' = Some ?g"
    by (simp add: shared_get_def two_threads_def)
  moreover have "(shared_step v uuid)\<^sup>*\<^sup>* (fresh_shared start_server 2) (two_threads ?g (Assigning 0 []) Resting)"
    using one two three four five six by (meson converse_rtranclp_into_rtranclp rtranclp.rtrancl_into_rtrancl rtranclp_trans)
  ultimately show ?thesis by (intro exI [of _ "two_threads ?g (Assigning 0 []) Resting"] exI [of _ ?g]) simp
qed

section \<open>Properties\<close>

text \<open>
  C19: however requests overlap over the in-memory registry, down to the single assignments of their
  routes, every stored record stands under its own run id and passed the manifest gate, a stored PASS
  was given by a report that names a task and whose verifier run, where it names one, is not the run
  of the coding agent, every attempt
  is named after the run with a number not above its place, and every artifact is a hashed one of the
  run and of one of its attempts.
\<close>

theorem shared_requests_keep_records:
  assumes "(shared_step v uuid)\<^sup>*\<^sup>* (fresh_shared srv n) s" and "shared_get s k = Some r"
  shows "rr_run_id r = k \<and> passed (manifest_gate (rr_manifest r))
    \<and> (decision_of r = D_PASS \<longrightarrow> bound_pass r)
    \<and> (\<forall>i < length (rr_attempts r). \<exists>m \<in> {1..Suc i}.
         at_attempt_id (rr_attempts r ! i) = attempt_id k m \<and> at_attempt_number (rr_attempts r ! i) = int m)
    \<and> artifacts_ok r"
proof -
  have "heap_ok s" using assms(1)
  proof induction
    case base
    show ?case by (simp add: fresh_shared_def heap_ok_def registry_ok_def list_all_iff)
  next
    case (step s s')
    then show ?case using heap_ok_step by blast
  qed
  then have "rr_run_id r = k" "shared_ok r"
    using assms(2) registry_get by (auto simp: shared_get_def heap_ok_def list_all_length)
  then show ?thesis by (simp add: shared_ok_def attempt_named_def)
qed

theorem shared_requests_keep_records_witness:
  "\<exists>s r. (shared_step quiet_env (\<lambda>_. []))\<^sup>*\<^sup>* (fresh_shared start_server 2) s \<and> shared_get s ''r1'' = Some r
     \<and> decision_of r = D_FAIL \<and> passed (manifest_gate (rr_manifest r)) \<and> artifacts_ok r"
  using racing_verdict [of quiet_env "\<lambda>_. []"] shared_requests_keep_records by blast

text \<open>
  C40: the test of the PR route and its assignment can be torn apart: with two threads over the
  in-memory registry, whatever the file system and the ids, a run whose stored decision is FAIL comes
  to stand before the PR gate, which one request after another cannot do.
\<close>

theorem pr_gate_races:
  "(\<exists>s r. (shared_step v uuid)\<^sup>*\<^sup>* (fresh_shared start_server 2) s \<and> shared_get s ''r1'' = Some r
      \<and> rr_state r = ''PR_GATE'' \<and> decision_of r = D_FAIL)
   \<and> \<not> (\<exists>s r k. served v uuid s \<and> repo_get (api_runs s) k = Some r
      \<and> rr_state r = ''PR_GATE'' \<and> decision_of r = D_FAIL)"
proof -
  have "decision_of r = D_PASS"
    if "served v uuid s" and "repo_get (api_runs s) k = Some r" and "rr_state r = ''PR_GATE''" for s k r
    using server_ok_get [OF served_ok [OF that(1)] that(2)] that(3) by (simp add: record_ok_def)
  then show ?thesis using racing_verdict [of v uuid] by force
qed

end
