(* ===== verification/Overlapping_Requests.thy ===== *)
theory Overlapping_Requests
  imports Shared_Records Sample_Run
begin

text \<open>
  Requests that overlap.  The routes are plain functions that the server runs on a pool of threads,
  and with the durable store each works on a copy: it reads the record of its run, does its work and
  writes the record back, with no lock and no transaction around the three.  The relation below
  interleaves these parts over any number of threads; the work of a route on its copy is a step of
  the server of \<open>Api_Safety\<close> on a store that holds nothing else.
\<close>

section \<open>Threads over one database\<close>

datatype phase = Idle | Holding run_record | Writing run_record

record overlap =
  ov_db :: database
  ov_server :: server
  ov_threads :: "phase list"

inductive overlap_step :: "env \<Rightarrow> (nat \<Rightarrow> string) \<Rightarrow> models \<Rightarrow> overlap \<Rightarrow> overlap \<Rightarrow> bool"
  for v uuid md where
  looked_up: "i < length (ov_threads s) \<Longrightarrow> ov_threads s ! i = Idle \<Longrightarrow> pg_get md (ov_db s) k = Some (Inr r) \<Longrightarrow>
    overlap_step v uuid md s (s\<lparr>ov_threads := (ov_threads s)[i := Holding r]\<rparr>)"
| worked: "i < length (ov_threads s) \<Longrightarrow> ov_threads s ! i = Holding r \<Longrightarrow>
    api_step v uuid ((ov_server s)\<lparr>api_runs := [(rr_run_id r, r)]\<rparr>) s' \<Longrightarrow>
    repo_get (api_runs s') (rr_run_id r) = Some r' \<Longrightarrow>
    overlap_step v uuid md s (s\<lparr>ov_server := s', ov_threads := (ov_threads s)[i := Writing r']\<rparr>)"
| opened: "i < length (ov_threads s) \<Longrightarrow> ov_threads s ! i = Idle \<Longrightarrow>
    api_step v uuid ((ov_server s)\<lparr>api_runs := []\<rparr>) s' \<Longrightarrow> repo_get (api_runs s') k = Some r \<Longrightarrow>
    overlap_step v uuid md s (s\<lparr>ov_server := s', ov_threads := (ov_threads s)[i := Writing r]\<rparr>)"
| written: "i < length (ov_threads s) \<Longrightarrow> ov_threads s ! i = Writing r \<Longrightarrow> pg_save md r (ov_db s) = Inr db' \<Longrightarrow>
    overlap_step v uuid md s (s\<lparr>ov_db := db', ov_threads := (ov_threads s)[i := Idle]\<rparr>)"
| left_off: "i < length (ov_threads s) \<Longrightarrow>
    overlap_step v uuid md s (s\<lparr>ov_threads := (ov_threads s)[i := Idle]\<rparr>)"

definition quiet_overlap :: "server \<Rightarrow> nat \<Rightarrow> overlap" where
  "quiet_overlap srv n = \<lparr>ov_db = empty_database, ov_server = srv, ov_threads = replicate n Idle\<rparr>"

section \<open>What every interleaving keeps\<close>

fun phase_ok :: "phase \<Rightarrow> bool" where
  "phase_ok Idle \<longleftrightarrow> True"
| "phase_ok (Holding r) \<longleftrightarrow> record_ok r"
| "phase_ok (Writing r) \<longleftrightarrow> record_ok r"

definition overlap_ok :: "models \<Rightarrow> overlap \<Rightarrow> bool" where
  "overlap_ok md s \<longleftrightarrow> pg_wf (ov_db s) \<and> list_all phase_ok (ov_threads s)
     \<and> (\<forall>k x. pg_get md (ov_db s) k = Some x \<longrightarrow> (\<exists>r. x = Inr r \<and> record_ok r \<and> rr_run_id r = k))"

lemma pg_get_save:
  assumes "pg_save md r db = Inr db'"
  shows "pg_get md db' k =
     (if k = rr_run_id r then Some (record_from_snapshot md (record_to_snapshot md r)) else pg_get md db k)"
  by (simp add: pg_get_def pg_save_runs [OF assms] run_row_def)

lemma list_all_phase: "list_all phase_ok ts \<Longrightarrow> i < length ts \<Longrightarrow> phase_ok (ts ! i)"
  by (simp add: list_all_length)

text \<open>The work of a route on a copy keeps the copy in order.\<close>

lemma copy_ok:
  assumes "api_step v uuid (srv\<lparr>api_runs := runs\<rparr>) s'" and "repo_get (api_runs s') k = Some r'"
    and "runs = [] \<or> (\<exists>r. runs = [(rr_run_id r, r)] \<and> record_ok r)"
  shows "record_ok r'"
proof -
  have "server_ok (srv\<lparr>api_runs := runs\<rparr>)"
    using assms(3) by (auto simp: server_ok_def repo_wf_def repo_list_def)
  from server_ok_get(1) [OF api_step_ok [OF assms(1) this] assms(2)] show ?thesis .
qed

lemma overlap_step_ok:
  assumes "faithful md" and "overlap_step v uuid md s s'" and "overlap_ok md s"
  shows "overlap_ok md s'"
  using assms(2,3)
proof (induction rule: overlap_step.induct)
  case (looked_up i s k r)
  then have "record_ok r" by (auto simp: overlap_ok_def)
  with looked_up show ?case by (simp add: overlap_ok_def list_all_update)
next
  case (worked i s r s' r')
  have "record_ok r" using list_all_phase [of "ov_threads s" i] worked by (simp add: overlap_ok_def)
  then have "record_ok r'" using copy_ok [OF worked(3,4)] by blast
  with worked show ?case by (simp add: overlap_ok_def list_all_update)
next
  case (opened i s s' k r)
  have "record_ok r" using copy_ok [OF opened(3,4)] by blast
  with opened show ?case by (simp add: overlap_ok_def list_all_update)
next
  case (written i s r db')
  have r: "record_ok r" using list_all_phase [of "ov_threads s" i] written by (simp add: overlap_ok_def)
  then have "pg_wf db'" using pg_save_ok [of r "ov_db s" md] written by (auto simp: overlap_ok_def)
  moreover have "\<exists>q. x = Inr q \<and> record_ok q \<and> rr_run_id q = k" if "pg_get md db' k = Some x" for k x
    using that written(4) r
    by (auto simp: pg_get_save [OF written(3)] snapshot_round_trip [OF assms(1)] overlap_ok_def split: if_splits)
  ultimately show ?case using written(4) by (simp add: overlap_ok_def list_all_update)
next
  case (left_off i s)
  then show ?case by (simp add: overlap_ok_def list_all_update)
qed

lemma overlap_reachable_ok:
  assumes "faithful md" and "(overlap_step v uuid md)\<^sup>*\<^sup>* (quiet_overlap srv n) s"
  shows "overlap_ok md s"
  using assms(2)
proof induction
  case base
  show ?case
    by (simp add: quiet_overlap_def overlap_ok_def pg_wf_def pg_get_def empty_database_def list_all_iff)
next
  case (step s s')
  then show ?case using overlap_step_ok [OF assms(1)] by blast
qed


section \<open>Properties\<close>

text \<open>
  C17: however requests overlap on the durable store, every record in it can be read and keeps what
  the API promises of a run: its manifest passed, it stands before the PR gate only with PASS, a PASS
  is bound to a task and is not the coding agent's own run where its report names a verifier run, its
  attempts are numbered; and whatever a thread has to write can be saved.  The models are printed and
  read as the schemas declare them.
\<close>

theorem overlapping_requests_keep_records:
  assumes "(overlap_step v uuid schema_models)\<^sup>*\<^sup>* (quiet_overlap srv n) s"
    and "pg_get schema_models (ov_db s) k = Some x"
  shows "(\<exists>r. x = Inr r \<and> rr_run_id r = k \<and> passed (manifest_gate (rr_manifest r))
    \<and> (rr_state r = ''PR_GATE'' \<longrightarrow> decision_of r = D_PASS)
    \<and> (decision_of r = D_PASS \<longrightarrow> bound_pass r)
    \<and> map at_attempt_number (rr_attempts r) = map int [1..<Suc (length (rr_attempts r))])
    \<and> list_all (\<lambda>t. case t of Writing q \<Rightarrow> \<exists>db'. pg_save schema_models q (ov_db s) = Inr db' | _ \<Rightarrow> True)
        (ov_threads s)"
proof -
  let ?md = schema_models
  have ok: "overlap_ok ?md s" using overlap_reachable_ok [OF schema_models_faithful assms(1)] .
  then obtain r where r: "x = Inr r" "record_ok r" "rr_run_id r = k" using assms(2) by (fastforce simp: overlap_ok_def)
  have "\<exists>db'. pg_save ?md q (ov_db s) = Inr db'" if "phase_ok (Writing q)" for q
    using that ok pg_save_ok [of q "ov_db s" ?md] by (auto simp: overlap_ok_def)
  then have "list_all (\<lambda>t. case t of Writing q \<Rightarrow> \<exists>db'. pg_save ?md q (ov_db s) = Inr db' | _ \<Rightarrow> True) (ov_threads s)"
    using ok by (auto simp: overlap_ok_def list_all_iff split: phase.split)
  then show ?thesis using r attempts_ok_numbers by (simp add: record_ok_def)
qed

text \<open>Two threads: one registers a run, the other reads it, executes it and writes it back.\<close>

lemma sample_overlap:
  "\<exists>s r. (overlap_step quiet_env uuid schema_models)\<^sup>*\<^sup>* (quiet_overlap start_server 2) s
     \<and> pg_get schema_models (ov_db s) ''r1'' = Some (Inr r) \<and> length (rr_attempts r) = 1
     \<and> rr_chain_execution_result r \<noteq> None"
proof -
  let ?md = schema_models and ?r = "new_run_record ''r1'' sample_manifest"
  let ?step = "overlap_step quiet_env uuid ?md"
  let ?s = "start_server\<lparr>api_runs := [(''r1'', ?r)]\<rparr>" and ?q = "quiet_overlap start_server 2"
  have id: "rr_run_id ?r = ''r1''" by (simp add: new_run_record_def)
  have wf: "pg_wf empty_database" by (simp add: pg_wf_def empty_database_def)
  have ok: "record_ok ?r" using sample_manifest_passes by (rule new_record_ok)
  obtain x where "create_run uuid sample_manifest start_server = (x, ?s)" using sample_created by blast
  then have "api_step quiet_env uuid ((ov_server ?q)\<lparr>api_runs := []\<rparr>) ?s"
    using created by (simp add: quiet_overlap_def start_server_def)
  from opened [of 0, OF _ _ this, of "''r1''" ?r]
  have one: "?step ?q (?q\<lparr>ov_server := ?s, ov_threads := [Writing ?r, Idle]\<rparr>)"
    by (simp add: quiet_overlap_def repo_get_def numeral_2_eq_2)
  obtain db where db: "pg_save ?md ?r empty_database = Inr db" "pg_wf db" using pg_save_ok [OF ok wf] by blast
  have two: "?step (?q\<lparr>ov_server := ?s, ov_threads := [Writing ?r, Idle]\<rparr>)
      (?q\<lparr>ov_server := ?s, ov_threads := [Idle, Idle], ov_db := db\<rparr>)"
    using written [of 0 "?q\<lparr>ov_server := ?s, ov_threads := [Writing ?r, Idle]\<rparr>" ?r ?md db quiet_env uuid] db
    by (simp add: quiet_overlap_def)
  have "reread ?r = ?r" by (rule reread_same) (simp_all add: new_run_record_def)
  then have "pg_get ?md db ''r1'' = Some (Inr ?r)"
    by (simp add: pg_get_save [OF db(1)] snapshot_round_trip [OF schema_models_faithful] id)
  then have three: "?step (?q\<lparr>ov_server := ?s, ov_threads := [Idle, Idle], ov_db := db\<rparr>)
      (?q\<lparr>ov_server := ?s, ov_threads := [Idle, Holding ?r], ov_db := db\<rparr>)"
    using looked_up [of 1 "?q\<lparr>ov_server := ?s, ov_threads := [Idle, Idle], ov_db := db\<rparr>" ?md "''r1''" ?r quiet_env uuid]
    by (simp add: quiet_overlap_def)
  obtain y r' s' where run: "execute_chain quiet_env ''r1'' (task_request ''a'') [] ?s = (Inr (Respond y), s')"
    and r': "repo_get (api_runs s') ''r1'' = Some r'" "length (rr_attempts r') = 1"
    using sample_executes [of "''a''"] by blast
  have new: "rr_attempts r' \<noteq> rr_attempts ?r" using r'(2) by (auto simp: new_run_record_def)
  note fields = execute_chain_fields [OF run r'(1) new]
  have "api_step quiet_env uuid (?s\<lparr>api_runs := [(rr_run_id ?r, ?r)]\<rparr>) s'" using executed [OF run] by (simp add: id)
  then have four: "?step (?q\<lparr>ov_server := ?s, ov_threads := [Idle, Holding ?r], ov_db := db\<rparr>)
      (?q\<lparr>ov_server := s', ov_threads := [Idle, Writing r'], ov_db := db\<rparr>)"
    using worked [of 1 "?q\<lparr>ov_server := ?s, ov_threads := [Idle, Holding ?r], ov_db := db\<rparr>" ?r quiet_env uuid s' r' ?md] r'(1)
    by (simp add: quiet_overlap_def id)
  have "server_ok ?s" using ok by (simp add: server_ok_def repo_wf_def repo_list_def id)
  then have "record_ok r'" using server_ok_get(1) execute_chain_ok run r'(1) by metis
  then obtain db2 where db2: "pg_save ?md r' db = Inr db2" using pg_save_ok db(2) by blast
  have five: "?step (?q\<lparr>ov_server := s', ov_threads := [Idle, Writing r'], ov_db := db\<rparr>)
      (?q\<lparr>ov_server := s', ov_threads := [Idle, Idle], ov_db := db2\<rparr>)"
    using written [of 1 "?q\<lparr>ov_server := s', ov_threads := [Idle, Writing r'], ov_db := db\<rparr>" r' ?md db2 quiet_env uuid] db2
    by (simp add: quiet_overlap_def)
  have "?step\<^sup>*\<^sup>* ?q (?q\<lparr>ov_server := s', ov_threads := [Idle, Idle], ov_db := db2\<rparr>)"
    using one two three four five by (meson rtranclp.rtrancl_into_rtrancl rtranclp.rtrancl_refl)
  moreover have "pg_get ?md db2 ''r1'' = Some (Inr (reread r'))"
    by (simp add: pg_get_save [OF db2] snapshot_round_trip [OF schema_models_faithful] fields(2))
  ultimately show ?thesis using r'(2) fields(3)
    by (intro exI [of _ "?q\<lparr>ov_server := s', ov_threads := [Idle, Idle], ov_db := db2\<rparr>"] exI [of _ "reread r'"]) simp
qed

theorem overlapping_requests_keep_records_witness:
  "\<forall>uuid. \<exists>s r. (overlap_step quiet_env uuid schema_models)\<^sup>*\<^sup>* (quiet_overlap start_server 2) s
     \<and> pg_get schema_models (ov_db s) ''r1'' = Some (Inr r) \<and> rr_chain_execution_result r \<noteq> None
     \<and> passed (manifest_gate (rr_manifest r)) \<and> map at_attempt_number (rr_attempts r) = [1]"
proof (intro allI)
  fix uuid
  obtain s r where s: "(overlap_step quiet_env uuid schema_models)\<^sup>*\<^sup>* (quiet_overlap start_server 2) s"
    "pg_get schema_models (ov_db s) ''r1'' = Some (Inr r)" "length (rr_attempts r) = 1" "rr_chain_execution_result r \<noteq> None"
    using sample_overlap by blast
  from overlapping_requests_keep_records [OF s(1,2)] s
  show "\<exists>s r. (overlap_step quiet_env uuid schema_models)\<^sup>*\<^sup>* (quiet_overlap start_server 2) s
     \<and> pg_get schema_models (ov_db s) ''r1'' = Some (Inr r) \<and> rr_chain_execution_result r \<noteq> None
     \<and> passed (manifest_gate (rr_manifest r)) \<and> map at_attempt_number (rr_attempts r) = [1]"
    by (intro exI [of _ s] exI [of _ r]) simp
qed

text \<open>
  C18: two executions of one run that overlap on the durable store: both take the number and the id of
  the same attempt, and when they are written one after the other, without any error, the database
  holds the record of the later one as it is read back: its attempts are those read at the start and
  its own, its artifacts those read at the start and its own, its result that of the later execution.
  The attempt, the artifacts and the result of the other are gone from the record.
\<close>

theorem overlapping_executions_lose_an_attempt:
  assumes "execute_chain v k qa pa (sa\<lparr>api_runs := [(k, r)]\<rparr>) = (Inr (Respond xa), sa')"
    and "repo_get (api_runs sa') k = Some ra" and "rr_attempts ra \<noteq> rr_attempts r"
    and "execute_chain v k qb pb (sb\<lparr>api_runs := [(k, r)]\<rparr>) = (Inr (Respond xb), sb')"
    and "repo_get (api_runs sb') k = Some rb" and "rr_attempts rb \<noteq> rr_attempts r"
    and "pg_save schema_models ra db = Inr db1" and "pg_save schema_models rb db1 = Inr db2"
  shows "at_attempt_id (last (rr_attempts ra)) = at_attempt_id (last (rr_attempts rb))
    \<and> pg_get schema_models db1 k = Some (Inr (reread ra))
    \<and> pg_get schema_models db2 k = Some (Inr (reread rb))
    \<and> rr_attempts (reread rb) = rr_attempts r @ [last (rr_attempts rb)]
    \<and> rr_artifacts (reread rb) = rr_artifacts r @ r_evidence_artifacts xb
    \<and> rr_chain_execution_result (reread rb) = Some (shown_result xb)"
  using execute_chain_fields [OF assms(1-3)] execute_chain_fields [OF assms(4-6)]
  by (simp add: pg_get_save [OF assms(7)] pg_get_save [OF assms(8)] snapshot_round_trip [OF schema_models_faithful])

theorem overlapping_executions_lose_an_attempt_witness:
  "\<exists>xa ra sa' xb rb sb' db1 db2 r. let s = start_server\<lparr>api_runs := [(''r1'', r)]\<rparr> in
     execute_chain quiet_env ''r1'' (task_request ''a'') [] s = (Inr (Respond xa), sa')
   \<and> repo_get (api_runs sa') ''r1'' = Some ra \<and> r_task_id xa = ''a''
   \<and> execute_chain quiet_env ''r1'' (task_request ''b'') [] s = (Inr (Respond xb), sb')
   \<and> repo_get (api_runs sb') ''r1'' = Some rb \<and> r_task_id xb = ''b''
   \<and> pg_save schema_models ra empty_database = Inr db1 \<and> pg_save schema_models rb db1 = Inr db2
   \<and> pg_get schema_models db2 ''r1'' = Some (Inr (reread rb))
   \<and> rr_chain_execution_result (reread rb) = Some (shown_result xb) \<and> length (rr_attempts (reread rb)) = 1"
proof -
  let ?r = "new_run_record ''r1'' sample_manifest" and ?md = schema_models
  let ?s = "start_server\<lparr>api_runs := [(''r1'', ?r)]\<rparr>"
  obtain xa ra sa' where a: "execute_chain quiet_env ''r1'' (task_request ''a'') [] ?s = (Inr (Respond xa), sa')"
    "repo_get (api_runs sa') ''r1'' = Some ra" "length (rr_attempts ra) = 1" "r_task_id xa = ''a''"
    using sample_executes [of "''a''"] by blast
  obtain xb rb sb' where b: "execute_chain quiet_env ''r1'' (task_request ''b'') [] ?s = (Inr (Respond xb), sb')"
    "repo_get (api_runs sb') ''r1'' = Some rb" "length (rr_attempts rb) = 1" "r_task_id xb = ''b''"
    using sample_executes [of "''b''"] by blast
  have new: "rr_attempts ra \<noteq> rr_attempts ?r" "rr_attempts rb \<noteq> rr_attempts ?r"
    using a(3) b(3) by (auto simp: new_run_record_def)
  have "server_ok ?s" using new_record_ok [OF sample_manifest_passes]
    by (simp add: server_ok_def repo_wf_def repo_list_def) (simp add: new_run_record_def)
  then have ok: "record_ok ra" "record_ok rb"
    using server_ok_get(1) execute_chain_ok a(1,2) b(1,2) by metis+
  have "pg_wf empty_database" by (simp add: pg_wf_def empty_database_def)
  then obtain db1 db2 where db: "pg_save ?md ra empty_database = Inr db1" "pg_save ?md rb db1 = Inr db2"
    using pg_save_ok ok by metis
  have "length (rr_attempts (reread rb)) = 1" using b(3) by simp
  with overlapping_executions_lose_an_attempt [OF a(1,2) new(1) b(1,2) new(2) db] a b db
  show ?thesis unfolding Let_def by blast
qed

end
