(* ===== verification/State_Machine.thy ===== *)
theory State_Machine
  imports Gates
begin

text \<open>
  The two state machines of \<open>backend/app/state_machine.py\<close> with their transition guard, the
  state enums of \<open>constants.py\<close> that fix their order, and the retry budget of
  \<open>retry_budget.py\<close>.  The source passes states as strings, so the operations do; the enums
  carry the order of the machine as a linear order.  The module has no loop of its own, and no
  code under \<open>src/\<close> drives it: what is shown is what one call answers.
\<close>

section \<open>States\<close>

datatype implementation_state =
    IS_INTAKE | IS_REFINE | IS_PLAN | IS_DESIGN_GATE | IS_AGENT_INVOKE | IS_DIFF_CAPTURE | IS_TEST
  | IS_VERIFY | IS_EVALUATE | IS_MEMORY_UPDATE | IS_PR_GATE | IS_STOP_OR_LOOP

definition implementation_states :: "implementation_state list" where
  "implementation_states =
     [IS_INTAKE, IS_REFINE, IS_PLAN, IS_DESIGN_GATE, IS_AGENT_INVOKE, IS_DIFF_CAPTURE, IS_TEST,
      IS_VERIFY, IS_EVALUATE, IS_MEMORY_UPDATE, IS_PR_GATE, IS_STOP_OR_LOOP]"

fun implementation_state_value :: "implementation_state \<Rightarrow> string" where
  "implementation_state_value IS_INTAKE = ''INTAKE''"
| "implementation_state_value IS_REFINE = ''REFINE''"
| "implementation_state_value IS_PLAN = ''PLAN''"
| "implementation_state_value IS_DESIGN_GATE = ''DESIGN_GATE''"
| "implementation_state_value IS_AGENT_INVOKE = ''AGENT_INVOKE''"
| "implementation_state_value IS_DIFF_CAPTURE = ''DIFF_CAPTURE''"
| "implementation_state_value IS_TEST = ''TEST''"
| "implementation_state_value IS_VERIFY = ''VERIFY''"
| "implementation_state_value IS_EVALUATE = ''EVALUATE''"
| "implementation_state_value IS_MEMORY_UPDATE = ''MEMORY_UPDATE''"
| "implementation_state_value IS_PR_GATE = ''PR_GATE''"
| "implementation_state_value IS_STOP_OR_LOOP = ''STOP_OR_LOOP''"

datatype analysis_state =
    AS_INTAKE | AS_REFINE | AS_PLAN | AS_DESIGN_GATE | AS_AGENT_INVOKE_READONLY
  | AS_EVIDENCE_CAPTURE | AS_VERIFY_ANALYSIS | AS_EVALUATE | AS_BACKLOG_UPDATE | AS_STOP_OR_LOOP

definition analysis_states :: "analysis_state list" where
  "analysis_states =
     [AS_INTAKE, AS_REFINE, AS_PLAN, AS_DESIGN_GATE, AS_AGENT_INVOKE_READONLY,
      AS_EVIDENCE_CAPTURE, AS_VERIFY_ANALYSIS, AS_EVALUATE, AS_BACKLOG_UPDATE, AS_STOP_OR_LOOP]"

fun analysis_state_value :: "analysis_state \<Rightarrow> string" where
  "analysis_state_value AS_INTAKE = ''INTAKE''"
| "analysis_state_value AS_REFINE = ''REFINE''"
| "analysis_state_value AS_PLAN = ''PLAN''"
| "analysis_state_value AS_DESIGN_GATE = ''DESIGN_GATE''"
| "analysis_state_value AS_AGENT_INVOKE_READONLY = ''AGENT_INVOKE_READONLY''"
| "analysis_state_value AS_EVIDENCE_CAPTURE = ''EVIDENCE_CAPTURE''"
| "analysis_state_value AS_VERIFY_ANALYSIS = ''VERIFY_ANALYSIS''"
| "analysis_state_value AS_EVALUATE = ''EVALUATE''"
| "analysis_state_value AS_BACKLOG_UPDATE = ''BACKLOG_UPDATE''"
| "analysis_state_value AS_STOP_OR_LOOP = ''STOP_OR_LOOP''"

text \<open>\<open>tuple.index\<close>: the first place of an element that is there.\<close>

definition index_of :: "'a \<Rightarrow> 'a list \<Rightarrow> nat" where
  "index_of x xs = length (takeWhile (\<lambda>y. y \<noteq> x) xs)"

lemma index_of_less: "x \<in> set xs \<Longrightarrow> index_of x xs < length xs"
  unfolding index_of_def by (induction xs) auto

lemma nth_index_of: "x \<in> set xs \<Longrightarrow> xs ! index_of x xs = x"
  unfolding index_of_def by (induction xs) auto

lemma index_of_nth: "distinct xs \<Longrightarrow> i < length xs \<Longrightarrow> index_of (xs ! i) xs = i"
  by (metis index_of_less nth_index_of nth_mem distinct_conv_nth)

text \<open>The enums are ordered as the machines run through them.\<close>

instantiation implementation_state :: linorder
begin
definition less_eq_implementation_state :: "implementation_state \<Rightarrow> implementation_state \<Rightarrow> bool" where
  "s \<le> t \<longleftrightarrow> index_of s implementation_states \<le> index_of t implementation_states"
definition less_implementation_state :: "implementation_state \<Rightarrow> implementation_state \<Rightarrow> bool" where
  "s < t \<longleftrightarrow> index_of s implementation_states < index_of t implementation_states"
instance
proof
  fix s t u :: implementation_state
  have mem: "x \<in> set implementation_states" for x
    by (cases x) (simp_all add: implementation_states_def)
  show "s < t \<longleftrightarrow> s \<le> t \<and> \<not> t \<le> s"
    by (auto simp: less_implementation_state_def less_eq_implementation_state_def)
  show "s \<le> s" and "s \<le> t \<Longrightarrow> t \<le> u \<Longrightarrow> s \<le> u" and "s \<le> t \<or> t \<le> s"
    by (auto simp: less_eq_implementation_state_def)
  show "s \<le> t \<Longrightarrow> t \<le> s \<Longrightarrow> s = t"
    unfolding less_eq_implementation_state_def by (metis le_antisym mem nth_index_of)
qed
end

instantiation analysis_state :: linorder
begin
definition less_eq_analysis_state :: "analysis_state \<Rightarrow> analysis_state \<Rightarrow> bool" where
  "s \<le> t \<longleftrightarrow> index_of s analysis_states \<le> index_of t analysis_states"
definition less_analysis_state :: "analysis_state \<Rightarrow> analysis_state \<Rightarrow> bool" where
  "s < t \<longleftrightarrow> index_of s analysis_states < index_of t analysis_states"
instance
proof
  fix s t u :: analysis_state
  have mem: "x \<in> set analysis_states" for x
    by (cases x) (simp_all add: analysis_states_def)
  show "s < t \<longleftrightarrow> s \<le> t \<and> \<not> t \<le> s"
    by (auto simp: less_analysis_state_def less_eq_analysis_state_def)
  show "s \<le> s" and "s \<le> t \<Longrightarrow> t \<le> u \<Longrightarrow> s \<le> u" and "s \<le> t \<or> t \<le> s"
    by (auto simp: less_eq_analysis_state_def)
  show "s \<le> t \<Longrightarrow> t \<le> s \<Longrightarrow> s = t"
    unfolding less_eq_analysis_state_def by (metis le_antisym mem nth_index_of)
qed
end

definition IMPLEMENTATION_STATE_ORDER :: "string list" where
  "IMPLEMENTATION_STATE_ORDER = map implementation_state_value implementation_states"

definition ANALYSIS_STATE_ORDER :: "string list" where
  "ANALYSIS_STATE_ORDER = map analysis_state_value analysis_states"

definition TERMINAL_STATE :: string where
  "TERMINAL_STATE = ''STOP_OR_LOOP''"

section \<open>Transitions\<close>

definition IMPLEMENTATION_REQUIRED :: "(string \<times> string list) list" where
  "IMPLEMENTATION_REQUIRED =
     [(''INTAKE'', [''task_contract.json'', ''run_manifest.json'']),
      (''REFINE'', [''scrum_mapping.json'', ''acceptance_criteria.json'', ''complexity_risk.json'']),
      (''PLAN'', [''task_plan.json'', ''command_plan.json'', ''scope_plan.json'',
         ''rollback_plan.json'', ''definition_of_done_lock.json'']),
      (''DESIGN_GATE'', [''design_options.json'', ''selected_design.json'',
         ''strategic_programming_contract.json'']),
      (''AGENT_INVOKE'', [''agent_invocation.md'', ''agent_summary.md'', ''raw_agent_output.log'',
         ''file_change_record.json'']),
      (''DIFF_CAPTURE'', [''diff.patch'', ''git_status.log'', ''diff_check.log'']),
      (''TEST'', [''test_output.log'']),
      (''VERIFY'', [''verifier_report.json'', ''evidence_ledger.json'']),
      (''EVALUATE'', [''evaluation_report.json'']),
      (''MEMORY_UPDATE'', [''memory_update_record.json'']),
      (''PR_GATE'', [''pr_gate_report.json'', ''final_checkpoint.json''])]"

definition ALTERNATIVE_REQUIRED :: "(string \<times> string list list) list" where
  "ALTERNATIVE_REQUIRED =
     [(''MEMORY_UPDATE'', [[''memory_update_record.json''], [''memory_update_skip_reason.json'']])]"

definition ANALYSIS_REQUIRED :: "(string \<times> string list) list" where
  "ANALYSIS_REQUIRED =
     [(''INTAKE'', [''task_contract.json'', ''run_manifest.json'']),
      (''REFINE'', [''scrum_mapping.json'', ''acceptance_criteria.json'', ''complexity_risk.json'']),
      (''PLAN'', [''task_plan.json'', ''command_plan.json'', ''scope_plan.json'',
         ''rollback_plan.json'', ''definition_of_done_lock.json'']),
      (''DESIGN_GATE'', [''design_options.json'', ''selected_design.json'',
         ''strategic_programming_contract.json'']),
      (''AGENT_INVOKE_READONLY'', [''repo_tree.log'', ''command_discovery.log'']),
      (''EVIDENCE_CAPTURE'', [''codebase_ai_readiness_report.json'', ''evidence_ledger.json'']),
      (''VERIFY_ANALYSIS'', [''verifier_report.json'']),
      (''EVALUATE'', [''evaluation_report.json'']),
      (''BACKLOG_UPDATE'', [''ai_safety_gap_backlog.json'', ''final_checkpoint.json''])]"

definition state_order :: "run_type \<Rightarrow> string list" where
  "state_order rt = (if rt = RT_IMPLEMENTATION then IMPLEMENTATION_STATE_ORDER else ANALYSIS_STATE_ORDER)"

definition required_of :: "run_type \<Rightarrow> (string \<times> string list) list" where
  "required_of rt = (if rt = RT_IMPLEMENTATION then IMPLEMENTATION_REQUIRED else ANALYSIS_REQUIRED)"

text \<open>The message formats the enum member itself, not its value.\<close>

definition next_state :: "run_type \<Rightarrow> string \<Rightarrow> string option res" where
  "next_state rt current =
     (let order = state_order rt in
      if current \<notin> set order
      then Inl (ValueError (''unknown state '' @ repr_str current @ '' for RunType.''
                            @ run_type_value rt))
      else let idx = index_of current order in
           if length order \<le> idx + 1 then Inr None else Inr (Some (order ! (idx + 1))))"

definition diff_required :: "run_type \<Rightarrow> bool" where
  "diff_required rt \<longleftrightarrow> rt = RT_IMPLEMENTATION"

definition transition_guard :: "run_type \<Rightarrow> string \<Rightarrow> string list \<Rightarrow> gate_result" where
  "transition_guard rt current artifacts =
     (if current \<notin> set (state_order rt)
      then gate_of ''state_transition_guard''
             [''unknown state '' @ repr_str current @ '' for '' @ run_type_value rt]
      else let present = set (map basename artifacts) in
        (case map_of ALTERNATIVE_REQUIRED current of
           Some alternatives \<Rightarrow>
             if list_ex (list_all (\<lambda>name. name \<in> present)) alternatives
             then gate_of ''state_transition_guard'' []
             else gate_of ''state_transition_guard''
                    [''missing required artifacts to leave '' @ current @ '': ''
                     @ py_join '' or '' (map (py_join ''/'') alternatives)]
         | None \<Rightarrow>
             gate_of ''state_transition_guard''
               (map (\<lambda>name. ''missing required artifact to leave '' @ current @ '': '' @ name)
                  (filter (\<lambda>name. name \<notin> present)
                    (case map_of (required_of rt) current of Some r \<Rightarrow> r | None \<Rightarrow> [])))))"

section \<open>Order and guard\<close>

lemmas order_defs = state_order_def IMPLEMENTATION_STATE_ORDER_def ANALYSIS_STATE_ORDER_def
  implementation_states_def analysis_states_def

lemma state_order_distinct: "distinct (state_order rt)"
  by (cases rt) (simp_all add: order_defs)

lemma state_order_ends: "hd (state_order rt) = ''INTAKE'' \<and> last (state_order rt) = TERMINAL_STATE"
  by (cases rt) (simp_all add: order_defs TERMINAL_STATE_def)

lemma state_order_nonempty [simp]: "state_order rt \<noteq> []"
  by (cases rt) (simp_all add: order_defs)

lemma next_state_Some_iff:
  "next_state rt s = Inr (Some t) \<longleftrightarrow>
     (\<exists>i. Suc i < length (state_order rt) \<and> state_order rt ! i = s \<and> state_order rt ! Suc i = t)"
proof
  assume "next_state rt s = Inr (Some t)"
  then show "\<exists>i. Suc i < length (state_order rt) \<and> state_order rt ! i = s \<and> state_order rt ! Suc i = t"
    by (intro exI [of _ "index_of s (state_order rt)"])
       (auto simp: next_state_def Let_def nth_index_of split: if_splits)
next
  assume "\<exists>i. Suc i < length (state_order rt) \<and> state_order rt ! i = s \<and> state_order rt ! Suc i = t"
  then obtain i where i: "Suc i < length (state_order rt)" "state_order rt ! i = s"
      "state_order rt ! Suc i = t" by blast
  then have "index_of s (state_order rt) = i"
    using index_of_nth [OF state_order_distinct [of rt], of i] by simp
  moreover have "s \<in> set (state_order rt)" using i by (metis Suc_lessD nth_mem)
  ultimately show "next_state rt s = Inr (Some t)" using i by (simp add: next_state_def)
qed

lemma next_state_None_iff: "next_state rt s = Inr None \<longleftrightarrow> s = TERMINAL_STATE"
proof -
  have "next_state rt s = Inr None \<longleftrightarrow>
      s \<in> set (state_order rt) \<and> index_of s (state_order rt) = length (state_order rt) - 1"
    using index_of_less [of s "state_order rt"]
    by (cases "s \<in> set (state_order rt)")
       (auto simp: next_state_def Let_def simp del: index_of_def)
  also have "\<dots> \<longleftrightarrow> s = last (state_order rt)"
    using nth_index_of [of s "state_order rt"]
      index_of_nth [OF state_order_distinct [of rt], of "length (state_order rt) - 1"]
    by (auto simp: last_conv_nth)
  finally show ?thesis using state_order_ends [of rt] by simp
qed

text \<open>What must be on disk to leave a state.\<close>

definition may_leave :: "run_type \<Rightarrow> string \<Rightarrow> string set \<Rightarrow> bool" where
  "may_leave rt s names \<longleftrightarrow>
     (if s = ''MEMORY_UPDATE''
      then ''memory_update_record.json'' \<in> names \<or> ''memory_update_skip_reason.json'' \<in> names
      else set (case map_of (required_of rt) s of Some r \<Rightarrow> r | None \<Rightarrow> []) \<subseteq> names)"

lemma transition_guard_passed [gate_passed]:
  "passed (transition_guard rt s arts) \<longleftrightarrow>
     s \<in> set (state_order rt) \<and> may_leave rt s (basename ` set arts)"
  by (auto simp: transition_guard_def may_leave_def ALTERNATIVE_REQUIRED_def Let_def
      filter_empty_conv)

text \<open>A refusal gives one reason for each missing artifact, in the order of the table.\<close>

lemma transition_guard_reasons:
  assumes "s \<in> set (state_order rt)" and "s \<noteq> ''MEMORY_UPDATE''"
  shows "g_reasons (transition_guard rt s arts) =
     map (\<lambda>name. ''missing required artifact to leave '' @ s @ '': '' @ name)
       (filter (\<lambda>name. name \<notin> basename ` set arts)
         (case map_of (required_of rt) s of Some r \<Rightarrow> r | None \<Rightarrow> []))"
  using assms by (simp add: transition_guard_def ALTERNATIVE_REQUIRED_def Let_def gate_result_of_def)

lemma transition_guard_unknown:
  "s \<notin> set (state_order rt) \<Longrightarrow> g_reasons (transition_guard rt s arts) =
     [''unknown state '' @ repr_str s @ '' for '' @ run_type_value rt]"
  by (simp add: transition_guard_def gate_result_of_def)

section \<open>Retry budget\<close>

record retry_status =
  rs_exhausted :: bool
  rs_status :: string
  rs_reason :: string

definition evaluate_retry_budget :: "int \<Rightarrow> int \<Rightarrow> int \<Rightarrow> int \<Rightarrow> string \<Rightarrow> retry_status" where
  "evaluate_retry_budget agent_attempts verifier_failures max_agent_attempts
       max_verifier_failures on_exhaustion =
     (if max_agent_attempts \<le> agent_attempts
      then \<lparr>rs_exhausted = True, rs_status = on_exhaustion,
             rs_reason = ''max_agent_attempts reached''\<rparr>
      else if max_verifier_failures \<le> verifier_failures
      then \<lparr>rs_exhausted = True, rs_status = on_exhaustion,
             rs_reason = ''max_verifier_failures reached''\<rparr>
      else \<lparr>rs_exhausted = False, rs_status = ''CONTINUE'', rs_reason = []\<rparr>)"

lemma retry_exhausted_iff:
  "rs_exhausted (evaluate_retry_budget a v ma mv ex) \<longleftrightarrow> ma \<le> a \<or> mv \<le> v"
  by (simp add: evaluate_retry_budget_def)

text \<open>
  A caller that asks the budget before each attempt and counts what happened: a step is an
  attempt the budget admitted, after which the verifier may have failed it.
\<close>

inductive attempt :: "int \<Rightarrow> int \<Rightarrow> int \<times> int \<Rightarrow> int \<times> int \<Rightarrow> bool" for ma mv where
  "\<not> rs_exhausted (evaluate_retry_budget a v ma mv ex) \<Longrightarrow> f = 0 \<or> f = 1 \<Longrightarrow>
   attempt ma mv (a, v) (a + 1, v + f)"

inductive_cases attemptE: "attempt ma mv (a, v) c"

lemma attempts_bounded:
  assumes "(attempt ma mv ^^ n) (0, 0) (a, v)"
  shows "a = int n \<and> (n = 0 \<or> a \<le> ma \<and> v \<le> mv)"
  using assms
proof (induction n arbitrary: a v)
  case 0
  then show ?case by simp
next
  case (Suc n)
  then obtain b w where prev: "(attempt ma mv ^^ n) (0, 0) (b, w)" and step: "attempt ma mv (b, w) (a, v)"
    by (metis relpowp_Suc_E surj_pair)
  from Suc.IH [OF prev] step show ?case
    by (auto elim!: attemptE simp: retry_exhausted_iff)
qed

section \<open>Properties\<close>

text \<open>The next states go through the whole order, and a name that is no state is refused.\<close>

lemma next_state_runs_through:
  "(\<forall>i. Suc i < length (state_order rt) \<longrightarrow>
        next_state rt (state_order rt ! i) = Inr (Some (state_order rt ! Suc i)))
   \<and> distinct (state_order rt) \<and> hd (state_order rt) = ''INTAKE''
   \<and> (next_state rt s = Inr None \<longleftrightarrow> s = TERMINAL_STATE)
   \<and> ((\<exists>e. next_state rt s = Inl e) \<longleftrightarrow> s \<notin> set (state_order rt))"
proof -
  have "(\<exists>e. next_state rt s = Inl e) \<longleftrightarrow> s \<notin> set (state_order rt)"
    by (simp add: next_state_def Let_def)
  then show ?thesis
    using next_state_Some_iff next_state_None_iff state_order_distinct state_order_ends by blast
qed

text \<open>
  C30: a caller that asks the budget before every attempt makes at most the allowed number of
  attempts and sees at most the allowed number of verifier failures, so it stops.
\<close>

theorem retry_budget_bounds_attempts:
  assumes "(attempt ma mv ^^ n) (0, 0) (a, v)" and "0 \<le> ma" and "0 \<le> mv"
  shows "a = int n \<and> a \<le> ma \<and> v \<le> mv"
  using attempts_bounded [OF assms(1)] assms by auto

theorem retry_budget_bounds_attempts_witness:
  "(attempt 2 2 ^^ 2) (0, 0) (2, 1) \<and> (2 :: int) = int 2"
proof -
  have "attempt 2 2 (0, 0) (0 + 1, 0 + 1)"
    by (rule attempt.intros [of _ _ _ _ "''FAIL''"]) (simp_all add: evaluate_retry_budget_def)
  moreover have "attempt 2 2 (1, 1) (1 + 1, 1 + 0)"
    by (rule attempt.intros [of _ _ _ _ "''FAIL''"]) (simp_all add: evaluate_retry_budget_def)
  ultimately have "(attempt 2 2 ^^ 2) (0, 0) (2, 1)"
    by (auto simp: numeral_2_eq_2 intro: relcomppI)
  then show ?thesis using retry_budget_bounds_attempts [of 2 2 2 2 1] by simp
qed

end
