(* ===== verification/Json_Round_Trip.thy ===== *)
theory Json_Round_Trip
  imports Json_Parser
begin

text \<open>
  What the parser reads back of what the printer wrote: a string literal, a number, a word, and by
  induction a whole value in either layout of \<open>json.dumps\<close>.  Each part's lemma gives the value and
  the rest that follows it, so that the parts compose.
\<close>

section \<open>Strings\<close>

lemma hex_value_hexlow: "k < 16 \<Longrightarrow> hex_value (hexlow k) = Some k"
  by (auto simp: hex_value_def hexlow_def digit_def Let_def)

lemma hex4_hex2:
  assumes "n < 256"
  shows "hex4 (CHR ''0'') (CHR ''0'') (hexlow (n div 16 mod 16)) (hexlow (n mod 16)) = Some (char_of n)"
proof -
  have "n div 16 < 16" using assms by simp
  then have "16 * (n div 16 mod 16) + n mod 16 = n" by simp
  moreover have "hex_value (CHR ''0'') = Some 0" by (simp add: hex_value_def)
  ultimately show ?thesis by (simp add: hex4_def hex_value_hexlow)
qed

lemma char_by_code: "c = d \<longleftrightarrow> (of_char c :: nat) = of_char d"
  by simp

lemma of_char_neq: "c \<noteq> d \<longleftrightarrow> (of_char c :: nat) \<noteq> of_char d"
  by simp

lemma json_char_escaped:
  assumes "c \<in> {CHR 0x08, CHR 0x09, CHR 0x0A, CHR 0x0C, CHR 0x0D, CHR 0x22, backslash}"
  shows "json_string (json_char c @ s) = map_option (\<lambda>(u, r). (c # u, r)) (json_string s)"
  using assms by (auto simp: json_char_def escape_value_def)

lemma json_char_read:
  "json_string (json_char c @ s) = map_option (\<lambda>(u, r). (c # u, r)) (json_string s)"
proof -
  define n where "n = (of_char c :: nat)"
  have c: "c = char_of n" and "n < 256" by (simp_all add: n_def)
  show ?thesis
  proof (cases "n < 32 \<and> n \<notin> {8, 9, 10, 12, 13} \<or> 126 < n")
    case True
    then have "c \<noteq> backslash" and "n \<notin> {8, 9, 10, 12, 13, 34}" and "n < 32 \<or> 126 < n"
      by (auto simp: of_char_neq n_def [symmetric])
    then have "json_char c = backslash # CHR ''u'' # CHR ''0'' # CHR ''0'' # hex2 n"
      by (simp add: json_char_def n_def [symmetric])
    then show ?thesis using hex4_hex2 [OF \<open>n < 256\<close>] by (simp add: hex2_def c)
  next
    case False
    show ?thesis
    proof (cases "n \<in> {8, 9, 10, 12, 13, 34, 92}")
      case True
      then have "c \<in> {CHR 0x08, CHR 0x09, CHR 0x0A, CHR 0x0C, CHR 0x0D, CHR 0x22, backslash}"
        by (simp only: insert_iff empty_iff char_by_code n_def [symmetric]) auto
      then show ?thesis by (rule json_char_escaped)
    next
      case plain: False
      then have "c \<noteq> CHR 0x22" "c \<noteq> backslash"
        by (simp_all add: of_char_neq n_def [symmetric])
      moreover have "json_char c = [c]" "\<not> n < 32"
        using False plain \<open>c \<noteq> backslash\<close> by (simp_all add: json_char_def n_def [symmetric] Let_def)
      ultimately show ?thesis by (simp add: n_def)
    qed
  qed
qed

lemma json_string_quote: "json_string (concat (map json_char s) @ CHR 0x22 # rest) = Some (s, rest)"
  by (induction s) (simp_all add: json_char_read)

lemma json_quote_app: "json_quote s @ rest = CHR 0x22 # (concat (map json_char s) @ CHR 0x22 # rest)"
  by (simp add: json_quote_def)

section \<open>Numbers\<close>

text \<open>The character after a value is a separator, a closing bracket or white space.\<close>

definition is_ws :: "char \<Rightarrow> bool" where
  "is_ws c \<longleftrightarrow> (of_char c :: nat) \<in> {9, 10, 13, 32}"

definition stops :: "string \<Rightarrow> bool" where
  "stops s \<longleftrightarrow> (case s of [] \<Rightarrow> True
     | c # _ \<Rightarrow> c = CHR '','' \<or> c = CHR '']'' \<or> c = CHR ''}'' \<or> is_ws c)"

lemma stops_simps [simp]:
  "stops []" "stops (CHR '','' # s)" "stops (CHR '']'' # s)" "stops (CHR ''}'' # s)" "is_ws c \<Longrightarrow> stops (c # s)"
  by (simp_all add: stops_def)

lemma stops_cases:
  assumes "stops s"
  shows "s = [] \<or> (\<exists>c r. s = c # r \<and> \<not> is_digit c \<and> c \<noteq> CHR ''.'' \<and> c \<noteq> CHR ''e'' \<and> c \<noteq> CHR ''E'')"
  using assms by (cases s) (auto simp: stops_def is_ws_def is_digit_def)

lemma digits_of_app:
  assumes "list_all is_digit ds" and "s = [] \<or> \<not> is_digit (hd s)"
  shows "digits_of (ds @ s) = (ds, s)"
proof -
  have "takeWhile is_digit s = []" "dropWhile is_digit s = s" using assms(2) by (cases s; simp)+
  then show ?thesis using assms(1) by (simp add: digits_of_def list_all_iff)
qed

definition whole_literal :: "string \<Rightarrow> bool" where
  "whole_literal ds \<longleftrightarrow> ds \<noteq> [] \<and> list_all is_digit ds \<and> (hd ds = CHR ''0'' \<longrightarrow> tl ds = [])"

lemma int_part_app:
  assumes "whole_literal ds" and "s = [] \<or> \<not> is_digit (hd s)"
  shows "int_part (ds @ s) = Some (ds, s)"
  using assms digits_of_app [OF _ assms(2), of ds]
  by (cases ds) (auto simp: whole_literal_def int_part_def)

lemma dec_head: "hd (dec n) = CHR ''0'' \<Longrightarrow> n = 0"
proof (induction n rule: dec.induct)
  case (1 n)
  show ?case
  proof (cases "n < 10")
    case True
    with "1.prems" have "of_char (digit n) = (48 :: nat)" by (subst (asm) dec.simps) simp
    with True show ?thesis by (simp add: of_char_digit)
  next
    case False
    with "1.prems" have "hd (dec (n div 10)) = CHR ''0''" by (subst (asm) dec.simps) simp
    with False "1.IH" show ?thesis by auto
  qed
qed

lemma dec_whole: "whole_literal (dec n)"
proof -
  have "list_all is_digit (dec n)" using dec_digits by (auto simp: list_all_iff is_digit_def)
  moreover have "tl (dec n) = []" if "hd (dec n) = CHR ''0''"
    using dec_head [OF that] by (simp add: dec.simps [of 0])
  ultimately show ?thesis by (simp add: whole_literal_def)
qed

lemma whole_not_sign: "whole_literal ds \<Longrightarrow> \<not> starts_with ''-'' (ds @ s)"
  by (cases ds) (auto simp: whole_literal_def starts_with_def is_digit_def)

lemma no_exponent: "stops s \<Longrightarrow> frac_part s = ([], s) \<and> exp_part s = ([], s)"
  using stops_cases [of s] by (auto simp: frac_part_def exp_part_def Let_def)

lemma stops_no_digit: "stops s \<Longrightarrow> s = [] \<or> \<not> is_digit (hd s)"
  using stops_cases [of s] by auto

lemma json_number_int:
  assumes "stops s" and "length (dec (nat \<bar>i\<bar>)) \<le> 4300"
  shows "json_number (dec_int i @ s) = Some (JInt i, s)"
proof -
  note part = int_part_app [OF dec_whole stops_no_digit [OF assms(1)]]
  show ?thesis
  proof (cases "i < 0")
    case True
    then show ?thesis using assms part [of "nat (- i)"] no_exponent [OF assms(1)]
      by (simp add: json_number_def dec_int_def starts_with_def undec_dec)
  next
    case False
    then show ?thesis using assms part [of "nat i"] no_exponent [OF assms(1)] whole_not_sign [OF dec_whole]
      by (simp add: json_number_def dec_int_def undec_dec)
  qed
qed

text \<open>A float in fixed-point notation.\<close>

definition fixed_literal :: "string \<Rightarrow> bool" where
  "fixed_literal r \<longleftrightarrow>
     (let b = (if starts_with ''-'' r then tl r else r); ds = takeWhile is_digit b;
          fs = drop (Suc (length ds)) b
      in whole_literal ds \<and> fs \<noteq> [] \<and> list_all is_digit fs \<and> b = ds @ ''.'' @ fs)"

lemma json_number_fixed:
  assumes "stops s" and "fixed_literal r"
  shows "json_number (r @ s) = Some (JFloat r, s)"
proof -
  define b where "b = (if starts_with ''-'' r then tl r else r)"
  from assms(2) obtain ds fs where b: "b = ds @ ''.'' @ fs" and ds: "whole_literal ds"
    and fs: "fs \<noteq> []" "list_all is_digit fs"
    unfolding fixed_literal_def Let_def b_def [symmetric] by blast
  have "int_part (ds @ ''.'' @ fs @ s) = Some (ds, ''.'' @ fs @ s)"
    using ds by (rule int_part_app) (simp add: is_digit_def)
  moreover have "frac_part (''.'' @ fs @ s) = (''.'' @ fs, s)"
    using fs digits_of_app [OF fs(2) stops_no_digit [OF assms(1)]] by (simp add: frac_part_def)
  moreover have "r = (if starts_with ''-'' r then ''-'' else []) @ b"
    by (cases r) (auto simp: b_def starts_with_def)
  ultimately show ?thesis
  proof (cases "starts_with ''-'' r")
    case True
    then have r: "r = CHR ''-'' # ds @ ''.'' @ fs" using \<open>r = _\<close> b by simp
    show ?thesis
      using \<open>int_part _ = _\<close> \<open>frac_part _ = _\<close> no_exponent [OF assms(1)]
      by (simp add: r json_number_def starts_with_def)
  next
    case False
    then have r: "r = ds @ ''.'' @ fs" using \<open>r = _\<close> b by simp
    show ?thesis
      using \<open>int_part _ = _\<close> \<open>frac_part _ = _\<close> no_exponent [OF assms(1)] whole_not_sign [OF ds, of "''.'' @ fs @ s"]
      by (simp add: r json_number_def)
  qed
qed

section \<open>Values\<close>

text \<open>A text that the parser reads as a value, whatever follows and however much fuel is left.\<close>

definition reads :: "json \<Rightarrow> string \<Rightarrow> bool" where
  "reads v s \<longleftrightarrow> s \<noteq> [] \<and> \<not> is_ws (hd s) \<and> hd s \<noteq> CHR '']''
     \<and> (\<forall>n rest. 2 * length s \<le> n \<longrightarrow> stops rest \<longrightarrow> json_value n (s @ rest) = Some (v, rest))"

lemma readsI:
  assumes "s \<noteq> []" and "\<not> is_ws (hd s)" and "hd s \<noteq> CHR '']''"
    and "\<And>n rest. 2 * length s \<le> Suc n \<Longrightarrow> stops rest \<Longrightarrow> json_value (Suc n) (s @ rest) = Some (v, rest)"
  shows "reads v s"
  unfolding reads_def
proof (intro conjI allI impI)
  fix n rest assume "2 * length s \<le> n" "stops rest"
  moreover from this assms(1) obtain m where "n = Suc m" by (cases n) auto
  ultimately show "json_value n (s @ rest) = Some (v, rest)" using assms(4) by blast
qed (use assms in blast)+

lemma reads_value: "reads v s \<Longrightarrow> 2 * length s \<le> n \<Longrightarrow> stops rest \<Longrightarrow> json_value n (s @ rest) = Some (v, rest)"
  by (simp add: reads_def)

lemma json_word_digits:
  assumes "whole_literal ds"
  shows "json_word (ds @ s) = None" "json_word (CHR ''-'' # ds @ s) = None"
proof -
  obtain c u where ds: "ds = c # u" and c: "is_digit c"
    using assms by (cases ds) (auto simp: whole_literal_def)
  have "c \<noteq> CHR ''n''" "c \<noteq> CHR ''t''" "c \<noteq> CHR ''f''" "c \<noteq> CHR ''N''" "c \<noteq> CHR ''I''" "c \<noteq> CHR ''-''"
    using c by (auto simp: is_digit_def)
  then show "json_word (ds @ s) = None" "json_word (CHR ''-'' # ds @ s) = None"
    by (simp_all add: ds json_word_def starts_with_def)
qed

lemma reads_number:
  assumes lit: "whole_literal ds \<and> (r = ds @ t \<or> r = CHR ''-'' # ds @ t)"
    and num: "\<And>rest. stops rest \<Longrightarrow> json_number (r @ rest) = Some (v, rest)"
  shows "reads v r"
proof (rule readsI)
  obtain c u where r: "r = c # u" and c: "is_digit c \<or> c = CHR ''-''"
    using lit by (cases ds) (auto simp: whole_literal_def)
  then show "r \<noteq> []" "\<not> is_ws (hd r)" "hd r \<noteq> CHR '']''" by (auto simp: is_digit_def is_ws_def)
  fix n rest
  assume "stops rest"
  have "json_word (r @ rest) = None" using lit json_word_digits by auto
  moreover have "c \<noteq> CHR 0x22" "c \<noteq> CHR ''{''" "c \<noteq> CHR ''[''" using c by (auto simp: is_digit_def)
  ultimately show "json_value (Suc n) (r @ rest) = Some (v, rest)"
    using num [OF \<open>stops rest\<close>] by (simp add: r)
qed

lemma reads_int: "length (dec (nat \<bar>i\<bar>)) \<le> 4300 \<Longrightarrow> reads (JInt i) (dec_int i)"
  by (rule reads_number [of "dec (nat \<bar>i\<bar>)" _ "[]"]) (simp add: dec_whole dec_int_def, rule json_number_int)

lemma reads_fixed:
  assumes "fixed_literal r"
  shows "reads (JFloat r) r"
proof -
  define b where "b = (if starts_with ''-'' r then tl r else r)"
  from assms obtain ds t where "whole_literal ds" "b = ds @ t"
    unfolding fixed_literal_def Let_def b_def [symmetric] by blast
  moreover have "r = b \<or> r = CHR ''-'' # b" by (cases r) (auto simp: b_def starts_with_def)
  ultimately show ?thesis
    by (intro reads_number [of ds _ t]) (auto simp: json_number_fixed [OF _ assms])
qed

lemma reads_str: "reads (JStr s) (json_quote s)"
  by (rule readsI) (simp add: json_quote_def is_ws_def, simp add: json_quote_def is_ws_def,
    simp add: json_quote_def, simp add: json_quote_app json_string_quote)

lemma reads_words:
  "reads JNull ''null''" "reads (JBool b) (if b then ''true'' else ''false'')"
  "reads (JFloat ''nan'') ''NaN''" "reads (JFloat ''inf'') ''Infinity''" "reads (JFloat ''-inf'') ''-Infinity''"
  by (rule readsI; simp add: is_ws_def json_word_def starts_with_def)+

section \<open>Lists and objects\<close>

definition gap :: "string \<Rightarrow> bool" where
  "gap g \<longleftrightarrow> list_all is_ws g"

lemma skip_gap: "gap g \<Longrightarrow> skip_ws (g @ s) = skip_ws s"
  by (induction g) (auto simp: gap_def is_ws_def)

lemma skip_none: "s \<noteq> [] \<Longrightarrow> \<not> is_ws (hd s) \<Longrightarrow> skip_ws s = s"
  by (cases s) (auto simp: is_ws_def)

lemma stops_gap: "gap g \<Longrightarrow> stops s \<Longrightarrow> stops (g @ s)"
  by (cases g) (auto simp: gap_def)

lemma py_join_Cons: "ss \<noteq> [] \<Longrightarrow> py_join sep (s # ss) = s @ sep @ py_join sep ss"
  by (cases ss) auto

lemma py_join_start: "ss \<noteq> [] \<Longrightarrow> list_all (\<lambda>s. s \<noteq> []) ss \<Longrightarrow> py_join sep ss \<noteq> [] \<and> hd (py_join sep ss) = hd (hd ss)"
  by (cases ss; cases "tl ss") auto

lemma reads_texts:
  assumes "list_all2 reads xs ss" and "xs \<noteq> []"
  shows "ss \<noteq> []" "list_all (\<lambda>s. s \<noteq> []) ss" "\<not> is_ws (hd (hd ss))" "hd (hd ss) \<noteq> CHR '']''"
proof -
  show "list_all (\<lambda>s. s \<noteq> []) ss"
    using assms(1) by (induction rule: list_all2_induct) (simp_all add: reads_def)
  show "ss \<noteq> []" "\<not> is_ws (hd (hd ss))" "hd (hd ss) \<noteq> CHR '']''"
    using assms by (cases xs; cases ss; simp add: reads_def)+
qed

lemma skip_close: "gap g \<Longrightarrow> skip_ws (g @ CHR '']'' # s) = CHR '']'' # s" "gap g \<Longrightarrow> skip_ws (g @ CHR ''}'' # s) = CHR ''}'' # s"
  by (simp_all add: skip_gap)

lemma reads_items:
  assumes "list_all2 reads xs ss" and "xs \<noteq> []" and "gap g" and "gap g'"
    and "2 * length (py_join (CHR '','' # g) ss) < n"
  shows "json_items n (py_join (CHR '','' # g) ss @ g' @ CHR '']'' # rest) = Some (xs, rest)"
  using assms
proof (induction xs ss arbitrary: n rule: list_all2_induct)
  case Nil
  then show ?case by simp
next
  case (Cons x xs s ss)
  then obtain m where n: "n = Suc m" by (cases n) auto
  show ?case
  proof (cases "xs = []")
    case True
    then have "ss = []" using Cons.hyps(2) by simp
    have "json_value m (s @ g' @ CHR '']'' # rest) = Some (x, g' @ CHR '']'' # rest)"
      using Cons.hyps(1) Cons.prems \<open>ss = []\<close> n by (intro reads_value stops_gap) auto
    then show ?thesis using True \<open>ss = []\<close> Cons.prems n by (simp add: skip_close)
  next
    case False
    then have ne: "ss \<noteq> []" using Cons.hyps(2) by auto
    let ?join = "py_join (CHR '','' # g) ss"
    have join: "py_join (CHR '','' # g) (s # ss) = s @ CHR '','' # g @ ?join"
      using ne by (simp add: py_join_Cons)
    with py_join_start [OF ne] reads_texts [OF Cons.hyps(2) False] have start: "skip_ws (g @ ?join @ t) = ?join @ t" for t
      using Cons.prems(2) by (simp add: skip_gap skip_none)
    have "json_value m (s @ CHR '','' # g @ ?join @ t) = Some (x, CHR '','' # g @ ?join @ t)" for t
      using Cons.hyps(1) Cons.prems(4) n join by (intro reads_value) auto
    moreover have "json_items m (?join @ g' @ CHR '']'' # rest) = Some (xs, rest)"
      using Cons.IH [OF False Cons.prems(2,3)] Cons.prems(4) n join by auto
    ultimately show ?thesis by (simp add: n join start is_ws_def)
  qed
qed

lemma reads_array:
  assumes "list_all2 reads xs ss" and "xs \<noteq> []" and "gap g" and "gap g'" and "gap g''"
  shows "reads (JArr xs) (''['' @ g'' @ py_join (CHR '','' # g) ss @ g' @ '']'')"
proof (rule readsI)
  let ?join = "py_join (CHR '','' # g) ss"
  note ss = reads_texts [OF assms(1,2)]
  note start = py_join_start [OF ss(1,2), of "CHR '','' # g"]
  obtain d t where join: "?join = d # t" and d: "d \<noteq> CHR '']''" "\<not> is_ws d"
    using start ss(3,4) by (cases ?join) auto
  fix n rest
  assume "2 * length (''['' @ g'' @ ?join @ g' @ '']'') \<le> Suc n"
  then have "json_items n (?join @ g' @ CHR '']'' # rest) = Some (xs, rest)"
    using assms by (intro reads_items) auto
  moreover have "skip_ws (g'' @ ?join @ u) = ?join @ u" for u
    using assms(5) d join by (simp add: skip_gap is_ws_def)
  ultimately show "json_value (Suc n) ((''['' @ g'' @ ?join @ g' @ '']'') @ rest) = Some (JArr xs, rest)"
    using d by (simp add: join)
qed (simp_all add: is_ws_def)

text \<open>A key and its value, as the printer writes them.\<close>

definition reads_pair :: "string \<times> json \<Rightarrow> string \<Rightarrow> bool" where
  "reads_pair p t \<longleftrightarrow> (\<exists>s. reads (snd p) s \<and> t = json_quote (fst p) @ '': '' @ s)"

lemma reads_pair_hd: "reads_pair p t \<Longrightarrow> t \<noteq> [] \<and> hd t = CHR 0x22"
  by (auto simp: reads_pair_def json_quote_def)

lemma pair_texts:
  assumes "list_all2 reads_pair ps ss" and "ps \<noteq> []"
  shows "ss \<noteq> []" "list_all (\<lambda>s. s \<noteq> []) ss" "hd (hd ss) = CHR 0x22"
proof -
  show "list_all (\<lambda>s. s \<noteq> []) ss"
    using assms(1) by (induction rule: list_all2_induct) (auto dest: reads_pair_hd)
  show "ss \<noteq> []" "hd (hd ss) = CHR 0x22"
    using assms by (cases ps; cases ss; auto dest: reads_pair_hd)+
qed

lemma json_pairs_step:
  assumes "reads_pair p t" and "2 * length t \<le> n" and "stops rest"
  shows "json_pairs (Suc n) (t @ rest) =
     (case skip_ws rest of
        [] \<Rightarrow> None
      | e # u \<Rightarrow> if e = CHR ''}'' then Some ([p], u)
                 else if e = CHR '','' then map_option (\<lambda>(ps, z). (p # ps, z)) (json_pairs n (skip_ws u))
                 else None)"
proof -
  obtain s where s: "reads (snd p) s" and t: "t = json_quote (fst p) @ '': '' @ s"
    using assms(1) by (auto simp: reads_pair_def)
  have "json_value n (s @ rest) = Some (snd p, rest)"
    using s t assms by (intro reads_value) auto
  moreover have "skip_ws (s @ rest) = s @ rest" using s by (simp add: skip_none reads_def)
  ultimately show ?thesis
    by (cases p) (simp add: t json_quote_app json_string_quote split: list.split)
qed

lemma reads_pairs:
  assumes "list_all2 reads_pair ps ss" and "ps \<noteq> []" and "gap g" and "gap g'"
    and "2 * length (py_join (CHR '','' # g) ss) < n"
  shows "json_pairs n (py_join (CHR '','' # g) ss @ g' @ CHR ''}'' # rest) = Some (ps, rest)"
  using assms
proof (induction ps ss arbitrary: n rule: list_all2_induct)
  case Nil
  then show ?case by simp
next
  case (Cons p ps t ss)
  then obtain m where n: "n = Suc m" by (cases n) auto
  show ?case
  proof (cases "ps = []")
    case True
    then have "ss = []" using Cons.hyps(2) by simp
    have "stops (g' @ CHR ''}'' # rest)" using Cons.prems by (intro stops_gap) auto
    then show ?thesis
      using True \<open>ss = []\<close> Cons.prems n json_pairs_step [OF Cons.hyps(1), of m]
      by (simp add: skip_close)
  next
    case False
    let ?join = "py_join (CHR '','' # g) ss"
    note ss = pair_texts [OF Cons.hyps(2) False]
    have join: "py_join (CHR '','' # g) (t # ss) = t @ CHR '','' # g @ ?join"
      using ss by (simp add: py_join_Cons)
    obtain u where "?join = CHR 0x22 # u"
      using py_join_start [OF ss(1,2), of "CHR '','' # g"] ss(3) by (cases ?join) auto
    then have start: "skip_ws (g @ ?join @ z) = ?join @ z" for z
      using Cons.prems(2) by (simp add: skip_gap)
    have "json_pairs n (t @ CHR '','' # g @ ?join @ z) =
        map_option (\<lambda>(qs, y). (p # qs, y)) (json_pairs m (?join @ z))" for z
      using json_pairs_step [OF Cons.hyps(1), of m "CHR '','' # g @ ?join @ z"] Cons.prems(4) n join
      by (simp add: start)
    moreover have "json_pairs m (?join @ g' @ CHR ''}'' # rest) = Some (ps, rest)"
      using Cons.IH [OF False Cons.prems(2,3)] Cons.prems(4) n join by auto
    ultimately show ?thesis by (simp add: join)
  qed
qed

lemma dict_of_distinct:
  assumes "distinct (map fst d)"
  shows "dict_of_pairs d = d"
proof -
  have "fold (\<lambda>(k, v). dict_set k v) d acc = acc @ d" if "distinct (map fst (acc @ d))" for acc
    using that by (induction d arbitrary: acc) (auto simp: dict_set_new)
  from this [of "[]"] show ?thesis using assms by (simp add: dict_of_pairs_def)
qed

lemma reads_object:
  assumes "list_all2 reads_pair ps ss" and "ps \<noteq> []" and "distinct (map fst ps)"
    and "gap g" and "gap g'" and "gap g''"
  shows "reads (JObj ps) (''{'' @ g'' @ py_join (CHR '','' # g) ss @ g' @ ''}'')"
proof (rule readsI)
  let ?join = "py_join (CHR '','' # g) ss"
  note ss = pair_texts [OF assms(1,2)]
  obtain u where join: "?join = CHR 0x22 # u"
    using py_join_start [OF ss(1,2), of "CHR '','' # g"] ss(3) by (cases ?join) auto
  fix n rest
  assume "2 * length (''{'' @ g'' @ ?join @ g' @ ''}'') \<le> Suc n"
  then have "json_pairs n (?join @ g' @ CHR ''}'' # rest) = Some (ps, rest)"
    using assms by (intro reads_pairs) auto
  moreover have "skip_ws (g'' @ ?join @ z) = ?join @ z" for z
    using assms(6) join by (simp add: skip_gap)
  ultimately show "json_value (Suc n) ((''{'' @ g'' @ ?join @ g' @ ''}'') @ rest) = Some (JObj ps, rest)"
    using dict_of_distinct [OF assms(3)] by (simp add: join)
qed (simp_all add: is_ws_def)

lemma reads_empty: "reads (JArr []) ''[]''" "reads (JObj []) ''{}''"
  by (rule readsI; simp add: is_ws_def)+

section \<open>Whole values\<close>

text \<open>
  A value that JSON can carry: the keys of an object differ, an integer has at most the 4300 digits
  \<open>int\<close> accepts, and a float is one of the three that are no numbers or in fixed-point notation.
\<close>

fun carried :: "json \<Rightarrow> bool" where
  "carried (JInt i) \<longleftrightarrow> length (dec (nat \<bar>i\<bar>)) \<le> 4300"
| "carried (JFloat r) \<longleftrightarrow> r \<in> {''nan'', ''inf'', ''-inf''} \<or> fixed_literal r"
| "carried (JArr xs) \<longleftrightarrow> list_all carried xs"
| "carried (JObj d) \<longleftrightarrow> distinct (map fst d) \<and> list_all (\<lambda>(k, v). carried v) d"
| "carried _ \<longleftrightarrow> True"

lemma fixed_not_named: "fixed_literal r \<Longrightarrow> float_json r = r"
proof -
  assume "fixed_literal r"
  moreover have "\<not> fixed_literal ''inf''" "\<not> fixed_literal ''-inf''" "\<not> fixed_literal ''nan''"
    by code_simp+
  ultimately show ?thesis by (auto simp: float_json_def)
qed

lemma reads_scalar:
  "carried (JInt i) \<Longrightarrow> reads (JInt i) (dec_int i)"
  "carried (JFloat r) \<Longrightarrow> reads (JFloat r) (float_json r)"
  by (simp add: reads_int)
     (auto simp: fixed_not_named reads_fixed float_json_def intro: reads_words)

lemma gap_simps [simp]: "gap []" "gap (c # g) \<longleftrightarrow> is_ws c \<and> gap g" "gap (newline_indent n)"
  by (simp_all add: gap_def newline_indent_def is_ws_def list_all_iff)

lemma reads_dumps_at: "carried v \<Longrightarrow> reads v (dumps_at n v)"
proof (induction n v rule: dumps_at.induct)
  case (6 n xs)
  show ?case
  proof (cases "xs = []")
    case False
    have "list_all2 reads xs (map (dumps_at (n + 2)) xs)"
      using "6.IH" [OF False] "6.prems" by (simp add: list.rel_map list_all2_same list_all_iff)
    from reads_array [OF this False, of "newline_indent (n + 2)" "newline_indent n" "newline_indent (n + 2)"]
    show ?thesis using False by simp
  qed (simp add: reads_empty)
next
  case (7 n d)
  show ?case
  proof (cases "d = []")
    case False
    have "list_all2 reads_pair d (map (\<lambda>(k, v). json_quote k @ '': '' @ dumps_at (n + 2) v) d)"
      using "7.IH" [OF False] "7.prems"
      by (fastforce simp: list.rel_map list_all2_same list_all_iff reads_pair_def)
    from reads_object [OF this False _, of "newline_indent (n + 2)" "newline_indent n" "newline_indent (n + 2)"]
    show ?thesis using False "7.prems" by simp
  qed (simp add: reads_empty)
qed (use reads_words reads_scalar reads_str in simp_all)

lemma reads_dumps: "carried v \<Longrightarrow> reads v (json_dumps v)"
proof (induction v rule: json_dumps.induct)
  case (1 xs)
  show ?case
  proof (cases "xs = []")
    case False
    have "list_all2 reads xs (map json_dumps xs)"
      using "1.IH" "1.prems" by (simp add: list.rel_map list_all2_same list_all_iff)
    from reads_array [OF this False, of "'' ''" "[]" "[]"] show ?thesis by (simp add: is_ws_def)
  qed (simp add: reads_empty)
next
  case (2 d)
  show ?case
  proof (cases "d = []")
    case False
    have "list_all2 reads_pair d (map (\<lambda>(k, v). json_quote k @ '': '' @ json_dumps v) d)"
      using "2.IH" "2.prems"
      by (fastforce simp: list.rel_map list_all2_same list_all_iff reads_pair_def)
    from reads_object [OF this False, of "'' ''" "[]" "[]"] show ?thesis using "2.prems" by (simp add: is_ws_def)
  qed (simp add: reads_empty)
qed (simp_all only: json_dumps.simps reads_dumps_at)

lemma reads_loads:
  assumes "reads v s"
  shows "json_loads s = Some v"
proof -
  have "skip_ws s = s" using assms by (simp add: skip_none reads_def)
  moreover have "json_value (2 * length s + 2) (s @ []) = Some (v, [])"
    using assms by (rule reads_value) simp_all
  ultimately show ?thesis by (simp add: json_loads_def Let_def)
qed

text \<open>Both layouts are read back, and neither begins with white space of any kind.\<close>

lemma json_round_trip:
  assumes "carried v"
  shows "json_loads (json_dumps v) = Some v" and "json_loads (json_dumps2 v) = Some v"
  using reads_loads reads_dumps [OF assms] reads_dumps_at [OF assms, of 0]
  by (auto simp: json_dumps2_def)

lemma reads_not_space:
  assumes "reads v s"
  shows "\<not> is_space (hd s)"
proof
  assume space: "is_space (hd s)"
  obtain c r where s: "s = c # r" using assms by (cases s) (auto simp: reads_def)
  have ranges: "\<not> is_digit c" "c \<noteq> CHR 0x22" "c \<noteq> CHR ''{''" "c \<noteq> CHR ''[''" "c \<noteq> CHR ''-''"
    "c \<noteq> CHR ''0''" "c \<noteq> CHR ''n''" "c \<noteq> CHR ''t''" "c \<noteq> CHR ''f''" "c \<noteq> CHR ''N''" "c \<noteq> CHR ''I''"
    using space by (auto simp: s is_space_def is_digit_def Let_def)
  then have "json_word (c # r) = None" "json_number (c # r) = None"
    by (simp_all add: json_word_def json_number_def int_part_def starts_with_def)
  then have "json_value (Suc (2 * length s)) (s @ []) = None" using ranges by (simp add: s)
  moreover have "json_value (Suc (2 * length s)) (s @ []) = Some (v, [])"
    using assms by (rule reads_value) simp_all
  ultimately show False by simp
qed

lemma strip_visible: "s \<noteq> [] \<Longrightarrow> \<not> is_space (hd s) \<Longrightarrow> strip s \<noteq> []"
  by (cases s) (auto simp: strip_def lstrip_def dropWhile_eq_Nil_conv)

lemma json_dumps_visible: "carried v \<Longrightarrow> json_dumps v \<noteq> [] \<and> strip (json_dumps v) \<noteq> []"
  using reads_not_space [OF reads_dumps] reads_dumps [of v] strip_visible [of "json_dumps v"]
  by (simp add: reads_def)

end
