(* ===== verification/Schema_Files.thy ===== *)
theory Schema_Files
  imports Runtime
begin

text \<open>
  The script that writes the JSON schemas (\<open>scripts/generate_schemas.py\<close>): one file for each of the
  six models the frontend and external validators rely on.  The schema Pydantic derives from a
  model is a parameter; what the script prints on its way is not modelled.
\<close>

definition SCHEMA_MODELS :: "string list" where
  "SCHEMA_MODELS =
     [''run_manifest'', ''checkpoint'', ''evidence_ledger'', ''verifier_report'', ''strategic_programming'',
      ''scrum_mapping'']"

definition schema_dir :: "world \<Rightarrow> ppath \<Rightarrow> ppath" where
  "schema_dir w script = pjoin (pparent (pparent (pparent (resolve_path w script)))) ''schemas''"

definition schema_text :: "json \<Rightarrow> string" where
  "schema_text schema = json_dumps2 schema @ newline"

definition generate_schemas :: "(string \<Rightarrow> json) \<Rightarrow> ppath \<Rightarrow> world \<Rightarrow> world" where
  "generate_schemas schema_of script w =
     (let out_dir = schema_dir w script in
      fold (\<lambda>name. write_file (pjoin out_dir (name @ ''.schema.json'')) (utf8 (schema_text (schema_of name))))
        SCHEMA_MODELS (make_dirs out_dir w))"

section \<open>What the script leaves\<close>

lemma schema_segment: "name \<in> set SCHEMA_MODELS \<Longrightarrow> segment (name @ ''.schema.json'')"
  by (auto simp: SCHEMA_MODELS_def segment_def)

lemma schema_place:
  assumes "name \<in> set SCHEMA_MODELS"
  shows "locate w (pjoin d (name @ ''.schema.json'')) = locate w d @ [name @ ''.schema.json'']"
  using schema_segment [OF assms] by simp

lemma locate_put_at [simp]: "locate (put_at l b w) p = locate w p"
  by (simp add: put_at_def locate_def)

lemma write_schemas:
  "fold (\<lambda>name. write_file (pjoin d (f name)) (b name)) names w
     = fold (\<lambda>(l, x). put_at l x) (map (\<lambda>name. (locate w (pjoin d (f name)), b name)) names) w"
  by (induction names arbitrary: w) (simp_all add: write_file_put_at)

text \<open>Every model has its schema in its file, and no other file is touched.\<close>

lemma schemas_written:
  fixes w :: world and script :: ppath
  defines "place \<equiv> \<lambda>name. locate w (schema_dir w script) @ [name @ ''.schema.json'']"
  shows "name \<in> set SCHEMA_MODELS \<Longrightarrow>
      file_at (generate_schemas schema_of script w) (place name) = Some (utf8 (schema_text (schema_of name)))"
    and "l \<notin> place ` set SCHEMA_MODELS \<Longrightarrow> file_at (generate_schemas schema_of script w) l = file_at w l"
proof -
  let ?d = "schema_dir w script" and ?text = "\<lambda>name. utf8 (schema_text (schema_of name))"
  let ?kvs = "map (\<lambda>name. (place name, ?text name)) SCHEMA_MODELS"
  have eq: "map (\<lambda>name. (locate (make_dirs ?d w) (pjoin ?d (name @ ''.schema.json'')), ?text name)) SCHEMA_MODELS = ?kvs"
    using schema_place by (simp add: place_def)
  have run: "generate_schemas schema_of script w = fold (\<lambda>(l, x). put_at l x) ?kvs (make_dirs ?d w)"
    unfolding generate_schemas_def Let_def write_schemas eq ..
  have "inj_on place (set SCHEMA_MODELS)" by (simp add: inj_on_def place_def)
  then have distinct: "distinct (map fst ?kvs)"
    by (simp add: comp_def distinct_map) (simp add: SCHEMA_MODELS_def)
  show "name \<in> set SCHEMA_MODELS \<Longrightarrow> file_at (generate_schemas schema_of script w) (place name) = Some (?text name)"
    unfolding run by (rule disk.get_puts [OF distinct]) auto
  have "file_at (make_dirs ?d w) l = file_at w l" by (simp add: make_dirs_def file_at_def)
  then show "l \<notin> place ` set SCHEMA_MODELS \<Longrightarrow> file_at (generate_schemas schema_of script w) l = file_at w l"
    unfolding run using disk.get_puts_other [of l ?kvs] by (simp add: image_image)
qed

end
