(* ===== verification/Spec2Isabelle.thy ===== *)
theory Spec2Isabelle
  imports Confined_Runs Overlapping_Requests State_Machine Analysis_Workflow Json_Round_Trip Schema_Files
begin

text \<open>
  A model of the Agent-Analysis harness (\<open>src/backend/app\<close>): a server that accepts run manifests,
  runs chains of deterministic handlers over a repository, collects hashed evidence in a ledger, and
  reports a pull request as gated only after a verifier has passed the run.

  \<^bold>\<open>The parts and how they interact.\<close>
  A request (\<open>schemas/chain.py\<close>) reaches \<open>api/routes_chains.py\<close>, which binds its identity to the
  stored run, allocates an attempt in a workspace the policy admits (\<open>runtime/\<close>) and calls the chain
  executor (\<open>chains/chain_executor.py\<close>).  The executor builds a context (\<open>chains/context.py\<close>), looks up
  the chain of the task type, and runs its handlers (\<open>handlers/\<close>) one by one: each reads and extends
  the context, writes artifacts through the store (\<open>storage/artifact_store.py\<close>), appends entries to
  the ledger (\<open>storage/evidence_writer.py\<close>) and returns a result, which the executor checks against
  the handler's authority, folds into the verifier decision and checkpoints.  Verifier handlers ask
  the gates (\<open>gates/\<close>).  The run record with its attempts and artifacts is kept by a repository,
  in memory or in PostgreSQL.

  \<^bold>\<open>Theories.\<close>  Each opens with a text that says what it holds.
  \<^item> \<open>Prelude\<close>: results with errors as values, computations that pass a state and may raise (\<open>comp\<close>),
    ordered dictionaries, the locale \<open>state_preorder\<close>, shared hints.
  \<^item> \<open>PyStrings\<close>, \<open>Regex\<close>, \<open>PyJson\<close>, \<open>Json_Parser\<close>, \<open>Json_Round_Trip\<close>, \<open>Hashing\<close>: what the source uses of
    the standard library (\<open>str\<close>, \<open>fnmatch\<close>, \<open>re\<close>, \<open>json\<close>, \<open>hashlib\<close>), with \<open>hashing.py\<close>.
  \<^item> \<open>Schemas\<close>: \<open>constants.py\<close> and \<open>schemas/\<close>.  \<open>Gates\<close>: \<open>gates/\<close>.  \<open>State_Machine\<close>: \<open>state_machine.py\<close>
    and \<open>retry_budget.py\<close>; nothing under \<open>src/\<close> drives either, so the bound on attempts is stated for
    a caller that asks the budget before each one.
  \<^item> \<open>Storage\<close>: paths, files, the artifact store and the evidence writer, the
    locale \<open>kv_store\<close>.  \<open>Run_Store\<close> and
    \<open>Postgres_Store\<close>: the run records and the two repositories.
  \<^item> \<open>Context\<close>, \<open>Chains\<close>, \<open>Handler_Base\<close>, \<open>Executor\<close>: the chain context, the chain registry, the base class
    and authority table of handlers, and the executor, generic in the handler registry.
  \<^item> \<open>Control_Handlers\<close>, \<open>Analysis_Handlers\<close>, \<open>Implementation_Handlers\<close>, \<open>Verification_Handlers\<close>,
    \<open>Dependency_Handlers\<close>, \<open>Documentation_Handlers\<close>, \<open>CI_Handlers\<close>, \<open>Security_Handlers\<close>: \<open>handlers/\<close>;
    \<open>Default_Registry\<close> registers them and shows that they meet the executor's contract.
  \<^item> \<open>Runners\<close>, \<open>Tools\<close>, \<open>Agents\<close>, \<open>Router\<close>: \<open>runners/\<close>, \<open>tools/\<close>, \<open>agents/\<close> with \<open>parsing/\<close> and the recorder,
    and \<open>llm/\<close>.  \<open>Analysis_Workflow\<close>: \<open>workflows/analysis_workflow.py\<close>.
  \<^item> \<open>Repository_Choice\<close>: the store port with both adapters behind it, and \<open>api/store.py\<close>, which binds one.
  \<^item> \<open>Runtime\<close>, \<open>Api\<close>: \<open>runtime/\<close> and \<open>api/\<close>.  \<open>Api_Safety\<close>, \<open>Durable_Runs\<close>, \<open>Served_Runs\<close>: the states a
    server can reach by any sequence of requests, and what holds in them.
  \<^item> \<open>Application\<close>: \<open>main.py\<close>, all routes as one function from requests to replies, over the store the
    start-up binds; \<open>Schema_Printers\<close>: the dumps and readers of the schemas, field by field.
    \<open>Schema_Files\<close>: the script that writes the JSON schemas.
    \<open>Overlapping_Requests\<close>: threads whose requests overlap on the durable store, as a step relation;
    \<open>Shared_Records\<close>: the same for the in-memory registry, whose records the threads share, on a heap.
  \<^item> \<open>Chain_Steps\<close>: how single handlers go through the executor.  \<open>Complete_Run\<close>: each handler of the
    implementation chain on a complete request.  \<open>Sample_Run\<close>: a small world and requests in which the
    hypotheses of the run theorems hold.  \<open>Confined_Runs\<close>: where a run writes.

  \<^bold>\<open>Interfaces.\<close>  The locale \<open>harness\<close> (\<open>Executor\<close>) states what the executor relies on: registered handlers
  carry their name, change the context only as \<open>evolves\<close> allows, return a decision that fits their
  status, and report a gated pull request only after a verifier PASS; it is interpreted on the default
  registry.  \<open>state_preorder\<close> gives the rules for such relations (interpreted for \<open>evolves\<close>,
  \<open>progress\<close> and \<open>bounded\<close>), \<open>kv_store\<close> the laws of what is put and got (interpreted for files, handlers, tools and
  run records), \<open>codec\<close> the round trip of an encoding (interpreted for attempts, manifests, reports,
  artifacts, gates, handler results and chain results), \<open>run_port\<close> what the
  port of the run stores promises (interpreted for both adapters).

  \<^bold>\<open>What the lemmas show.\<close>
  Runs of a chain (this theory): a final PASS was given by a verifier and certified, the outcome is a
  function of the results, the ledger only grows and stays well formed, a request outside the envelope
  or an unauthorised change ends the run, and a complete request passes all handlers and is gated;
  outside its evidence directory and the directories above it a
  run changes nothing but what commands, tools and adapters change.
  Server states (\<open>Served_Runs\<close>): no run stands before the PR
  gate without a PASS, which names a task and was not given under the coding agent's own run id (an
  empty verifier id is let through, \<open>unattributed_pass_opens_gate\<close>); attempts are numbered without gaps
  under ids of their own, every run can be saved.
  Stores: what is written is read back as text with its line ends normalised; a record comes back from
  its snapshot as it went in, except for the evidence list of its chain result, which
  \<open>schemas/chain.py\<close> excludes from every dump (\<open>reread\<close>); the durable repository refines the
  in-memory one up to that, and the application answers the same over either, since replies are dumps
  too (\<open>shown_result\<close>).  Overlapping requests: on either
  store the records keep their invariants; of two executions of one run that overlap on the durable
  store, one loses its attempt, and over shared records a late state can overtake a verdict that
  fails (\<open>pr_gate_races\<close>).  Policies: workspace, sandbox, tools, scope and models admit what they are meant to.
  Handlers: the verdicts of the secret scan, the lockfile and link checks and the bounds of the score.
  Router and agents: when an invocation answers, with what, and when it cannot.

  \<^bold>\<open>Conventions of the model.\<close>
  \<^item> A Python string is a HOL string, so its characters are the code points below 256; a file read with
    replacement of errors shows others as the placeholder.  Integers are \<open>int\<close> or \<open>nat\<close>; SHA-256 works
    on \<open>32 word\<close>.  Sets and dictionaries that are iterated are lists in their iteration order.
  \<^item> Paths are those of POSIX \<open>pathlib\<close>; resolving removes dot-dot segments lexically, which is what the
    system does where there are no symbolic links.  Errors of the operating system while writing are
    not modelled.  The world holds files, directories, the working directory and a counter that the
    clock parameter turns into a time.
  \<^item> An exception is a value of \<open>exn\<close>; a handler is a computation on the context.  The untyped
    \<open>shared\<close> dictionary of the context is a record of options.
  \<^item> Code that is not in the repository is a parameter: the shell, git, YAML, the JSON that
    handlers and the recorder print of models, the validation of request bodies, identifiers and times, the adapters of models, and the rounding of
    floating-point operations (\<open>fl\<close>, with the hypothesis \<open>rounding\<close> that it is monotone and exact on
    the integers in question).  The evaluator's score is kept in ten-thousandths, with the binary
    rounding of the division written out.
  \<^item> Fuel: \<open>json_loads\<close> runs on twice the length of the text and two more, enough since every level
    reads a character (\<open>json_round_trip\<close> shows it for printed values); nesting beyond the interpreter's
    recursion limit is not modelled.  The router's recursion over fallbacks runs on the number of
    nested calls left, and running out is the interpreter's recursion error: enough is any number above
    the rank of the fallbacks, and for a cycle none is.  Regular expressions and the
    other loops terminate by a measure.
  \<^item> What Pydantic does with the records of runs is not a parameter: \<open>schema_models\<close> (\<open>Schema_Printers\<close>)
    dumps each schema class field by field in its declared order and reads it with the defaults,
    enums and required fields of the class, so that \<open>record_survives_snapshot\<close> has no hypothesis.
    Theorems that hold for any printer keep it as an argument.
  \<^item> The tables of PostgreSQL are lists of rows with their keys and foreign keys as checks; the order in
    which JSONB keeps keys, the columns the server fills in and the refusal of NUL characters are not
    modelled.

  \<^bold>\<open>Not modelled.\<close>  What FastAPI and Pydantic do around the routes (matching of paths, parsing and printing
  of bodies, but for the field that replies leave out), the SQL schema and the driver of PostgreSQL, the packages that only re-export, the
  frontend, tests and documents.
\<close>

section \<open>Running a chain\<close>

text \<open>
  C1: a chain that ends with the final status PASS was passed by a verifier: the decision is PASS,
  some verifier handler returned PASS, and no handler of the run failed or was blocked.
\<close>

theorem passed_run_was_verified:
  assumes "run_chain v (build_default_registry v) chain c = (Inr res, d)"
    and "x_verifier_decision c = D_PENDING" and "r_final_status res = FS_PASS"
  shows "r_verifier_decision res = D_PASS
    \<and> (\<exists>r \<in> set (r_handler_results res). h_handler_type r = HT_VERIFIER \<and> h_status r = HS_PASS)
    \<and> list_all (\<lambda>r. h_status r = HS_PASS \<or> h_status r = HS_SKIPPED) (r_handler_results res)"
proof -
  have "h_status r = HS_PASS \<or> h_status r = HS_SKIPPED"
    if "h_status r \<noteq> HS_FAIL" "h_status r \<noteq> HS_BLOCKED" for r using that by (cases "h_status r") auto
  then show ?thesis using default.final_pass [OF assms] by (auto simp: list_all_iff)
qed

theorem passed_run_was_verified_witness:
  "\<exists>res d. run_chain sample_env (build_default_registry sample_env) IMPLEMENTATION_CHAIN
      (start_context full_request sample_services sample_world) = (Inr res, d)
    \<and> r_verifier_decision res = D_PASS"
  using sample_completes passed_run_was_verified [OF _ start_pending] by blast

text \<open>
  C2: where the implementation verifier is the only verifier of the chain, a final PASS means that
  the run reached a context that is certified: the verifier is not the coding agent, the agent's
  narrative is quarantined, the tests that apply ran and exited with zero, the evidence the mode
  requires is in the ledger, the design review passes and every changed file is in scope.
\<close>

theorem implementation_pass_is_certified:
  assumes "run_chain v (build_default_registry v) chain c = (Inr res, d)"
    and "x_verifier_decision c = D_PENDING" and "r_final_status res = FS_PASS"
    and "set (cd_handler_names chain) \<inter> set verifier_names \<subseteq> {''ImplementationVerifierHandler''}"
  shows "\<exists>c'. progress c c' \<and> implementation_certified (verifier_view ''impl-verifier'' c')"
proof (rule default.final_pass_verifier [OF assms(1-3)])
  fix n h c' r d'
  assume n: "n \<in> set (cd_handler_names chain)" "registry_get (build_default_registry v) n = Some h"
    "hd_type h = HT_VERIFIER" and c': "progress c c'" and run: "hd_handle h c' = (Inr r, d')"
    and pass: "h_status r = HS_PASS"
  have "type_in (build_default_registry v) n = Some HT_VERIFIER" using n by (simp add: type_in_def)
  then have "n \<in> set verifier_names" by (rule default_verifier_name)
  then have "n = ''ImplementationVerifierHandler''" using assms(4) n(1) by blast
  then have h: "h = implementation_verifier_handler v"
    using n(2) implementation_registered by simp
  let ?c = "verifier_view ''impl-verifier'' c'"
  obtain gates where "implementation_verifier_gates ?c = Inr gates"
    "r = from_gates implementation_verifier_id gates False"
    using run unfolding h by (rule implementation_verifier_result)
  moreover have "x_verifier_run_id ?c \<noteq> []" by simp
  ultimately have "implementation_certified ?c" using implementation_verifier_pass pass by blast
  then show ?thesis using c' by blast
qed

theorem implementation_pass_is_certified_witness:
  "\<exists>c'. progress (start_context full_request sample_services sample_world) c'
     \<and> implementation_certified (verifier_view ''impl-verifier'' c')"
proof -
  obtain res d where "run_chain sample_env (build_default_registry sample_env) IMPLEMENTATION_CHAIN
      (start_context full_request sample_services sample_world) = (Inr res, d)" "r_final_status res = FS_PASS"
    using sample_completes by blast
  moreover have "set (cd_handler_names IMPLEMENTATION_CHAIN) \<inter> set verifier_names \<subseteq> {''ImplementationVerifierHandler''}"
    by code_simp
  ultimately show ?thesis by (intro implementation_pass_is_certified [OF _ start_pending])
qed

text \<open>
  C3: a request that carries everything the implementation chain asks for (the envelope, a complete
  Scrum mapping, a scope, a design review that passes, a candidate with a diff of admitted files by
  an agent that is not the verifier, logs of passed tests) is not held up anywhere: the run
  returns, goes through all handlers of the chain, ends with PASS and reports the pull request as
  gated, as long as the evidence is stored apart from the repository.
\<close>

theorem complete_request_passes:
  assumes "complete_request v q" and "sv_manifest sv = None" and "sv_scrum sv = None"
    and "apart (locate w (run_dir (sv_store sv) (q_run_id q))) (locate w (sv_repo sv))"
  shows "\<exists>res w'. execute v (build_default_registry v) q sv w = (Inr res, w')
    \<and> r_final_status res = FS_PASS \<and> r_verifier_decision res = D_PASS \<and> r_pr_status res = PR_GATED
    \<and> map h_handler_name (r_handler_results res) = cd_handler_names IMPLEMENTATION_CHAIN"
proof -
  have "chain_of (q_task_type q) = IMPLEMENTATION_CHAIN"
    using assms(1) by (simp add: complete_request_def)
  then show ?thesis using complete_run [OF assms] by (auto simp: execute_run)
qed

theorem complete_request_passes_witness:
  "\<exists>res w'. execute sample_env (build_default_registry sample_env) full_request sample_services sample_world = (Inr res, w')
    \<and> r_final_status res = FS_PASS \<and> r_pr_status res = PR_GATED"
proof -
  have "apart (locate sample_world (run_dir (sv_store sample_services) (q_run_id full_request)))
      (locate sample_world (sv_repo sample_services))" by code_simp
  from complete_request_passes [OF full_request_complete _ _ this] show ?thesis
    by (auto simp: sample_services_def)
qed

text \<open>
  C4: what a run returns is determined by its results: they are those of a prefix of the chain's
  handlers, in order, and only the last can have ended the run; a run that stops early ended on
  FAIL, BLOCKED or STOP; the decision is the one the last verifier gave, and the final status is
  the exit's or, without one, the decision's.
\<close>

theorem run_outcome:
  assumes "run_chain v (build_default_registry v) chain c = (Inr res, d)"
    and "x_verifier_decision c = D_PENDING"
  shows "map h_handler_name (r_handler_results res)
           = take (length (r_handler_results res)) (cd_handler_names chain)
    \<and> list_all (\<lambda>r. \<not> halting r) (butlast (r_handler_results res))
    \<and> (length (r_handler_results res) < length (cd_handler_names chain)
         \<longrightarrow> halting (last (r_handler_results res)))
    \<and> r_verifier_decision res = verdict (r_handler_results res)
    \<and> r_final_status res = outcome_of (r_handler_results res)"
  using default.chain_spec [OF assms] by blast

theorem run_outcome_witness:
  "\<exists>res d. run_chain sample_env (build_default_registry sample_env) IMPLEMENTATION_CHAIN
      (start_context full_request sample_services sample_world) = (Inr res, d)
    \<and> r_final_status res = outcome_of (r_handler_results res)"
  using sample_completes run_outcome [OF _ start_pending] by blast

text \<open>
  C5: in a run of a chain whose pull-request handlers come after its verifiers, a gated pull request
  is reported only when the verifier decision is PASS, and the result never asks for a merge or a
  deployment.
\<close>

theorem gated_pr_needs_pass:
  assumes "run_chain v (build_default_registry v) chain c = (Inr res, d)"
    and "verifiers_first (build_default_registry v) (cd_handler_names chain)"
  shows "(r_pr_status res = PR_GATED \<longrightarrow> r_verifier_decision res = D_PASS)
    \<and> \<not> r_auto_merge res \<and> \<not> r_auto_deploy res"
proof -
  have "\<not> r_auto_merge res \<and> \<not> r_auto_deploy res"
    using assms(1) by (auto simp: run_chain_def elim!: bindC_Inr_E)
  then show ?thesis using default.gated_pass [OF assms] by blast
qed

theorem gated_pr_needs_pass_witness:
  "\<exists>res d. run_chain sample_env (build_default_registry sample_env) IMPLEMENTATION_CHAIN
      (start_context full_request sample_services sample_world) = (Inr res, d)
    \<and> r_pr_status res = PR_GATED \<and> r_verifier_decision res = D_PASS"
  using sample_completes gated_pr_needs_pass [OF _ implementation_verifiers_first] by blast

text \<open>
  C6: a run keeps its evidence: the entries it started with stay in front, in order, and the new
  ones carry a hash, are no agent narrative, have distinct ids in rising order; every artifact it
  returns is a hashed artifact of this run and of this attempt.
\<close>

theorem run_keeps_ledger:
  assumes "run_chain v (build_default_registry v) chain c = (Inr res, d)"
    and "x_verifier_decision c = D_PENDING" and "ctx_ok c"
  shows "prefix (x_entries c) (x_entries d)
    \<and> list_all entry_ok (x_entries d) \<and> distinct (map e_entry_id (x_entries d))
    \<and> sorted_wrt (<) (map entry_number (x_entries d))
    \<and> list_all (artifact_ok (x_store c) (x_run_id c)) (r_evidence_artifacts res)
    \<and> \<not> r_agent_self_certification_used res"
proof -
  note spec = default.chain_spec [OF assms(1,2)]
  have d: "ctx_ok d" "prefix (x_entries c) (x_entries d)" "x_store d = x_store c" "x_run_id d = x_run_id c"
    using spec(8) assms(3) by (simp_all add: progress_def)
  then have wf: "ledger_wf (x_evidence d)" by (simp add: ctx_ok_def)
  have "r_agent_self_certification_used res = x_self_certification_used d"
    using assms(1) by (auto simp: run_chain_def elim!: bindC_Inr_E)
  with d spec(9) wf ledger_wf_distinct [OF wf] show ?thesis
    by (simp add: ctx_ok_def ledger_wf_def Let_def)
qed

theorem run_keeps_ledger_witness:
  "\<exists>res d. run_chain sample_env (build_default_registry sample_env) IMPLEMENTATION_CHAIN
      (start_context full_request sample_services sample_world) = (Inr res, d)
    \<and> list_all entry_ok (x_entries d) \<and> distinct (map e_entry_id (x_entries d))"
  using sample_completes run_keeps_ledger [OF _ start_pending start_ok] by blast



text \<open>
  C8: a request outside the canonical envelope (another repository, or a hard rule switched on)
  never gets past the first handler: the run returns, with FAIL, the violations as the reasons, no
  decision and no pull request.
\<close>

theorem invalid_envelope_fails:
  assumes "canonical_violations q \<noteq> []"
  shows "\<exists>res w'. execute v (build_default_registry v) q sv w = (Inr res, w')
    \<and> r_final_status res = FS_FAIL \<and> r_verifier_decision res = D_PENDING
    \<and> r_pr_status res = PR_NOT_REQUIRED
    \<and> (\<exists>r. r_handler_results res = [r] \<and> h_handler_name r = ''ManifestValidationHandler''
          \<and> set (canonical_violations q) \<subseteq> set (h_failure_reasons r))"
proof -
  obtain r d where r: "handler_outcome manifest_validation_handler ''ManifestValidationHandler''
      (start_context q sv w) = (Inr r, d)" "x_verifier_decision d = D_PENDING"
    "h_handler_name r = ''ManifestValidationHandler''" "h_decision r = HD_FAIL" "h_metadata r = []"
    "set (canonical_violations q) \<subseteq> set (h_failure_reasons r)"
    by (rule manifest_rejects [OF assms])
  have "hd_type manifest_validation_handler \<noteq> HT_VERIFIER"
    by (simp add: manifest_validation_handler_def)
  from chain_fails_first [OF chains_start manifest_registered r(1) this r(4,5)]
  obtain res e where "run_chain v (build_default_registry v) (chain_of (q_task_type q))
      (start_context q sv w) = (Inr res, e)" and res: "r_final_status res = FS_FAIL"
    "r_verifier_decision res = D_PENDING" "r_handler_results res = [r]" "r_pr_status res = PR_NOT_REQUIRED"
    unfolding r(2) by blast
  then have "execute v (build_default_registry v) q sv w = (Inr res, x_world e)"
    by (simp add: execute_run)
  with res r(3,6) show ?thesis by blast
qed

theorem invalid_envelope_fails_witness:
  "\<exists>res w'. execute sample_env (build_default_registry sample_env) merging_request sample_services
      sample_world = (Inr res, w') \<and> r_final_status res = FS_FAIL"
  using invalid_envelope_fails [of merging_request sample_env sample_services sample_world]
  by (simp add: merging_violates) blast

text \<open>
  C9: a handler that may not modify the repository and left it different from the snapshot the
  run started from is reported as blocked, whatever it answered, and no later handler runs.
\<close>

theorem unauthorised_change_stops_run:
  assumes reg: "registry_get (build_default_registry v) n = Some h"
    and "\<not> can_modify_repo (hd_type h)" and can: "hd_can_handle h (x_request c)"
    and out: "handler_outcome h n c = (Inr r, e)"
    and "path_exists (x_world e) (x_repo e)" and "\<not> repo_unchanged e"
    and run: "run_handlers v (build_default_registry v) ((i, n) # later) st c = (Inr st', d)"
  shows "r = authority_violation n (hd_type h)
    \<and> lo_results st' = lo_results st @ [authority_violation n (hd_type h)]
    \<and> (\<forall>decision. final_status_of st' decision = FS_BLOCKED)"
proof -
  have r: "r = authority_violation n (hd_type h)"
    using default.outcome_spec(4) [OF reg out] assms by blast
  obtain r1 pr1 d1 where step: "handler_step v (build_default_registry v) i n (lo_pr_status st) c = (Inr (r1, pr1), d1)"
    using run by (auto elim!: bindC_Inr_E)
  then have "r1 = r" using reg out by (auto simp: handler_step_def elim!: bindC_Inr_E)
  then show ?thesis using run step r
    by (simp add: bindC_def authority_violation_def final_status_of_def)
qed

definition stale_ctx :: ctx where
  "stale_ctx = sample_start
     \<lparr>x_world := sample_world\<lparr>w_dirs := [[''repo'']]\<rparr>, x_repo_snapshot := [(''app.py'', ''00'')]\<rparr>"

theorem unauthorised_change_stops_run_witness:
  "\<exists>st d. run_handlers sample_env (build_default_registry sample_env)
      [(0, ''ScopeValidationHandler''), (1, ''ImplementationVerifierHandler'')] start_loop stale_ctx = (Inr st, d)
    \<and> lo_results st = [authority_violation ''ScopeValidationHandler'' HT_PURE_CHECK]"
proof -
  let ?reg = "build_default_registry sample_env"
  have reg: "registry_get ?reg ''ScopeValidationHandler'' = Some scope_validation_handler"
    using default_registered [of scope_validation_handler sample_env]
    by (simp add: default_handlers_def control_handlers_def scope_validation_handler_def)
  have type: "hd_type scope_validation_handler = HT_PURE_CHECK" by (simp add: scope_validation_handler_def)
  have can: "hd_can_handle scope_validation_handler (x_request stale_ctx)"
    by (simp add: scope_validation_handler_def)
  have files: "x_world stale_ctx = sample_world\<lparr>w_dirs := [[''repo'']]\<rparr>"
    "x_repo stale_ctx = \<lparr>p_slashes = 1, p_parts = [''repo'']\<rparr>" "x_repo_snapshot stale_ctx = [(''app.py'', ''00'')]"
    "x_request stale_ctx = sample_request"
    by (simp_all add: stale_ctx_def sample_start_def start_context_def sample_services_def)
  have here: "path_exists (x_world stale_ctx) (x_repo stale_ctx)" and changed: "\<not> repo_unchanged stale_ctx"
    unfolding repo_unchanged_def files by code_simp+
  have "hd_handle scope_validation_handler stale_ctx = (Inr (ok_plain scope_validation_id), stale_ctx)"
    by (simp add: scope_validation_handler_def comp_defs files sample_request_def)
  then obtain r where out: "handler_outcome scope_validation_handler ''ScopeValidationHandler'' stale_ctx = (Inr r, stale_ctx)"
    using can by (simp add: handler_outcome_def comp_defs)
  have r: "r = authority_violation ''ScopeValidationHandler'' HT_PURE_CHECK"
    using default.outcome_spec(4) [OF reg out] type can here changed by (simp add: can_modify_repo_iff REPO_WRITE_TYPES_def)
  obtain a e where "checkpoint_step sample_env 0 ''ScopeValidationHandler'' r
      (decide HT_PURE_CHECK r stale_ctx) = (Inr a, e)"
    using checkpoint_returns by blast
  then obtain st d where run: "run_handlers sample_env ?reg
      [(0, ''ScopeValidationHandler''), (1, ''ImplementationVerifierHandler'')] start_loop stale_ctx = (Inr st, d)"
    using reg out type r
    by (simp add: handler_step_def comp_defs next_pr_status_def authority_violation_def)
  have "\<not> can_modify_repo (hd_type scope_validation_handler)" by (simp add: type can_modify_repo_iff REPO_WRITE_TYPES_def)
  from unauthorised_change_stops_run [OF reg this can out here changed run] run type
  show ?thesis by (simp add: start_loop_def)
qed

section \<open>What a provider answers\<close>

text \<open>
  C35: the structured parser gives the schema validation the very value a provider printed: an
  object reaches it with its keys and values as they were, and any other JSON value is refused; the
  answer of the deterministic provider reaches it as the payload of that provider.
\<close>

theorem provider_output_parses:
  assumes "carried x"
  shows "parse_structured_output v (json_dumps x) = (case x of JObj payload \<Rightarrow> v_output v payload | _ \<Rightarrow> None)
    \<and> (\<exists>r payload. fake_analysis_adapter spec prompt w = (Inr r, w) \<and> fake_payload = JObj payload
         \<and> parse_structured_output v (lr_text r) = v_output v payload)"
proof -
  have parse: "parse_structured_output v (json_dumps y) = (case y of JObj payload \<Rightarrow> v_output v payload | _ \<Rightarrow> None)"
    if "carried y" for y
    using json_round_trip(1) [OF that] json_dumps_visible [OF that]
    by (simp add: parse_structured_output_def split: json.split)
  have fake: "carried fake_payload" by code_simp
  obtain payload where object: "fake_payload = JObj payload" by (simp add: fake_payload_def)
  have "parse_structured_output v (json_dumps fake_payload) = v_output v payload"
    by (subst parse [OF fake]) (simp add: object)
  moreover obtain r where "fake_analysis_adapter spec prompt w = (Inr r, w)" "lr_text r = json_dumps fake_payload"
    by (simp add: fake_analysis_adapter_def comp_defs Let_def)
  ultimately have "\<exists>r payload. fake_analysis_adapter spec prompt w = (Inr r, w) \<and> fake_payload = JObj payload
         \<and> parse_structured_output v (lr_text r) = v_output v payload"
    using object by metis
  then show ?thesis using parse [OF assms] by (rule conjI [rotated])
qed

definition nested_value :: json where
  "nested_value = JObj [(''a'', JArr [JInt (-12), JFloat ''0.5'', JNull]),
     (''b'', JObj [(''c'', JStr [CHR 0x0A, backslash, CHR 0xE9])])]"

theorem provider_output_parses_witness:
  "\<forall>v. parse_structured_output v (json_dumps nested_value)
     = v_output v [(''a'', JArr [JInt (-12), JFloat ''0.5'', JNull]), (''b'', JObj [(''c'', JStr [CHR 0x0A, backslash, CHR 0xE9])])]"
proof -
  have "carried nested_value" by code_simp
  from provider_output_parses [OF this] show ?thesis by (simp add: nested_value_def)
qed

end
